(* ===== verification/FS_Prelude.thy ===== *)
theory FS_Prelude
  imports Main "HOL-Library.Finite_Map" "HOL-Library.Sublist" "HOL-Library.Char_ord"
    "HOL-Library.List_Lexorder"
begin

text \<open>
  Shared vocabulary of the development: the Go types that several components use, 64-bit
  counters with Go's wrap-around, Go string helpers (\<^verbatim>\<open>strings.Split\<close>,
  \<^verbatim>\<open>strings.Contains\<close>, \<^verbatim>\<open>strconv\<close> formatting), the idiom
  \<^verbatim>\<open>index[key(x)] = x\<close> that builds a Go map from a slice, and the lemmas on them that the
  component theories rely on.
\<close>

section \<open>Proof collections\<close>

named_theorems codec_simps \<open>equations that unfold snapshot encoders and decoders\<close>
named_theorems frame_simps \<open>fields an operation leaves unchanged\<close>
named_theorems io_simps \<open>equations of the effect model\<close>

section \<open>Go types\<close>

text \<open>
  Go strings and byte slices are char lists. \<^verbatim>\<open>time.Time\<close> is the instant as an
  integer; zero is the zero time. A \<^verbatim>\<open>map[string]string\<close> is a finite map, in which a nil
  and an empty Go map are the same value (no operation modelled here tells them apart).
\<close>

type_synonym go_time = int
type_synonym string_map = "(string, string) fmap"
type_synonym bytes = string

section \<open>64-bit counters\<close>

text \<open>
  \<^verbatim>\<open>Generation\<close>, \<^verbatim>\<open>StrategyVersion\<close> and
  \<^verbatim>\<open>IntentVersion\<close> are \<^verbatim>\<open>int64\<close> in Go: addition
  wraps around. \<open>i64\<close> is the value of an integer result in that type.
\<close>

definition i64 :: "int \<Rightarrow> int" where
  "i64 x = (x + 2 ^ 63) mod 2 ^ 64 - 2 ^ 63"

abbreviation max_i64 :: int where
  "max_i64 \<equiv> 2 ^ 63 - 1"

abbreviation min_i64 :: int where
  "min_i64 \<equiv> - (2 ^ 63)"

lemma i64_range: "min_i64 \<le> i64 x \<and> i64 x \<le> max_i64"
proof -
  have "0 \<le> (x + 2 ^ 63) mod 2 ^ 64" "(x + 2 ^ 63) mod 2 ^ 64 < (2 ^ 64 :: int)"
    by simp_all
  then show ?thesis unfolding i64_def by simp
qed

lemma i64_id: "min_i64 \<le> x \<Longrightarrow> x \<le> max_i64 \<Longrightarrow> i64 x = x"
  unfolding i64_def by (subst mod_pos_pos_trivial) auto

lemma i64_Suc: "min_i64 \<le> x \<Longrightarrow> x < max_i64 \<Longrightarrow> i64 (x + 1) = x + 1"
  by (rule i64_id) auto

lemma i64_overflow: "i64 (max_i64 + 1) = min_i64"
  by (simp add: i64_def)

section \<open>Building a Go map from a slice\<close>

text \<open>
  \<^verbatim>\<open>for _, x := range xs { m[key(x)] = x }\<close>: a later element replaces an earlier one
  with the same key.
\<close>

definition put_key :: "('a \<Rightarrow> 'k) \<Rightarrow> 'a \<Rightarrow> ('k \<rightharpoonup> 'a) \<Rightarrow> ('k \<rightharpoonup> 'a)" where
  "put_key key x m = m(key x \<mapsto> x)"

definition index_by :: "('a \<Rightarrow> 'k) \<Rightarrow> 'a list \<Rightarrow> 'k \<Rightarrow> 'a option" where
  "index_by key xs = fold (put_key key) xs Map.empty"

lemma index_fold_None:
  "fold (put_key key) xs m k = None \<longleftrightarrow> m k = None \<and> k \<notin> key ` set xs"
  by (induction xs arbitrary: m) (auto simp: put_key_def)

lemma index_fold_Some:
  "fold (put_key key) xs m k = Some y \<Longrightarrow> m k = Some y \<or> y \<in> set xs \<and> key y = k"
proof (induction xs arbitrary: m)
  case Nil
  then show ?case by simp
next
  case (Cons x xs)
  from Cons.prems have "put_key key x m k = Some y \<or> y \<in> set xs \<and> key y = k"
    by (intro Cons.IH) simp
  then show ?case by (auto simp: put_key_def split: if_splits)
qed

lemma index_by_None: "index_by key xs k = None \<longleftrightarrow> k \<notin> key ` set xs"
  by (simp add: index_by_def index_fold_None)

lemma index_by_SomeD: "index_by key xs k = Some y \<Longrightarrow> y \<in> set xs \<and> key y = k"
  using index_fold_Some [of key xs Map.empty k y] by (simp add: index_by_def)

lemma index_by_member: "x \<in> set xs \<Longrightarrow> \<exists>y. index_by key xs (key x) = Some y"
  by (metis image_eqI index_by_None not_Some_eq)

lemma index_by_distinct:
  assumes "distinct (map key xs)" "x \<in> set xs"
  shows "index_by key xs (key x) = Some x"
proof -
  obtain y where y: "index_by key xs (key x) = Some y"
    using index_by_member [OF assms(2)] by blast
  with index_by_SomeD have "y \<in> set xs" "key y = key x" by metis+
  with assms have "y = x" by (metis distinct_map inj_onD)
  with y show ?thesis by simp
qed

lemma index_fold_add: "fold (put_key key) xs m = m ++ index_by key xs"
proof (induction xs rule: rev_induct)
  case Nil
  then show ?case by (simp add: index_by_def)
next
  case (snoc x xs)
  have "fold (put_key key) (xs @ [x]) m = put_key key x (m ++ index_by key xs)"
    by (simp only: fold_append fold_simps o_apply snoc)
  also have "\<dots> = m ++ put_key key x (index_by key xs)"
    by (simp add: put_key_def)
  also have "put_key key x (index_by key xs) = index_by key (xs @ [x])"
    by (simp add: index_by_def)
  finally show ?case .
qed

lemma index_by_Nil [simp]: "index_by key [] = Map.empty"
  by (simp add: index_by_def)

lemma index_by_Cons: "index_by key (x # xs) = [key x \<mapsto> x] ++ index_by key xs"
proof -
  have "index_by key (x # xs) = fold (put_key key) xs [key x \<mapsto> x]"
    by (simp add: index_by_def put_key_def)
  also have "\<dots> = [key x \<mapsto> x] ++ index_by key xs"
    by (rule index_fold_add)
  finally show ?thesis .
qed

lemma index_by_append: "index_by key (xs @ ys) = index_by key xs ++ index_by key ys"
  by (induction xs) (simp_all add: index_by_Cons)

text \<open>The values of that map, in the order of the slice.\<close>

fun keep_last :: "('a \<Rightarrow> 'k) \<Rightarrow> 'a list \<Rightarrow> 'a list" where
  "keep_last key [] = []"
| "keep_last key (x # xs) =
     (if key x \<in> key ` set xs then keep_last key xs else x # keep_last key xs)"

lemma keys_keep_last [simp]: "key ` set (keep_last key xs) = key ` set xs"
  by (induction xs) auto

lemma distinct_keep_last [simp]: "distinct (map key (keep_last key xs))"
proof (induction xs)
  case Nil
  then show ?case by simp
next
  case (Cons x xs)
  then show ?case using keys_keep_last [of key xs] by simp
qed

lemma index_by_keep_last [simp]: "index_by key (keep_last key xs) = index_by key xs"
proof (induction xs)
  case Nil
  then show ?case by simp
next
  case (Cons x xs)
  have "[key x \<mapsto> x] ++ index_by key xs = index_by key xs" if "key x \<in> key ` set xs"
  proof
    fix k
    from that have "index_by key xs (key x) \<noteq> None" by (simp add: index_by_None)
    then show "([key x \<mapsto> x] ++ index_by key xs) k = index_by key xs k"
      by (auto simp: map_add_def split: option.splits)
  qed
  with Cons show ?case by (simp add: index_by_Cons)
qed

lemma keep_last_distinct: "distinct (map key xs) \<Longrightarrow> keep_last key xs = xs"
  by (induction xs) auto

lemma index_by_set_eq:
  assumes "distinct (map key xs)" "distinct (map key ys)" "set xs = set ys"
  shows "index_by key xs = index_by key ys"
proof
  fix k
  show "index_by key xs k = index_by key ys k"
  proof (cases "k \<in> key ` set xs")
    case True
    then obtain x where "x \<in> set xs" "k = key x" by auto
    with assms show ?thesis by (simp add: index_by_distinct)
  next
    case False
    with assms(3) have "index_by key xs k = None" "index_by key ys k = None"
      by (auto simp: index_by_None)
    then show ?thesis by simp
  qed
qed

text \<open>Looking the keys up in order and skipping the ones that are missing.\<close>

definition pick_all :: "('k \<Rightarrow> 'a option) \<Rightarrow> 'k list \<Rightarrow> 'a list" where
  "pick_all m ks = List.map_filter m ks"

lemma pick_all_simps [simp]:
  "pick_all m [] = []"
  "pick_all m (k # ks) = (case m k of None \<Rightarrow> pick_all m ks | Some x \<Rightarrow> x # pick_all m ks)"
  by (simp_all add: pick_all_def List.map_filter_def split: option.splits)

lemma set_pick_all: "set (pick_all m ks) = {x. \<exists>k \<in> set ks. m k = Some x}"
  by (induction ks) (auto split: option.splits)

lemma pick_all_total:
  assumes "\<And>k. k \<in> set ks \<Longrightarrow> \<exists>x. m k = Some x \<and> key x = k"
  shows "map key (pick_all m ks) = ks"
  using assms
proof (induction ks)
  case Nil
  then show ?case by simp
next
  case (Cons k ks)
  from Cons.prems [of k] obtain x where "m k = Some x" "key x = k" by auto
  with Cons.IH [OF Cons.prems] show ?case by simp
qed

lemma map_key_pick_all:
  assumes "\<And>k x. m k = Some x \<Longrightarrow> key x = k"
  shows "map key (pick_all m ks) = filter (\<lambda>k. m k \<noteq> None) ks"
  using assms by (induction ks) (auto split: option.splits)

section \<open>Sets as distinct lists\<close>

text \<open>
  A Go \<^verbatim>\<open>map[K]struct{}\<close> used as a set: insertion builds it from a slice,
  \<^verbatim>\<open>delete(m, k)\<close> removes one key.
\<close>

abbreviation key_set :: "'k list \<Rightarrow> 'k list" where
  "key_set ks \<equiv> remdups ks"

abbreviation delete_key :: "'k \<Rightarrow> 'k list \<Rightarrow> 'k list" where
  "delete_key k ks \<equiv> removeAll k ks"

lemma length_removeAll_less_member: "k \<in> set ks \<Longrightarrow> length (removeAll k ks) < length ks"
  by (induction ks) (auto simp: le_imp_less_Suc)

section \<open>Go strings\<close>

text \<open>\<^verbatim>\<open>strings.Split(s, c)\<close> for a one-character separator.\<close>

fun split_on :: "char \<Rightarrow> string \<Rightarrow> string list" where
  "split_on c [] = [[]]"
| "split_on c (x # xs) =
     (if x = c then [] # split_on c xs
      else case split_on c xs of [] \<Rightarrow> [[x]] | y # ys \<Rightarrow> (x # y) # ys)"

fun join_on :: "char \<Rightarrow> string list \<Rightarrow> string" where
  "join_on c [] = []"
| "join_on c [x] = x"
| "join_on c (x # y # ys) = x @ c # join_on c (y # ys)"

lemma split_on_nonempty [simp]: "split_on c s \<noteq> []"
  by (induction s) (auto split: list.splits)

lemma join_split [simp]: "join_on c (split_on c s) = s"
proof (induction s)
  case Nil
  then show ?case by simp
next
  case (Cons x s)
  obtain y ys where split: "split_on c s = y # ys"
    by (cases "split_on c s") auto
  with Cons.IH show ?case by (cases ys) auto
qed

lemma split_on_no_sep: "c \<notin> set s \<Longrightarrow> split_on c s = [s]"
  by (induction s) auto

lemma split_on_append:
  "split_on c (s @ c # t) = split_on c s @ split_on c t"
proof (induction s)
  case Nil
  then show ?case by simp
next
  case (Cons x s)
  obtain y ys where "split_on c s = y # ys"
    by (cases "split_on c s") auto
  with Cons.IH show ?case by auto
qed

lemma split_on_parts: "p \<in> set (split_on c s) \<Longrightarrow> c \<notin> set p"
proof (induction s arbitrary: p)
  case Nil
  then show ?case by simp
next
  case (Cons x s)
  obtain y ys where "split_on c s = y # ys"
    by (cases "split_on c s") auto
  with Cons show ?case by (auto split: if_splits)
qed

text \<open>
  \<^verbatim>\<open>strings.LastIndex(s, c)\<close> and the two halves around it: \<open>None\<close> when the
  separator does not occur, else the text before and after its last occurrence.
\<close>

definition cut_last :: "char \<Rightarrow> string \<Rightarrow> (string \<times> string) option" where
  "cut_last c s =
     (if c \<in> set s
      then Some (rev (tl (dropWhile (\<lambda>x. x \<noteq> c) (rev s))), rev (takeWhile (\<lambda>x. x \<noteq> c) (rev s)))
      else None)"

lemma cut_last_append:
  assumes "c \<notin> set t"
  shows "cut_last c (s @ c # t) = Some (s, t)"
proof -
  have rt: "\<And>x. x \<in> set (rev t) \<Longrightarrow> x \<noteq> c" using assms by auto
  have "dropWhile (\<lambda>x. x \<noteq> c) (rev (s @ c # t)) = c # rev s"
    using rt dropWhile_append2 [of "rev t" "\<lambda>x. x \<noteq> c" "c # rev s"] by simp
  moreover have "takeWhile (\<lambda>x. x \<noteq> c) (rev (s @ c # t)) = rev t"
    using rt takeWhile_append2 [of "rev t" "\<lambda>x. x \<noteq> c" "c # rev s"] by simp
  ultimately show ?thesis by (simp add: cut_last_def)
qed

lemma cut_last_None: "cut_last c s = None \<longleftrightarrow> c \<notin> set s"
  by (simp add: cut_last_def)

lemma cut_last_SomeD:
  assumes "cut_last c s = Some (p, q)"
  shows "s = p @ c # q" "c \<notin> set q"
proof -
  from assms have "c \<in> set s" by (simp add: cut_last_def split: if_splits)
  then obtain p' q' where s: "s = p' @ c # q'" "c \<notin> set q'"
    by (metis split_list_last)
  with assms cut_last_append [of c q' p'] have "p = p'" "q = q'" by auto
  with s show "s = p @ c # q" "c \<notin> set q" by auto
qed

text \<open>\<^verbatim>\<open>strings.SplitN(s, c, 2)\<close>: the text before and after the first separator.\<close>

definition cut_first :: "char \<Rightarrow> string \<Rightarrow> (string \<times> string) option" where
  "cut_first c s =
     (if c \<in> set s
      then Some (takeWhile (\<lambda>x. x \<noteq> c) s, tl (dropWhile (\<lambda>x. x \<noteq> c) s))
      else None)"

lemma cut_first_append: "c \<notin> set s \<Longrightarrow> cut_first c (s @ c # t) = Some (s, t)"
proof -
  assume "c \<notin> set s"
  then have "\<And>x. x \<in> set s \<Longrightarrow> x \<noteq> c" by auto
  then show ?thesis
    by (simp add: cut_first_def dropWhile_append2 takeWhile_append2)
qed

text \<open>\<^verbatim>\<open>strings.TrimPrefix\<close>, \<^verbatim>\<open>%d\<close> and \<^verbatim>\<open>%q\<close> (without escapes).\<close>

definition trim_prefix :: "string \<Rightarrow> string \<Rightarrow> string" where
  "trim_prefix p s = (if prefix p s then drop (length p) s else s)"

lemma trim_prefix_append [simp]: "trim_prefix p (p @ s) = s"
  by (simp add: trim_prefix_def)

fun nat_digits :: "nat \<Rightarrow> string" where
  "nat_digits n = (if n < 10 then [char_of (48 + n)] else nat_digits (n div 10) @ [char_of (48 + n mod 10)])"

declare nat_digits.simps [simp del]

definition itoa :: "int \<Rightarrow> string" where
  "itoa i = (if i < 0 then CHR ''-'' # nat_digits (nat (- i)) else nat_digits (nat i))"

definition quote :: "string \<Rightarrow> string" where
  "quote s = CHR 0x22 # s @ [CHR 0x22]"

definition squote :: "string \<Rightarrow> string" where
  "squote s = CHR 0x27 # s @ [CHR 0x27]"

lemma sublist_trans_append: "sublist p s \<Longrightarrow> sublist p (a @ s @ b)"
  by (metis append.assoc sublist_def)

end
