(* ===== verification/FS_Errors.thy ===== *)
theory FS_Errors
  imports FS_Prelude
begin

text \<open>
  Go errors as the server builds and inspects them
  (\<^verbatim>\<open>server/internal/domain/errors.go\<close>): sentinel values, \<^verbatim>\<open>fmt.Errorf\<close> with
  and without \<^verbatim>\<open>%w\<close>, the terminal marker, and the two classifiers
  \<^verbatim>\<open>IsTerminal\<close> and \<^verbatim>\<open>IsAuthExpired\<close>, which look at the wrapping chain first
  and at the error text second. The lemmas show that the classification survives wrapping and
  the loss of the chain when an error crosses a workflow-engine boundary as text.
\<close>

section \<open>Error values\<close>

datatype sentinel =
    ErrNotFound | ErrAlreadyExists | ErrInvalidArgument | ErrAlreadyRunning
  | ErrIllegalStateTransition | ErrAuthExpired | ErrStaleGeneration | ErrUnimplemented
  | ErrAuthPaused | ErrSignalTimeout

fun sentinelText :: "sentinel \<Rightarrow> string" where
  "sentinelText ErrNotFound = ''not found''"
| "sentinelText ErrAlreadyExists = ''already exists''"
| "sentinelText ErrInvalidArgument = ''invalid argument''"
| "sentinelText ErrAlreadyRunning = ''workflow already running''"
| "sentinelText ErrIllegalStateTransition = ''illegal state transition''"
| "sentinelText ErrAuthExpired = ''delivery auth expired''"
| "sentinelText ErrStaleGeneration = ''stale generation''"
| "sentinelText ErrUnimplemented = ''unimplemented''"
| "sentinelText ErrAuthPaused = ''delivery auth failed: pausing for fresh credentials''"
| "sentinelText ErrSignalTimeout = ''signal timeout''"

text \<open>
  \<open>Plain s\<close> is \<^verbatim>\<open>errors.New(s)\<close> or an \<^verbatim>\<open>fmt.Errorf\<close> without
  \<^verbatim>\<open>%w\<close>; \<open>Wrapped p e q\<close> is \<^verbatim>\<open>fmt.Errorf(p + "%w" + q, e)\<close>;
  \<open>TerminalErr e\<close> is \<^verbatim>\<open>&terminalError{err: e}\<close>.
\<close>

datatype error =
    Sentinel sentinel
  | Plain string
  | Wrapped string error string
  | TerminalErr error

definition terminalPrefix :: string where
  "terminalPrefix = ''terminal: ''"

fun errorText :: "error \<Rightarrow> string" where
  "errorText (Sentinel s) = sentinelText s"
| "errorText (Plain s) = s"
| "errorText (Wrapped p e q) = p @ errorText e @ q"
| "errorText (TerminalErr e) = terminalPrefix @ errorText e"

text \<open>\<^verbatim>\<open>errors.Is(err, sentinel)\<close> and the type search of \<^verbatim>\<open>errors.As\<close>.\<close>

fun errorsIs :: "error \<Rightarrow> sentinel \<Rightarrow> bool" where
  "errorsIs (Sentinel s) t = (s = t)"
| "errorsIs (Plain _) t = False"
| "errorsIs (Wrapped _ e _) t = errorsIs e t"
| "errorsIs (TerminalErr e) t = errorsIs e t"

fun asTerminal :: "error \<Rightarrow> bool" where
  "asTerminal (Sentinel _) = False"
| "asTerminal (Plain _) = False"
| "asTerminal (Wrapped _ e _) = asTerminal e"
| "asTerminal (TerminalErr _) = True"

definition TerminalError :: "error option \<Rightarrow> error option" where
  "TerminalError err = (case err of None \<Rightarrow> None | Some e \<Rightarrow> Some (TerminalErr e))"

definition IsTerminal :: "error option \<Rightarrow> bool" where
  "IsTerminal err =
     (case err of
        None \<Rightarrow> False
      | Some e \<Rightarrow> asTerminal e \<or> sublist terminalPrefix (errorText e))"

definition IsAuthExpired :: "error option \<Rightarrow> bool" where
  "IsAuthExpired err =
     (case err of
        None \<Rightarrow> False
      | Some e \<Rightarrow> errorsIs e ErrAuthExpired \<or> sublist (sentinelText ErrAuthExpired) (errorText e))"

text \<open>A fallible Go call: \<^verbatim>\<open>(T, error)\<close> with exactly one of the two meaningful.\<close>

type_synonym 'a result = "error + 'a"

text \<open>\<^verbatim>\<open>fmt.Errorf("kind: %w: msg", ErrInvalidArgument)\<close>.\<close>

definition invalid :: "string \<Rightarrow> string \<Rightarrow> error" where
  "invalid kind msg = Wrapped (kind @ '': '') (Sentinel ErrInvalidArgument) ('': '' @ msg)"

lemma errorsIs_invalid [simp]: "errorsIs (invalid kind msg) s \<longleftrightarrow> s = ErrInvalidArgument"
  by (auto simp: invalid_def)

text \<open>An error that crossed a process boundary: only its text is left.\<close>

definition serialized :: "error \<Rightarrow> error" where
  "serialized e = Plain (errorText e)"

section \<open>Classification\<close>

lemma asTerminal_text: "asTerminal e \<Longrightarrow> sublist terminalPrefix (errorText e)"
  by (induction e) (auto intro: sublist_trans_append)

lemma errorsIs_text: "errorsIs e s \<Longrightarrow> sublist (sentinelText s) (errorText e)"
proof (induction e)
  case (TerminalErr e)
  then show ?case
    using sublist_trans_append [of "sentinelText s" "errorText e" terminalPrefix "[]"] by simp
qed (auto intro: sublist_trans_append)

lemma IsTerminal_text: "IsTerminal (Some e) \<longleftrightarrow> sublist terminalPrefix (errorText e)"
  by (auto simp: IsTerminal_def asTerminal_text)

lemma IsAuthExpired_text:
  "IsAuthExpired (Some e) \<longleftrightarrow> sublist (sentinelText ErrAuthExpired) (errorText e)"
  using errorsIs_text [of e ErrAuthExpired] by (auto simp: IsAuthExpired_def)

lemma IsTerminal_Wrapped [simp]:
  "IsTerminal (Some e) \<Longrightarrow> IsTerminal (Some (Wrapped p e q))"
  by (simp add: IsTerminal_text sublist_trans_append)

lemma IsTerminal_TerminalErr [simp]: "IsTerminal (Some (TerminalErr e))"
  by (simp add: IsTerminal_def)

text \<open>
  C33: the classification of an error as terminal, and as an expired-credentials error, is the
  same before and after the error is reduced to its text (the form in which activity errors come
  back from a durable workflow engine), and marking an error terminal is never lost by wrapping
  it any number of times.
\<close>

theorem classification_survives_serialization:
  "IsTerminal (Some (serialized e)) = IsTerminal (Some e) \<and>
   IsAuthExpired (Some (serialized e)) = IsAuthExpired (Some e) \<and>
   IsTerminal (Some (serialized (fold (\<lambda>(p, q) e'. Wrapped p e' q) ws (TerminalErr e))))"
proof -
  have wraps: "IsTerminal (Some (fold (\<lambda>(p, q) e'. Wrapped p e' q) ws e'))"
    if "IsTerminal (Some e')" for e'
    using that by (induction ws arbitrary: e') auto
  have ser: "IsTerminal (Some (serialized x)) = IsTerminal (Some x)" for x
    by (simp add: IsTerminal_text serialized_def)
  have aut: "IsAuthExpired (Some (serialized e)) = IsAuthExpired (Some e)"
    by (simp add: IsAuthExpired_text serialized_def)
  show ?thesis
    using wraps [of "TerminalErr e"] by (simp add: ser aut)
qed

end
