(* ===== verification/FS_Names.thy ===== *)
theory FS_Names
  imports FS_Errors
begin

text \<open>
  AIP-122 resource naming (\<^verbatim>\<open>server/internal/domain/resource_identity.go\<close> and
  \<^verbatim>\<open>ids.go\<close>): the validating constructors of the identifier value objects, the
  path parser shared by collection and resource names, and the composition and decomposition
  of full resource names. The lemmas characterise the parsers by their path segments and show
  that composing and taking apart a name are inverse.
\<close>

section \<open>Identifier value objects\<close>

type_synonym ServiceName = string
type_synonym APIVersion = string
type_synonym CollectionID = string
type_synonym ResourceID = string
type_synonym CollectionName = string
type_synonym ResourceName = string
type_synonym FullResourceName = string
type_synonym RelationshipType = string
type_synonym TargetID = string
type_synonym TargetType = string
type_synonym ManifestType = string
type_synonym FulfillmentID = string
type_synonym DeliveryID = string
type_synonym Generation = int

abbreviation slash :: char where
  "slash \<equiv> CHR ''/''"

definition NewTargetID :: "string \<Rightarrow> TargetID result" where
  "NewTargetID s = (if s = '''' then Inl (invalid ''target id'' ''must not be empty'') else Inr s)"

definition NewManifestType :: "string \<Rightarrow> ManifestType result" where
  "NewManifestType s =
     (if s = '''' then Inl (invalid ''manifest type'' ''must not be empty'') else Inr s)"

definition NewServiceName :: "string \<Rightarrow> ServiceName result" where
  "NewServiceName s =
     (if s = '''' then Inl (invalid ''service name'' ''must not be empty'')
      else if slash \<in> set s then Inl (invalid ''service name'' (''must not contain '' @ squote [slash]))
      else Inr s)"

definition NewAPIVersion :: "string \<Rightarrow> APIVersion result" where
  "NewAPIVersion v =
     (if v = '''' then Inl (invalid ''api version'' ''must not be empty'')
      else if \<not> prefix ''v'' v then Inl (invalid ''api version'' (''must start with '' @ squote ''v''))
      else Inr v)"

text \<open>The byte test \<^verbatim>\<open>s[0] < 'a' || s[0] > 'z'\<close>, negated.\<close>

definition startsLower :: "string \<Rightarrow> bool" where
  "startsLower s = (case s of [] \<Rightarrow> False | c # _ \<Rightarrow> CHR ''a'' \<le> c \<and> c \<le> CHR ''z'')"

definition NewCollectionID :: "string \<Rightarrow> CollectionID result" where
  "NewCollectionID s =
     (if s = '''' then Inl (invalid ''collection id'' ''must not be empty'')
      else if \<not> startsLower s
        then Inl (invalid ''collection id'' ''must start with a lowercase letter (lowerCamelCase)'')
      else if slash \<in> set s then Inl (invalid ''collection id'' (''must not contain '' @ squote [slash]))
      else Inr s)"

definition NewResourceID :: "string \<Rightarrow> ResourceID result" where
  "NewResourceID s =
     (if s = '''' then Inl (invalid ''resource id'' ''must not be empty'')
      else if slash \<in> set s then Inl (invalid ''resource id'' (''must not contain '' @ squote [slash]))
      else Inr s)"

definition NewRelationshipType :: "string \<Rightarrow> RelationshipType result" where
  "NewRelationshipType s =
     (if s = '''' then Inl (invalid ''relationship type'' ''must not be empty'') else Inr s)"

section \<open>Collection and resource names\<close>

definition validateCanonicalPath :: "string \<Rightarrow> string \<Rightarrow> string list result" where
  "validateCanonicalPath kind s =
     (if s = '''' then Inl (invalid kind ''must not be empty'')
      else if prefix [slash] s then Inl (invalid kind (''must not start with '' @ squote [slash]))
      else if suffix [slash] s then Inl (invalid kind (''must not end with '' @ squote [slash]))
      else
        (let parts = split_on slash s
         in if list_ex (\<lambda>p. p = '''') parts
            then Inl (invalid kind ''must not contain empty segments (double slashes)'')
            else Inr parts))"

definition ParseCollectionName :: "string \<Rightarrow> CollectionName result" where
  "ParseCollectionName s =
     (case validateCanonicalPath ''collection name'' s of
        Inl err \<Rightarrow> Inl err
      | Inr parts \<Rightarrow>
          if even (length parts)
          then Inl (invalid ''collection name'' (''must have an odd number of segments (e.g. '' @ quote ''clusters'' @
                 '' or '' @ quote ''publishers/123/books'' @ '')''))
          else if \<not> startsLower (last parts)
          then Inl (invalid ''collection name''
                 ''trailing segment must start with a lowercase letter (lowerCamelCase)'')
          else Inr s)"

definition NewCollectionName :: "CollectionID \<Rightarrow> CollectionName" where
  "NewCollectionName i = i"

definition collectionID :: "CollectionName \<Rightarrow> CollectionID" where
  "collectionID n = last (split_on slash n)"

definition collectionParent :: "CollectionName \<Rightarrow> ResourceName option" where
  "collectionParent n = map_option fst (cut_last slash n)"

definition NewResourceName :: "CollectionName \<Rightarrow> ResourceID \<Rightarrow> ResourceName result" where
  "NewResourceName collection i = Inr (collection @ [slash] @ i)"

definition ParseResourceName :: "string \<Rightarrow> ResourceName result" where
  "ParseResourceName s =
     (case validateCanonicalPath ''resource name'' s of
        Inl err \<Rightarrow> Inl err
      | Inr parts \<Rightarrow>
          if odd (length parts)
          then Inl (invalid ''resource name'' (''must have an even number of segments (e.g. '' @
                 quote ''clusters/prod'' @ '')''))
          else Inr s)"

definition nameCollection :: "ResourceName \<Rightarrow> CollectionName" where
  "nameCollection n = (case cut_last slash n of None \<Rightarrow> '''' | Some (c, _) \<Rightarrow> c)"

definition nameCollectionID :: "ResourceName \<Rightarrow> CollectionID" where
  "nameCollectionID n = collectionID (nameCollection n)"

definition nameID :: "ResourceName \<Rightarrow> ResourceID" where
  "nameID n = (case cut_last slash n of None \<Rightarrow> n | Some (_, i) \<Rightarrow> i)"

section \<open>Full resource names\<close>

definition NewFullResourceName :: "ServiceName \<Rightarrow> ResourceName \<Rightarrow> FullResourceName" where
  "NewFullResourceName service name = ''//'' @ service @ [slash] @ name"

definition fullServiceName :: "FullResourceName \<Rightarrow> ServiceName" where
  "fullServiceName n =
     (let s = trim_prefix ''//'' n
      in case cut_first slash s of None \<Rightarrow> s | Some (service, _) \<Rightarrow> service)"

definition fullRelativeName :: "FullResourceName \<Rightarrow> ResourceName" where
  "fullRelativeName n =
     (let s = trim_prefix ''//'' n
      in case cut_first slash s of None \<Rightarrow> '''' | Some (_, name) \<Rightarrow> name)"

section \<open>Resource types\<close>

text \<open>\<^verbatim>\<open>domain/managed_resource.go\<close>: a type is written \<^verbatim>\<open>{service}/{Type}\<close>.\<close>

type_synonym ResourceType = string

definition validateTypeName :: "string \<Rightarrow> error option" where
  "validateTypeName s =
     (case s of
        [] \<Rightarrow> Some (invalid ''resource type'' ''type name must not be empty'')
      | c # _ \<Rightarrow>
          if \<not> (CHR ''A'' \<le> c \<and> c \<le> CHR ''Z'')
          then Some (invalid ''resource type'' ''type name must start with uppercase letter'')
          else if \<not> list_all (\<lambda>x. CHR ''A'' \<le> x \<and> x \<le> CHR ''Z'' \<or> CHR ''a'' \<le> x \<and> x \<le> CHR ''z'' \<or>
                              CHR ''0'' \<le> x \<and> x \<le> CHR ''9'') s
          then Some (invalid ''resource type'' ''type name must be alphanumeric PascalCase'')
          else None)"

definition NewResourceType :: "ServiceName \<Rightarrow> string \<Rightarrow> ResourceType result" where
  "NewResourceType service typeName =
     (case validateTypeName typeName of
        Some e \<Rightarrow> Inl e
      | None \<Rightarrow> Inr (service @ [slash] @ typeName))"

definition ParseResourceType :: "string \<Rightarrow> ResourceType result" where
  "ParseResourceType s =
     (if s = '''' then Inl (invalid ''resource type'' ''must not be empty'')
      else case split_on slash s of
             [service, typeName] \<Rightarrow>
               if service = '''' \<or> typeName = ''''
               then Inl (invalid ''resource type'' ''must be {ServiceName}/{Type}'')
               else (case validateTypeName typeName of Some e \<Rightarrow> Inl e | None \<Rightarrow> Inr s)
           | _ \<Rightarrow> Inl (invalid ''resource type'' ''must be {ServiceName}/{Type}''))"

definition rtServiceName :: "ResourceType \<Rightarrow> ServiceName" where
  "rtServiceName rt = (case cut_first slash rt of None \<Rightarrow> '''' | Some (service, _) \<Rightarrow> service)"

definition rtTypeName :: "ResourceType \<Rightarrow> string" where
  "rtTypeName rt = (case cut_first slash rt of None \<Rightarrow> '''' | Some (_, typeName) \<Rightarrow> typeName)"

definition rtFullName :: "ResourceType \<Rightarrow> ResourceName \<Rightarrow> FullResourceName" where
  "rtFullName rt name = NewFullResourceName (rtServiceName rt) name"

section \<open>Path segments\<close>

lemma prefix_sep_iff: "prefix [c] s \<longleftrightarrow> (\<exists>t. s = c # t)"
  by (cases s) auto

lemma suffix_sep_iff: "suffix [c] s \<longleftrightarrow> (\<exists>t. s = t @ [c])"
  by (auto simp: suffix_def)

lemma validateCanonicalPath_iff:
  "validateCanonicalPath kind s = Inr parts \<longleftrightarrow>
     parts = split_on slash s \<and> '''' \<notin> set (split_on slash s)"
proof -
  have pre: "'''' \<in> set (split_on slash s)" if "prefix [slash] s"
    using that by (auto simp: prefix_sep_iff)
  have suf: "'''' \<in> set (split_on slash s)" if "suffix [slash] s"
    using that split_on_append [of slash _ "[]"] by (auto simp: suffix_sep_iff)
  show ?thesis
    using pre suf by (auto simp: validateCanonicalPath_def Let_def list_ex_iff)
qed

lemma validateCanonicalPath_error:
  "validateCanonicalPath kind s = Inl e \<Longrightarrow> errorsIs e ErrInvalidArgument"
  by (auto simp: validateCanonicalPath_def Let_def split: if_splits)

lemma ParseCollectionName_iff:
  "ParseCollectionName s = Inr n \<longleftrightarrow>
     n = s \<and> odd (length (split_on slash s)) \<and> '''' \<notin> set (split_on slash s) \<and>
     startsLower (last (split_on slash s))"
proof (cases "validateCanonicalPath ''collection name'' s")
  case (Inl e)
  then have "'''' \<in> set (split_on slash s)"
    using validateCanonicalPath_iff [of "''collection name''" s "split_on slash s"] by auto
  with Inl show ?thesis by (auto simp: ParseCollectionName_def)
next
  case (Inr parts)
  then have "parts = split_on slash s \<and> '''' \<notin> set (split_on slash s)"
    by (simp add: validateCanonicalPath_iff)
  with Inr show ?thesis by (auto simp: ParseCollectionName_def)
qed

lemma NewResourceID_iff: "NewResourceID s = Inr i \<longleftrightarrow> i = s \<and> s \<noteq> '''' \<and> slash \<notin> set s"
  by (auto simp: NewResourceID_def)

lemma ParseResourceName_error:
  "ParseResourceName s = Inl e \<Longrightarrow> errorsIs e ErrInvalidArgument"
  by (auto simp: ParseResourceName_def split: sum.splits if_splits
      dest: validateCanonicalPath_error)

lemma ParseResourceName_iff:
  "ParseResourceName s = Inr n \<longleftrightarrow>
     n = s \<and> even (length (split_on slash s)) \<and> '''' \<notin> set (split_on slash s)"
proof (cases "validateCanonicalPath ''resource name'' s")
  case (Inl e)
  then have "'''' \<in> set (split_on slash s)"
    using validateCanonicalPath_iff [of "''resource name''" s "split_on slash s"] by auto
  with Inl show ?thesis by (auto simp: ParseResourceName_def)
next
  case (Inr parts)
  then have "parts = split_on slash s \<and> '''' \<notin> set (split_on slash s)"
    by (simp add: validateCanonicalPath_iff)
  with Inr show ?thesis by (auto simp: ParseResourceName_def)
qed

section \<open>Properties\<close>

text \<open>
  Composing a resource name from a parsed collection name and a validated resource id gives
  a name that parses, and taking that name apart gives back the collection, the resource id and
  the collection's trailing segment. Conversely every name that parses is the composition of the
  parts it is taken apart into, its resource id is valid, and its collection path has an odd
  number of segments, none of them empty.
\<close>

theorem resource_name_roundtrip:
  "(ParseCollectionName c = Inr c' \<and> NewResourceID i = Inr i' \<longrightarrow>
      (\<exists>n. NewResourceName c' i' = Inr n \<and> ParseResourceName n = Inr n \<and>
           nameCollection n = c \<and> nameID n = i \<and> nameCollectionID n = collectionID c)) \<and>
   (ParseResourceName m = Inr m' \<longrightarrow>
      NewResourceName (nameCollection m) (nameID m) = Inr m' \<and>
      NewResourceID (nameID m) = Inr (nameID m) \<and>
      odd (length (split_on slash (nameCollection m))) \<and>
      '''' \<notin> set (split_on slash (nameCollection m)))"
proof (intro conjI impI)
  assume "ParseCollectionName c = Inr c' \<and> NewResourceID i = Inr i'"
  then have c: "c' = c" "odd (length (split_on slash c))" "'''' \<notin> set (split_on slash c)"
    and i: "i' = i" "i \<noteq> ''''" "slash \<notin> set i"
    by (auto simp: ParseCollectionName_iff NewResourceID_iff)
  let ?n = "c @ slash # i"
  have "split_on slash ?n = split_on slash c @ [i]"
    using i by (simp add: split_on_append split_on_no_sep)
  then have "ParseResourceName ?n = Inr ?n"
    unfolding ParseResourceName_iff using c i by auto
  then show "\<exists>n. NewResourceName c' i' = Inr n \<and> ParseResourceName n = Inr n \<and>
      nameCollection n = c \<and> nameID n = i \<and> nameCollectionID n = collectionID c"
    using c i cut_last_append [of slash i c]
    by (simp add: NewResourceName_def nameCollection_def nameID_def nameCollectionID_def)
next
  assume "ParseResourceName m = Inr m'"
  then have m: "m' = m" "even (length (split_on slash m))" "'''' \<notin> set (split_on slash m)"
    by (auto simp: ParseResourceName_iff)
  have "slash \<in> set m"
    using m(2) split_on_no_sep [of slash m] by force
  then obtain p q where cut: "cut_last slash m = Some (p, q)"
    using cut_last_None [of slash m] by (cases "cut_last slash m") auto
  have mpq: "m = p @ slash # q" "slash \<notin> set q"
    using cut_last_SomeD [OF cut] by auto
  then have seg: "split_on slash m = split_on slash p @ [q]"
    by (simp add: split_on_append split_on_no_sep)
  have parts: "nameCollection m = p" "nameID m = q"
    using cut by (simp_all add: nameCollection_def nameID_def)
  show "NewResourceName (nameCollection m) (nameID m) = Inr m'"
    unfolding parts using mpq(1) m(1) by (simp add: NewResourceName_def)
  show "NewResourceID (nameID m) = Inr (nameID m)"
    unfolding parts using mpq(2) m(3) seg by (auto simp: NewResourceID_iff)
  show "odd (length (split_on slash (nameCollection m)))"
    using m(2) seg by (simp add: parts)
  show "'''' \<notin> set (split_on slash (nameCollection m))"
    using m(3) seg by (simp add: parts)
qed

theorem resource_name_roundtrip_witness:
  "(\<exists>n. NewResourceName ''clusters'' ''prod'' = Inr n \<and> ParseResourceName n = Inr n \<and>
     nameCollection n = ''clusters'' \<and> nameID n = ''prod'' \<and>
     nameCollectionID n = collectionID ''clusters'') \<and>
   NewResourceName (nameCollection ''publishers/123/books/les-mis'')
     (nameID ''publishers/123/books/les-mis'') = Inr ''publishers/123/books/les-mis''"
proof -
  have "ParseCollectionName ''clusters'' = Inr ''clusters''"
    "NewResourceID ''prod'' = Inr ''prod''"
    "ParseResourceName ''publishers/123/books/les-mis'' = Inr ''publishers/123/books/les-mis''"
    by code_simp+
  then show ?thesis
    using resource_name_roundtrip [of "''clusters''" "''clusters''" "''prod''" "''prod''"
        "''publishers/123/books/les-mis''" "''publishers/123/books/les-mis''"] by blast
qed

text \<open>
  A full resource name built from a validated service name can be taken apart again: its
  service segment and its relative name come back unchanged, so distinct pairs of service and
  relative name never produce the same full name.
\<close>

theorem full_name_roundtrip:
  assumes "NewServiceName s = Inr sv"
  shows "fullServiceName (NewFullResourceName sv n) = sv \<and>
         fullRelativeName (NewFullResourceName sv n) = n"
proof -
  from assms have "slash \<notin> set sv"
    by (auto simp: NewServiceName_def split: if_splits)
  then have "cut_first slash (sv @ slash # n) = Some (sv, n)"
    by (rule cut_first_append)
  moreover have "trim_prefix ''//'' (NewFullResourceName sv n) = sv @ slash # n"
    using trim_prefix_append [of "''//''" "sv @ slash # n"] by (simp add: NewFullResourceName_def)
  ultimately show ?thesis
    by (simp add: fullServiceName_def fullRelativeName_def)
qed

theorem full_name_roundtrip_witness:
  "fullServiceName (NewFullResourceName ''kind.fleetshift.io'' ''clusters/prod'')
     = ''kind.fleetshift.io'' \<and>
   fullRelativeName (NewFullResourceName ''kind.fleetshift.io'' ''clusters/prod'')
     = ''clusters/prod''"
  by (rule full_name_roundtrip [of "''kind.fleetshift.io''"]) code_simp

end
