(* ===== verification/FS_Aliases.thy ===== *)
theory FS_Aliases
  imports FS_Names "HOL-Library.Product_Lexorder"
begin

text \<open>
  Aliases and the platform-resource aggregate
  (\<^verbatim>\<open>server/internal/domain/resource_identity.go\<close>, with the snapshot codecs of
  \<^verbatim>\<open>snapshot.go\<close>). An \<^verbatim>\<open>AliasSet\<close> is a slice kept sorted and free of
  duplicate (namespace, key) references; the locale \<open>keyed_collection\<close> states what its
  client relies on, and its interpretation shows that the slice behaves as a finite map in which
  a later entry wins. \<^verbatim>\<open>PlatformResource\<close> is the client.
\<close>

section \<open>Aliases\<close>

record Alias =
  al_namespace :: string
  al_key :: string
  al_value :: string

type_synonym AliasRef = "string \<times> string"
type_synonym AliasSet = "Alias list"

definition NewAlias :: "string \<Rightarrow> string \<Rightarrow> string \<Rightarrow> Alias result" where
  "NewAlias ns key v =
     (if ns = '''' then Inl (invalid ''alias namespace'' ''must not be empty'')
      else if key = '''' then Inl (invalid ''alias key'' ''must not be empty'')
      else if v = '''' then Inl (invalid ''alias value'' ''must not be empty'')
      else Inr \<lparr>al_namespace = ns, al_key = key, al_value = v\<rparr>)"

definition NewAliasRef :: "string \<Rightarrow> string \<Rightarrow> AliasRef result" where
  "NewAliasRef ns key =
     (if ns = '''' then Inl (invalid ''alias namespace'' ''must not be empty'')
      else if key = '''' then Inl (invalid ''alias key'' ''must not be empty'')
      else Inr (ns, key))"

definition aliasRef :: "Alias \<Rightarrow> AliasRef" where
  "aliasRef a = (al_namespace a, al_key a)"

definition aliasLess :: "Alias \<Rightarrow> Alias \<Rightarrow> bool" where
  "aliasLess a b =
     (if al_namespace a \<noteq> al_namespace b then al_namespace a < al_namespace b
      else if al_key a \<noteq> al_key b then al_key a < al_key b
      else al_value a < al_value b)"

definition aliasRank :: "Alias \<Rightarrow> string \<times> string \<times> string" where
  "aliasRank a = (al_namespace a, al_key a, al_value a)"

text \<open>
  \<^verbatim>\<open>NewAliasSet\<close> collects the last alias of each reference in a map, takes the map's
  values in the (unspecified) iteration order and sorts them with \<^verbatim>\<open>aliasLess\<close>.
  References are distinct in the map, so the sorted order does not depend on the iteration
  order (\<open>aliasLess_rank\<close>, \<open>sort_rank_unique\<close>).
\<close>

definition NewAliasSet :: "Alias list \<Rightarrow> AliasSet" where
  "NewAliasSet aliases =
     (if aliases = [] then [] else sort_key aliasRank (keep_last aliasRef aliases))"

definition aliasGet :: "AliasSet \<Rightarrow> AliasRef \<Rightarrow> Alias option" where
  "aliasGet s r = find (\<lambda>a. al_namespace a = fst r \<and> al_key a = snd r) s"

definition aliasMerge :: "AliasSet \<Rightarrow> AliasSet \<Rightarrow> AliasSet" where
  "aliasMerge s upserts =
     (if upserts = [] then s else if s = [] then upserts else NewAliasSet (s @ upserts))"

definition aliasSetEqual :: "AliasSet \<Rightarrow> AliasSet \<Rightarrow> bool" where
  "aliasSetEqual s other =
     (length s = length other \<and> list_all (\<lambda>(a, b). a = b) (zip s other))"

section \<open>Alias sets as finite maps\<close>

definition canonical :: "AliasSet \<Rightarrow> bool" where
  "canonical s = (sorted (map aliasRank s) \<and> distinct (map aliasRef s))"

lemma aliasLess_rank: "aliasLess a b \<longleftrightarrow> aliasRank a < aliasRank b"
  by (auto simp: aliasLess_def aliasRank_def less_prod_def')

lemma aliasRank_inj: "aliasRank a = aliasRank b \<Longrightarrow> a = b"
  by (cases a, cases b) (simp add: aliasRank_def)

lemma distinct_rank: "distinct (map aliasRef s) \<Longrightarrow> distinct (map aliasRank s)"
  by (auto simp: distinct_map aliasRank_def aliasRef_def inj_on_def)

lemma sort_rank_unique:
  assumes "canonical s" "canonical t" "set s = set t"
  shows "s = t"
proof -
  have "map aliasRank s = map aliasRank t"
    using assms distinct_rank by (intro sorted_distinct_set_unique) (auto simp: canonical_def)
  then show ?thesis
    using inj_on_map_eq_map [of aliasRank s t] aliasRank_inj by (auto simp: inj_on_def)
qed

lemma canonical_NewAliasSet: "canonical (NewAliasSet xs)"
proof -
  have "distinct (map aliasRef (sort_key aliasRank (keep_last aliasRef xs)))"
    using distinct_keep_last [of aliasRef xs] by (simp add: distinct_map)
  then show ?thesis by (simp add: canonical_def NewAliasSet_def)
qed

lemma aliasGet_index:
  assumes "distinct (map aliasRef s)"
  shows "aliasGet s r = index_by aliasRef s r"
  using assms
proof (induction s)
  case Nil
  then show ?case by (simp add: aliasGet_def)
next
  case (Cons a s)
  have step: "aliasGet (a # s) r = (if aliasRef a = r then Some a else aliasGet s r)"
    by (auto simp: aliasGet_def aliasRef_def)
  show ?case
  proof (cases "aliasRef a = r")
    case True
    with Cons.prems have "index_by aliasRef s r = None" by (auto simp: index_by_None)
    then show ?thesis using True by (simp add: step index_by_Cons map_add_def)
  next
    case False
    with Cons show ?thesis
      by (auto simp: step index_by_Cons map_add_def split: option.splits)
  qed
qed

lemma aliasGet_NewAliasSet: "aliasGet (NewAliasSet xs) = index_by aliasRef xs"
proof
  fix r
  have "distinct (map aliasRef (NewAliasSet xs))"
    using canonical_NewAliasSet by (simp add: canonical_def)
  then have "aliasGet (NewAliasSet xs) r = index_by aliasRef (NewAliasSet xs) r"
    by (rule aliasGet_index)
  also have "index_by aliasRef (NewAliasSet xs) = index_by aliasRef (keep_last aliasRef xs)"
    using \<open>distinct (map aliasRef (NewAliasSet xs))\<close>
    by (intro index_by_set_eq) (auto simp: NewAliasSet_def)
  finally show "aliasGet (NewAliasSet xs) r = index_by aliasRef xs r" by simp
qed

lemma canonical_ext:
  assumes "canonical s" "canonical t" "aliasGet s = aliasGet t"
  shows "s = t"
proof (rule sort_rank_unique [OF assms(1,2)])
  have dist: "distinct (map aliasRef s)" "distinct (map aliasRef t)"
    using assms by (auto simp: canonical_def)
  have "x \<in> set u \<longleftrightarrow> aliasGet u (aliasRef x) = Some x" if "distinct (map aliasRef u)" for x u
    using that aliasGet_index [OF that] index_by_distinct index_by_SomeD by metis
  with dist assms(3) show "set s = set t" by auto
qed

locale keyed_collection =
  fixes empty :: 's
    and get :: "'s \<Rightarrow> 'r \<Rightarrow> 'a option"
    and merge :: "'s \<Rightarrow> 's \<Rightarrow> 's"
    and single :: "'a \<Rightarrow> 's"
    and ref :: "'a \<Rightarrow> 'r"
    and canon :: "'s \<Rightarrow> bool"
  assumes canon_empty: "canon empty"
    and canon_single: "canon (single a)"
    and canon_merge: "canon s \<Longrightarrow> canon u \<Longrightarrow> canon (merge s u)"
    and get_empty: "get empty = Map.empty"
    and get_single: "get (single a) = [ref a \<mapsto> a]"
    and get_merge: "canon s \<Longrightarrow> canon u \<Longrightarrow> get (merge s u) = get s ++ get u"
    and extensional: "canon s \<Longrightarrow> canon u \<Longrightarrow> get s = get u \<Longrightarrow> s = u"
begin

lemma merge_assoc:
  assumes "canon s" "canon t" "canon u"
  shows "merge (merge s t) u = merge s (merge t u)"
  using assms by (intro extensional) (simp_all add: canon_merge get_merge)

lemma merge_idem: "canon s \<Longrightarrow> merge s s = s"
  by (rule extensional) (auto simp: canon_merge get_merge map_add_def split: option.splits)

lemma merge_empty: "canon s \<Longrightarrow> merge s empty = s" "canon s \<Longrightarrow> merge empty s = s"
  by (auto intro!: extensional simp: canon_empty canon_merge get_merge get_empty)

lemma get_add: "canon s \<Longrightarrow> get (merge s (single a)) = (get s)(ref a \<mapsto> a)"
  by (simp add: canon_single get_merge get_single)

end

lemma aliasGet_merge:
  assumes "canonical s" "canonical u"
  shows "aliasGet (aliasMerge s u) = aliasGet s ++ aliasGet u"
proof -
  have idx: "aliasGet s = index_by aliasRef s" "aliasGet u = index_by aliasRef u"
    using assms aliasGet_index by (auto simp: canonical_def)
  show ?thesis
    by (auto simp: aliasMerge_def aliasGet_NewAliasSet idx index_by_append aliasGet_def)
qed

lemma NewAliasSet_single: "NewAliasSet [a] = [a]"
  by (simp add: NewAliasSet_def)

interpretation alias_set: keyed_collection "[]" aliasGet aliasMerge "\<lambda>a. NewAliasSet [a]"
  aliasRef canonical
proof
  show "canonical []" by (simp add: canonical_def)
  show "canonical (NewAliasSet [a])" for a by (rule canonical_NewAliasSet)
  show "canonical (aliasMerge s u)" if "canonical s" "canonical u" for s u
    using that canonical_NewAliasSet by (simp add: aliasMerge_def)
  show "aliasGet [] = Map.empty" by (auto simp: aliasGet_def)
  show "aliasGet (NewAliasSet [a]) = [aliasRef a \<mapsto> a]" for a
    by (simp add: aliasGet_NewAliasSet index_by_Cons)
  show "aliasGet (aliasMerge s u) = aliasGet s ++ aliasGet u" if "canonical s" "canonical u" for s u
    using that by (rule aliasGet_merge)
  show "s = u" if "canonical s" "canonical u" "aliasGet s = aliasGet u" for s u
    using that by (rule canonical_ext)
qed

lemma aliasSetEqual_eq: "aliasSetEqual s t \<longleftrightarrow> s = t"
  by (auto simp: aliasSetEqual_def list_all_iff list_eq_iff_zip_eq)

text \<open>
  C31: an alias set is a finite map from (namespace, key) to aliases in which the last entry
  wins: building a set and merging two sets give the corresponding map, merging is associative
  and idempotent, and \<^verbatim>\<open>Equal\<close> holds exactly when the two maps are equal.
\<close>

theorem alias_set_refines_map:
  assumes "canonical s" "canonical t" "canonical u"
  shows "aliasGet (NewAliasSet xs) = index_by aliasRef xs \<and>
         aliasGet (aliasMerge s u) = aliasGet s ++ aliasGet u \<and>
         aliasMerge (aliasMerge s t) u = aliasMerge s (aliasMerge t u) \<and>
         aliasMerge s s = s \<and>
         (aliasSetEqual s u \<longleftrightarrow> aliasGet s = aliasGet u) \<and>
         canonical (aliasMerge s u)"
  using assms alias_set.merge_assoc alias_set.merge_idem alias_set.extensional
    alias_set.canon_merge by (auto simp: aliasGet_NewAliasSet aliasGet_merge aliasSetEqual_eq)

theorem alias_set_refines_map_witness:
  "\<exists>s. s = NewAliasSet [\<lparr>al_namespace = ''gcp'', al_key = ''project'', al_value = ''p1''\<rparr>] \<and>
     canonical s \<and> aliasMerge s s = s"
  using alias_set_refines_map [OF canonical_NewAliasSet canonical_NewAliasSet
      canonical_NewAliasSet] canonical_NewAliasSet by blast

section \<open>Snapshots of alias sets\<close>

record AliasSnapshot =
  as_Namespace :: string
  as_Key :: string
  as_Value :: string

definition aliasSnapshot :: "Alias \<Rightarrow> AliasSnapshot" where
  "aliasSnapshot a = \<lparr>as_Namespace = al_namespace a, as_Key = al_key a, as_Value = al_value a\<rparr>"

definition AliasFromSnapshot :: "AliasSnapshot \<Rightarrow> Alias" where
  "AliasFromSnapshot s = \<lparr>al_namespace = as_Namespace s, al_key = as_Key s, al_value = as_Value s\<rparr>"

definition aliasSetSnapshot :: "AliasSet \<Rightarrow> AliasSnapshot list" where
  "aliasSetSnapshot s = (if s = [] then [] else map aliasSnapshot s)"

definition AliasSetFromSnapshot :: "AliasSnapshot list \<Rightarrow> AliasSet" where
  "AliasSetFromSnapshot s = (if s = [] then [] else NewAliasSet (map AliasFromSnapshot s))"

text \<open>
  The decoding half of \<^verbatim>\<open>AliasSet.UnmarshalJSON\<close>: every element goes through
  \<^verbatim>\<open>NewAlias\<close> and the first invalid one is returned as the error.
\<close>

fun parseAliases :: "AliasSnapshot list \<Rightarrow> Alias list result" where
  "parseAliases [] = Inr []"
| "parseAliases (s # ss) =
     (case NewAlias (as_Namespace s) (as_Key s) (as_Value s) of
        Inl e \<Rightarrow> Inl e
      | Inr a \<Rightarrow> (case parseAliases ss of Inl e \<Rightarrow> Inl e | Inr as \<Rightarrow> Inr (a # as)))"

definition aliasSetUnmarshal :: "AliasSnapshot list \<Rightarrow> AliasSet result" where
  "aliasSetUnmarshal snap =
     (case parseAliases snap of Inl e \<Rightarrow> Inl e | Inr aliases \<Rightarrow> Inr (NewAliasSet aliases))"

lemma NewAliasSet_canonical: "canonical s \<Longrightarrow> NewAliasSet s = s"
  using canonical_ext [OF canonical_NewAliasSet, of s s]
  by (simp add: aliasGet_NewAliasSet fun_eq_iff aliasGet_index canonical_def)

lemma alias_snapshot_inverse [codec_simps]: "AliasFromSnapshot (aliasSnapshot a) = a"
  by (simp add: AliasFromSnapshot_def aliasSnapshot_def)

lemma map_alias_snapshot_inverse [codec_simps]:
  "map (AliasFromSnapshot \<circ> aliasSnapshot) s = s"
  by (simp add: codec_simps map_idI)

lemma alias_set_snapshot_inverse [codec_simps]:
  "canonical s \<Longrightarrow> AliasSetFromSnapshot (aliasSetSnapshot s) = s"
  by (simp add: AliasSetFromSnapshot_def aliasSetSnapshot_def codec_simps NewAliasSet_canonical)

definition aliasValid :: "Alias \<Rightarrow> bool" where
  "aliasValid a = (al_namespace a \<noteq> '''' \<and> al_key a \<noteq> '''' \<and> al_value a \<noteq> '''')"

lemma parseAliases_snapshots:
  "list_all aliasValid s \<Longrightarrow> parseAliases (map aliasSnapshot s) = Inr s"
  by (induction s) (auto simp: aliasValid_def aliasSnapshot_def NewAlias_def)

section \<open>Platform resources\<close>

record ResourceRepresentation =
  rp_serviceName :: ServiceName
  rp_version :: APIVersion
  rp_name :: ResourceName
  rp_extensionResourceUID :: string
  rp_createdAt :: go_time
  rp_updatedAt :: go_time

record ResourceRelationship =
  rl_sourceName :: ResourceName
  rl_relType :: RelationshipType
  rl_targetName :: ResourceName
  rl_sourceService :: ServiceName
  rl_createdAt :: go_time

record PlatformResource =
  pr_name :: ResourceName
  pr_labels :: string_map
  pr_createdAt :: go_time
  pr_updatedAt :: go_time
  pr_representations :: "ResourceRepresentation list"
  pr_aliases :: AliasSet
  pr_relationships :: "ResourceRelationship list"

definition NewPlatformResource :: "ResourceName \<Rightarrow> string_map \<Rightarrow> go_time \<Rightarrow> PlatformResource" where
  "NewPlatformResource name labels now =
     \<lparr>pr_name = name, pr_labels = labels, pr_createdAt = now, pr_updatedAt = now,
      pr_representations = [], pr_aliases = [], pr_relationships = []\<rparr>"

definition platformSetLabels :: "string_map \<Rightarrow> go_time \<Rightarrow> PlatformResource \<Rightarrow> PlatformResource" where
  "platformSetLabels labels now r = r\<lparr>pr_labels := labels, pr_updatedAt := now\<rparr>"

definition AddAlias :: "Alias \<Rightarrow> PlatformResource \<Rightarrow> PlatformResource result" where
  "AddAlias alias r =
     (case aliasGet (pr_aliases r) (aliasRef alias) of
        Some existing \<Rightarrow>
          if existing = alias then Inr r
          else Inl (Wrapped
            (''alias '' @ al_namespace existing @ ''/'' @ al_key existing @ '' already has value '' @
             quote (al_value existing) @ '', cannot set '' @ quote (al_value alias) @ '': '')
            (Sentinel ErrInvalidArgument) '''')
      | None \<Rightarrow> Inr (r\<lparr>pr_aliases := aliasMerge (pr_aliases r) (NewAliasSet [alias])\<rparr>))"

definition relKey :: "ResourceRelationship \<Rightarrow> RelationshipType \<times> ResourceName" where
  "relKey r = (rl_relType r, rl_targetName r)"

text \<open>Replace the first relationship with the same type and target, or append.\<close>

fun putRelationship :: "ResourceRelationship \<Rightarrow> ResourceRelationship list \<Rightarrow> ResourceRelationship list" where
  "putRelationship rel [] = [rel]"
| "putRelationship rel (x # xs) =
     (if rl_relType x = rl_relType rel \<and> rl_targetName x = rl_targetName rel
      then rel # xs else x # putRelationship rel xs)"

definition AddRelationship :: "ResourceRelationship \<Rightarrow> PlatformResource \<Rightarrow> PlatformResource result" where
  "AddRelationship rel r =
     (if rl_sourceName rel \<noteq> pr_name r
      then Inl (Wrapped
        (''relationship source name '' @ quote (rl_sourceName rel) @
         '' does not match resource name '' @ quote (pr_name r) @ '': '')
        (Sentinel ErrInvalidArgument) '''')
      else if rl_relType rel = '''' then Inl (invalid ''relationship type'' ''must not be empty'')
      else Inr (r\<lparr>pr_relationships := putRelationship rel (pr_relationships r)\<rparr>))"

record PlatformResourceSnapshot =
  prs_Name :: ResourceName
  prs_Labels :: string_map
  prs_CreatedAt :: go_time
  prs_UpdatedAt :: go_time
  prs_Representations :: "ResourceRepresentation list"
  prs_Aliases :: "(string \<times> string \<times> string \<times> go_time) list"
  prs_Relationships :: "ResourceRelationship list"

definition platformSnapshot :: "PlatformResource \<Rightarrow> PlatformResourceSnapshot" where
  "platformSnapshot r =
     \<lparr>prs_Name = pr_name r, prs_Labels = pr_labels r, prs_CreatedAt = pr_createdAt r,
      prs_UpdatedAt = pr_updatedAt r, prs_Representations = pr_representations r,
      prs_Aliases = map (\<lambda>a. (al_namespace a, al_key a, al_value a, 0)) (pr_aliases r),
      prs_Relationships = pr_relationships r\<rparr>"

definition PlatformResourceFromSnapshot :: "PlatformResourceSnapshot \<Rightarrow> PlatformResource" where
  "PlatformResourceFromSnapshot s =
     \<lparr>pr_name = prs_Name s, pr_labels = prs_Labels s, pr_createdAt = prs_CreatedAt s,
      pr_updatedAt = prs_UpdatedAt s, pr_representations = prs_Representations s,
      pr_aliases = NewAliasSet (map (\<lambda>(n, k, v, _).
        AliasFromSnapshot \<lparr>as_Namespace = n, as_Key = k, as_Value = v\<rparr>) (prs_Aliases s)),
      pr_relationships = prs_Relationships s\<rparr>"

text \<open>The aggregate's invariant: what its methods promise of the aliases and relationships.\<close>

definition platformOK :: "PlatformResource \<Rightarrow> bool" where
  "platformOK r =
     (canonical (pr_aliases r) \<and>
      distinct (map relKey (pr_relationships r)) \<and>
      list_all (\<lambda>rel. rl_sourceName rel = pr_name r \<and> rl_relType rel \<noteq> '''') (pr_relationships r))"

lemma relKeys_putRelationship:
  "relKey ` set (putRelationship rel xs) = insert (relKey rel) (relKey ` set xs)"
  by (induction xs) (auto simp: relKey_def)

lemma set_putRelationship: "set (putRelationship rel xs) \<subseteq> insert rel (set xs)"
  by (induction xs) auto

lemma distinct_putRelationship:
  "distinct (map relKey xs) \<Longrightarrow> distinct (map relKey (putRelationship rel xs))"
proof (induction xs)
  case Nil
  then show ?case by simp
next
  case (Cons x xs)
  then show ?case
    using relKeys_putRelationship [of rel xs] by (auto simp: relKey_def)
qed

lemma AddAlias_cases:
  assumes "canonical (pr_aliases r)" "AddAlias a r = Inr r'"
  shows "aliasGet (pr_aliases r') = (aliasGet (pr_aliases r))(aliasRef a \<mapsto> a)"
    "canonical (pr_aliases r')" "pr_name r' = pr_name r"
    "pr_relationships r' = pr_relationships r"
  using assms alias_set.get_add [OF assms(1), of a] alias_set.canon_merge [OF assms(1) canonical_NewAliasSet]
  by (auto simp: AddAlias_def fun_upd_idem split: option.splits if_splits)

lemma platformOK_New: "platformOK (NewPlatformResource name labels now)"
  by (simp add: platformOK_def NewPlatformResource_def alias_set.canon_empty)

lemma platformOK_SetLabels: "platformOK r \<Longrightarrow> platformOK (platformSetLabels labels now r)"
  by (simp add: platformOK_def platformSetLabels_def)

lemma platformOK_AddAlias:
  assumes "platformOK r" "AddAlias a r = Inr r'"
  shows "platformOK r' \<and> aliasGet (pr_aliases r') = (aliasGet (pr_aliases r))(aliasRef a \<mapsto> a)"
  using assms AddAlias_cases [of r a r'] by (simp add: platformOK_def)

lemma AddAlias_conflict:
  assumes "AddAlias a r = Inl e"
  shows "errorsIs e ErrInvalidArgument \<and>
    (\<exists>b. aliasGet (pr_aliases r) (aliasRef a) = Some b \<and> al_value b \<noteq> al_value a)"
proof -
  from assms obtain b where b: "aliasGet (pr_aliases r) (aliasRef a) = Some b" "b \<noteq> a"
      "errorsIs e ErrInvalidArgument"
    by (auto simp: AddAlias_def split: option.splits if_splits)
  then have "aliasRef b = aliasRef a"
    by (auto simp: aliasGet_def aliasRef_def find_Some_iff)
  with b show ?thesis by (auto simp: aliasRef_def)
qed

lemma platformOK_AddRelationship:
  "platformOK r \<Longrightarrow> AddRelationship rel r = Inr r' \<Longrightarrow> platformOK r'"
  using set_putRelationship [of rel "pr_relationships r"]
  by (auto simp: platformOK_def AddRelationship_def distinct_putRelationship list_all_iff
      split: if_splits)

lemma AddRelationship_error: "AddRelationship rel r = Inl e \<Longrightarrow> errorsIs e ErrInvalidArgument"
  by (auto simp: AddRelationship_def split: if_splits)

text \<open>
  Every method of the platform-resource aggregate keeps its invariant: the aliases stay in
  canonical form with at most one alias per (namespace, key), the relationships have distinct
  (type, target) pairs, all start at this resource and have a type. A successful
  \<^verbatim>\<open>AddAlias\<close> records the alias and changes no other reference; a conflicting value is
  rejected as invalid and changes nothing.
\<close>

theorem platform_resource_invariant:
  assumes "platformOK r"
  shows "platformOK (NewPlatformResource name labels now) \<and>
         platformOK (platformSetLabels labels now r) \<and>
         (case AddAlias a r of
            Inr r' \<Rightarrow> platformOK r' \<and>
              aliasGet (pr_aliases r') = (aliasGet (pr_aliases r))(aliasRef a \<mapsto> a)
          | Inl e \<Rightarrow> errorsIs e ErrInvalidArgument \<and>
              (\<exists>b. aliasGet (pr_aliases r) (aliasRef a) = Some b \<and> al_value b \<noteq> al_value a)) \<and>
         (case AddRelationship rel r of
            Inr r' \<Rightarrow> platformOK r' | Inl e \<Rightarrow> errorsIs e ErrInvalidArgument)"
proof (intro conjI)
  show "platformOK (NewPlatformResource name labels now)" by (rule platformOK_New)
  show "platformOK (platformSetLabels labels now r)" using assms by (rule platformOK_SetLabels)
  show "case AddAlias a r of
      Inr r' \<Rightarrow> platformOK r' \<and>
        aliasGet (pr_aliases r') = (aliasGet (pr_aliases r))(aliasRef a \<mapsto> a)
    | Inl e \<Rightarrow> errorsIs e ErrInvalidArgument \<and>
        (\<exists>b. aliasGet (pr_aliases r) (aliasRef a) = Some b \<and> al_value b \<noteq> al_value a)"
    using platformOK_AddAlias [OF assms] AddAlias_conflict by (simp split: sum.split)
  show "case AddRelationship rel r of
      Inr r' \<Rightarrow> platformOK r' | Inl e \<Rightarrow> errorsIs e ErrInvalidArgument"
    using platformOK_AddRelationship [OF assms] AddRelationship_error by (simp split: sum.split)
qed

theorem platform_resource_invariant_witness:
  "\<exists>r'. AddAlias \<lparr>al_namespace = ''gcp'', al_key = ''id'', al_value = ''p''\<rparr>
       (NewPlatformResource ''clusters/prod'' fmempty 0) = Inr r' \<and> platformOK r'"
proof -
  let ?r = "NewPlatformResource ''clusters/prod'' fmempty 0"
  let ?a = "\<lparr>al_namespace = ''gcp'', al_key = ''id'', al_value = ''p''\<rparr>"
  obtain r' where r': "AddAlias ?a ?r = Inr r'"
    by (simp add: AddAlias_def NewPlatformResource_def aliasGet_def)
  then show ?thesis
    using platform_resource_invariant
      [where r = ?r and a = ?a, OF platformOK_New [of "''clusters/prod''" fmempty 0]] by simp
qed

lemma platform_snapshot_inverse [codec_simps]:
  assumes "canonical (pr_aliases r)"
  shows "PlatformResourceFromSnapshot (platformSnapshot r) = r"
proof -
  have "map (\<lambda>(n, k, v, _). AliasFromSnapshot \<lparr>as_Namespace = n, as_Key = k, as_Value = v\<rparr>)
      (prs_Aliases (platformSnapshot r)) = pr_aliases r"
    by (simp add: platformSnapshot_def AliasFromSnapshot_def comp_def map_idI)
  with assms show ?thesis
    by (simp add: PlatformResourceFromSnapshot_def NewAliasSet_canonical)
       (simp add: platformSnapshot_def)
qed

end
