(* ===== verification/FS_Targets.thy ===== *)
theory FS_Targets
  imports FS_Names "HOL-Library.Multiset"
begin

text \<open>
  Targets, manifests and the three strategies that decide where and in which order a
  fulfillment is delivered (\<^verbatim>\<open>server/internal/domain/target.go\<close>,
  \<^verbatim>\<open>manifest.go\<close>, \<^verbatim>\<open>placement.go\<close>, \<^verbatim>\<open>rollout.go\<close>,
  \<^verbatim>\<open>strategy_spec.go\<close>, \<^verbatim>\<open>strategy_factory.go\<close> and the delta computation of
  \<^verbatim>\<open>orchestration.go\<close>). The properties: placement selects only ready targets of the
  pool, the delta partitions the previous and the new target set, and the immediate rollout
  removes exactly the targets that left and delivers exactly to the targets that are resolved.
\<close>

section \<open>Manifests and targets\<close>

record Manifest =
  mf_type :: ManifestType
  mf_id :: string
  mf_raw :: bytes

type_synonym TargetState = string

definition TargetStateReady :: TargetState where
  "TargetStateReady = ''ready''"

record TargetInfo =
  ti_id :: TargetID
  ti_inventoryItemID :: string
  ti_targetType :: TargetType
  ti_name :: string
  ti_state :: TargetState
  ti_labels :: string_map
  ti_properties :: string_map
  ti_acceptedManifestTypes :: "ManifestType list"

definition NewTargetInfo ::
  "TargetID \<Rightarrow> TargetType \<Rightarrow> string \<Rightarrow> TargetState \<Rightarrow> string_map \<Rightarrow> string_map \<Rightarrow>
   ManifestType list \<Rightarrow> TargetInfo" where
  "NewTargetInfo i ty name st labels props amt =
     \<lparr>ti_id = i, ti_inventoryItemID = ''target:'' @ i, ti_targetType = ty, ti_name = name,
      ti_state = st, ti_labels = labels, ti_properties = props, ti_acceptedManifestTypes = amt\<rparr>"

record TargetInfoSnapshot =
  tis_ID :: TargetID
  tis_InventoryItemID :: string
  tis_Type :: TargetType
  tis_Name :: string
  tis_State :: TargetState
  tis_Labels :: string_map
  tis_Properties :: string_map
  tis_AcceptedManifestTypes :: "ManifestType list"

definition targetSnapshot :: "TargetInfo \<Rightarrow> TargetInfoSnapshot" where
  "targetSnapshot t =
     \<lparr>tis_ID = ti_id t, tis_InventoryItemID = ti_inventoryItemID t, tis_Type = ti_targetType t,
      tis_Name = ti_name t, tis_State = ti_state t, tis_Labels = ti_labels t,
      tis_Properties = ti_properties t, tis_AcceptedManifestTypes = ti_acceptedManifestTypes t\<rparr>"

definition TargetInfoFromSnapshot :: "TargetInfoSnapshot \<Rightarrow> TargetInfo" where
  "TargetInfoFromSnapshot s =
     \<lparr>ti_id = tis_ID s, ti_inventoryItemID = tis_InventoryItemID s, ti_targetType = tis_Type s,
      ti_name = tis_Name s, ti_state = tis_State s, ti_labels = tis_Labels s,
      ti_properties = tis_Properties s, ti_acceptedManifestTypes = tis_AcceptedManifestTypes s\<rparr>"

text \<open>\<^verbatim>\<open>TargetInfoFromSnapshot(TargetInfoSnapshot{ID: id})\<close>: all other fields zero.\<close>

definition bareTarget :: "TargetID \<Rightarrow> TargetInfo" where
  "bareTarget i = TargetInfoFromSnapshot
     \<lparr>tis_ID = i, tis_InventoryItemID = '''', tis_Type = '''', tis_Name = '''', tis_State = '''',
      tis_Labels = fmempty, tis_Properties = fmempty, tis_AcceptedManifestTypes = []\<rparr>"

definition FilterAcceptedManifests :: "TargetInfo \<Rightarrow> Manifest list \<Rightarrow> Manifest list" where
  "FilterAcceptedManifests target manifests =
     (if ti_acceptedManifestTypes target = [] then manifests
      else filter (\<lambda>m. mf_type m \<in> set (ti_acceptedManifestTypes target)) manifests)"

definition manifestTypesEqual :: "ManifestType list \<Rightarrow> ManifestType list \<Rightarrow> bool" where
  "manifestTypesEqual a b = (if a = [] \<and> b = [] then True else a = b)"

definition mapsEqualOrBothEmpty :: "string_map \<Rightarrow> string_map \<Rightarrow> bool" where
  "mapsEqualOrBothEmpty a b = (if a = fmempty \<and> b = fmempty then True else a = b)"

definition drift :: "TargetInfo \<Rightarrow> string \<Rightarrow> error" where
  "drift expected what =
     Wrapped '''' (Sentinel ErrInvalidArgument) ('': target '' @ quote (ti_id expected) @ what)"

definition VerifyTargetMatch :: "TargetInfo \<Rightarrow> TargetInfo \<Rightarrow> error option" where
  "VerifyTargetMatch expected existing =
     (if ti_targetType existing \<noteq> ti_targetType expected then Some (drift expected '' type drift'')
      else if ti_name existing \<noteq> ti_name expected then Some (drift expected '' name collision'')
      else if ti_state existing \<noteq> ti_state expected then Some (drift expected '' state drift'')
      else if \<not> manifestTypesEqual (ti_acceptedManifestTypes existing) (ti_acceptedManifestTypes expected)
        then Some (drift expected '' accepted manifest types drift'')
      else if \<not> mapsEqualOrBothEmpty (ti_properties existing) (ti_properties expected)
        then Some (drift expected '' properties drift'')
      else if \<not> mapsEqualOrBothEmpty (ti_labels existing) (ti_labels expected)
        then Some (drift expected '' labels drift'')
      else None)"

section \<open>The placement view\<close>

record PlacementTarget =
  pt_ID :: TargetID
  pt_Type :: TargetType
  pt_Name :: string
  pt_State :: TargetState
  pt_Labels :: string_map
  pt_AcceptedManifestTypes :: "ManifestType list"

definition ToPlacementTarget :: "TargetInfo \<Rightarrow> PlacementTarget" where
  "ToPlacementTarget t =
     \<lparr>pt_ID = ti_id t, pt_Type = ti_targetType t, pt_Name = ti_name t, pt_State = ti_state t,
      pt_Labels = ti_labels t, pt_AcceptedManifestTypes = ti_acceptedManifestTypes t\<rparr>"

fun PlacementTargets :: "TargetInfo list \<Rightarrow> PlacementTarget list" where
  "PlacementTargets [] = []"
| "PlacementTargets (t # ts) =
     (if ti_state t \<noteq> TargetStateReady \<and> ti_state t \<noteq> '''' then PlacementTargets ts
      else ToPlacementTarget t # PlacementTargets ts)"

definition ResolvedTargetInfos :: "PlacementTarget list \<Rightarrow> TargetInfo list \<Rightarrow> TargetInfo list" where
  "ResolvedTargetInfos resolved pool = pick_all (index_by ti_id pool) (map pt_ID resolved)"

definition targetInfosByID :: "TargetID list \<Rightarrow> TargetInfo list \<Rightarrow> TargetInfo list" where
  "targetInfosByID ids pool = pick_all (index_by ti_id pool) ids"

section \<open>Placement strategies\<close>

text \<open>\<^verbatim>\<open>labels[k]\<close> of a missing key is Go's zero value, the empty string.\<close>

definition matchLabels :: "string_map \<Rightarrow> string_map \<Rightarrow> bool" where
  "matchLabels labels selector =
     fBall (fmdom selector) (\<lambda>k.
       (case fmlookup labels k of None \<Rightarrow> '''' | Some x \<Rightarrow> x) =
       (case fmlookup selector k of None \<Rightarrow> '''' | Some v \<Rightarrow> v))"

record PlacementStrategySpec =
  ps_Type :: string
  ps_Targets :: "TargetID list"
  ps_TargetSelector :: "string_map option"

datatype PlacementStrategy =
    StaticPlacement "TargetID list"
  | AllPlacement
  | SelectorPlacement string_map

definition factoryPlacementStrategy :: "PlacementStrategySpec \<Rightarrow> PlacementStrategy result" where
  "factoryPlacementStrategy spec =
     (if ps_Type spec = ''static'' then Inr (StaticPlacement (ps_Targets spec))
      else if ps_Type spec = ''all'' then Inr AllPlacement
      else if ps_Type spec = ''selector'' then
        (case ps_TargetSelector spec of
           None \<Rightarrow> Inl (Wrapped '''' (Sentinel ErrInvalidArgument)
                    '': selector placement requires a target selector'')
         | Some sel \<Rightarrow> Inr (SelectorPlacement sel))
      else Inl (Wrapped '''' (Sentinel ErrInvalidArgument)
             ('': unsupported placement strategy type '' @ quote (ps_Type spec))))"

fun resolveStatic :: "(TargetID \<Rightarrow> PlacementTarget option) \<Rightarrow> TargetID list \<Rightarrow> PlacementTarget list result" where
  "resolveStatic index [] = Inr []"
| "resolveStatic index (i # ids) =
     (case index i of
        None \<Rightarrow> Inl (Wrapped '''' (Sentinel ErrNotFound)
                 ('': target '' @ quote i @ '' not found in pool''))
      | Some t \<Rightarrow>
          (case resolveStatic index ids of Inl e \<Rightarrow> Inl e | Inr result \<Rightarrow> Inr (t # result)))"

fun placementResolve :: "PlacementStrategy \<Rightarrow> PlacementTarget list \<Rightarrow> PlacementTarget list result" where
  "placementResolve (StaticPlacement ids) pool = resolveStatic (index_by pt_ID pool) ids"
| "placementResolve AllPlacement pool = Inr pool"
| "placementResolve (SelectorPlacement sel) pool = Inr (filter (\<lambda>t. matchLabels (pt_Labels t) sel) pool)"

text \<open>The body of the \<^verbatim>\<open>resolve-placement\<close> activity.\<close>

definition resolvePlacement :: "PlacementStrategySpec \<Rightarrow> PlacementTarget list \<Rightarrow> PlacementTarget list result" where
  "resolvePlacement spec pool =
     (case factoryPlacementStrategy spec of Inl e \<Rightarrow> Inl e | Inr p \<Rightarrow> placementResolve p pool)"

section \<open>Deltas and rollout\<close>

record TargetDelta =
  td_Added :: "TargetInfo list"
  td_Removed :: "TargetInfo list"
  td_Unchanged :: "TargetInfo list"

definition ComputeTargetDelta :: "TargetID list \<Rightarrow> TargetInfo list \<Rightarrow> TargetInfo list \<Rightarrow> TargetDelta" where
  "ComputeTargetDelta previousIDs resolved pool =
     (let resolvedSet = map ti_id resolved;
          poolIndex = index_by ti_id pool
      in \<lparr>td_Added = filter (\<lambda>t. ti_id t \<notin> set previousIDs) resolved,
          td_Removed =
            map (\<lambda>i. case poolIndex i of Some t \<Rightarrow> t | None \<Rightarrow> bareTarget i)
              (filter (\<lambda>i. i \<notin> set resolvedSet) previousIDs),
          td_Unchanged = filter (\<lambda>t. ti_id t \<in> set previousIDs) resolved\<rparr>)"

record RolloutStrategySpec =
  ro_Type :: string
  ro_VersionConflictPolicy :: string

definition VersionConflictRestart :: string where
  "VersionConflictRestart = ''restart''"

definition EffectiveVersionConflictPolicy :: "RolloutStrategySpec option \<Rightarrow> string" where
  "EffectiveVersionConflictPolicy s =
     (case s of
        None \<Rightarrow> VersionConflictRestart
      | Some spec \<Rightarrow>
          if ro_VersionConflictPolicy spec = '''' then VersionConflictRestart
          else ro_VersionConflictPolicy spec)"

text \<open>At most one of the two fields of a step is non-nil.\<close>

record RolloutStep =
  st_Remove :: "TargetInfo list option"
  st_Deliver :: "TargetInfo list option"

type_synonym RolloutPlan = "RolloutStep list"

definition ImmediateRolloutPlan :: "TargetDelta \<Rightarrow> RolloutPlan" where
  "ImmediateRolloutPlan delta =
     (if td_Removed delta \<noteq> []
      then [\<lparr>st_Remove = Some (td_Removed delta), st_Deliver = None\<rparr>] else []) @
     (let deliverTargets = td_Added delta @ td_Unchanged delta
      in if deliverTargets \<noteq> []
         then [\<lparr>st_Remove = None, st_Deliver = Some deliverTargets\<rparr>] else [])"

datatype RolloutStrategy = ImmediateRollout

definition factoryRolloutStrategy :: "RolloutStrategySpec option \<Rightarrow> RolloutStrategy" where
  "factoryRolloutStrategy spec =
     (case spec of
        None \<Rightarrow> ImmediateRollout
      | Some s \<Rightarrow> if ro_Type s = ''immediate'' then ImmediateRollout else ImmediateRollout)"

fun rolloutPlan :: "RolloutStrategy \<Rightarrow> TargetDelta \<Rightarrow> RolloutPlan" where
  "rolloutPlan ImmediateRollout delta = ImmediateRolloutPlan delta"

text \<open>The body of the \<^verbatim>\<open>plan-rollout\<close> activity.\<close>

definition planRollout :: "RolloutStrategySpec option \<Rightarrow> TargetDelta \<Rightarrow> RolloutPlan" where
  "planRollout spec delta = rolloutPlan (factoryRolloutStrategy spec) delta"

definition removedBy :: "RolloutPlan \<Rightarrow> TargetInfo list" where
  "removedBy plan = concat (map (\<lambda>s. case st_Remove s of None \<Rightarrow> [] | Some ts \<Rightarrow> ts) plan)"

definition deliveredBy :: "RolloutPlan \<Rightarrow> TargetInfo list" where
  "deliveredBy plan = concat (map (\<lambda>s. case st_Deliver s of None \<Rightarrow> [] | Some ts \<Rightarrow> ts) plan)"

section \<open>Lemmas\<close>

lemma PlacementTargets_eq:
  "PlacementTargets pool = map ToPlacementTarget (filter (\<lambda>t. ti_state t \<in> {TargetStateReady, ''''}) pool)"
  by (induction pool) auto

lemma target_snapshot_inverse [codec_simps]: "TargetInfoFromSnapshot (targetSnapshot t) = t"
  by (simp add: TargetInfoFromSnapshot_def targetSnapshot_def)

lemma bareTarget_id [simp]: "ti_id (bareTarget i) = i"
  by (simp add: bareTarget_def TargetInfoFromSnapshot_def)

lemma resolveStatic_Inr:
  "resolveStatic index ids = Inr ts \<Longrightarrow> map index ids = map Some ts"
  by (induction ids arbitrary: ts) (auto split: option.splits sum.splits)

lemma resolveStatic_Inl:
  "resolveStatic index ids = Inl e \<Longrightarrow> errorsIs e ErrNotFound \<and> (\<exists>i \<in> set ids. index i = None)"
  by (induction ids) (auto split: option.splits sum.splits)

lemma placementResolve_subset:
  assumes "placementResolve p pool = Inr ts"
  shows "set ts \<subseteq> set pool"
proof (cases p)
  case (StaticPlacement ids)
  with assms have "map (index_by pt_ID pool) ids = map Some ts"
    by (auto dest: resolveStatic_Inr)
  then have "\<exists>i. index_by pt_ID pool i = Some t" if "t \<in> set ts" for t
    using that by (metis image_iff list.set_map)
  then show ?thesis by (auto dest: index_by_SomeD)
qed (use assms in auto)

lemma removed_ids [simp]:
  "map ti_id (td_Removed (ComputeTargetDelta prev resolved pool)) =
     filter (\<lambda>i. i \<notin> ti_id ` set resolved) prev"
proof -
  have "ti_id (case index_by ti_id pool i of Some t \<Rightarrow> t | None \<Rightarrow> bareTarget i) = i" for i
    by (auto split: option.splits dest: index_by_SomeD)
  then show ?thesis by (simp add: ComputeTargetDelta_def Let_def comp_def)
qed

lemma ImmediateRolloutPlan_parts:
  "removedBy (ImmediateRolloutPlan d) = td_Removed d"
  "deliveredBy (ImmediateRolloutPlan d) = td_Added d @ td_Unchanged d"
  by (auto simp: removedBy_def deliveredBy_def ImmediateRolloutPlan_def Let_def)

lemma VerifyTargetMatch_None:
  "VerifyTargetMatch a b = None \<longleftrightarrow>
     ti_targetType b = ti_targetType a \<and> ti_name b = ti_name a \<and> ti_state b = ti_state a \<and>
     ti_acceptedManifestTypes b = ti_acceptedManifestTypes a \<and>
     ti_properties b = ti_properties a \<and> ti_labels b = ti_labels a"
  by (auto simp: VerifyTargetMatch_def manifestTypesEqual_def mapsEqualOrBothEmpty_def)

lemma VerifyTargetMatch_error: "VerifyTargetMatch a b = Some e \<Longrightarrow> errorsIs e ErrInvalidArgument"
  by (auto simp: VerifyTargetMatch_def drift_def split: if_splits)

lemma matchLabels_iff:
  "matchLabels labels sel \<longleftrightarrow>
     (\<forall>k v. fmlookup sel k = Some v \<longrightarrow>
        (case fmlookup labels k of None \<Rightarrow> '''' | Some x \<Rightarrow> x) = v)"
proof
  assume m: "matchLabels labels sel"
  show "\<forall>k v. fmlookup sel k = Some v \<longrightarrow>
      (case fmlookup labels k of None \<Rightarrow> '''' | Some x \<Rightarrow> x) = v"
  proof (intro allI impI)
    fix k v assume v: "fmlookup sel k = Some v"
    then have "k |\<in>| fmdom sel" by (rule fmdomI)
    with m v show "(case fmlookup labels k of None \<Rightarrow> '''' | Some x \<Rightarrow> x) = v"
      unfolding matchLabels_def by fastforce
  qed
next
  assume r: "\<forall>k v. fmlookup sel k = Some v \<longrightarrow>
      (case fmlookup labels k of None \<Rightarrow> '''' | Some x \<Rightarrow> x) = v"
  show "matchLabels labels sel"
    unfolding matchLabels_def
  proof (rule fBallI)
    fix k assume "k |\<in>| fmdom sel"
    then obtain v where v: "fmlookup sel k = Some v" by (rule fmdomE)
    with r have "(case fmlookup labels k of None \<Rightarrow> '''' | Some x \<Rightarrow> x) = v" by blast
    with v show "(case fmlookup labels k of None \<Rightarrow> '''' | Some x \<Rightarrow> x) =
        (case fmlookup sel k of None \<Rightarrow> '''' | Some v \<Rightarrow> v)" by simp
  qed
qed

lemma ResolvedTargetInfos_ids:
  assumes "\<And>t. t \<in> set resolved \<Longrightarrow> pt_ID t \<in> ti_id ` set pool"
  shows "map ti_id (ResolvedTargetInfos resolved pool) = map pt_ID resolved"
  unfolding ResolvedTargetInfos_def
proof (rule pick_all_total)
  fix k assume "k \<in> set (map pt_ID resolved)"
  with assms have "k \<in> ti_id ` set pool" by auto
  then obtain t where "index_by ti_id pool k = Some t"
    using index_by_None [of ti_id pool k] by auto
  then show "\<exists>x. index_by ti_id pool k = Some x \<and> ti_id x = k"
    by (auto dest: index_by_SomeD)
qed

lemma resolvePlacement_pool:
  "resolvePlacement spec view = Inr ts \<Longrightarrow> set ts \<subseteq> set view"
  by (auto simp: resolvePlacement_def split: sum.splits dest!: placementResolve_subset)

section \<open>Properties\<close>

text \<open>
  Whatever the placement strategy, a target it selects is a target of the pool in state
  ready (or with no state recorded), and mapping the selection back to full target records keeps
  every selected target in the strategy's order.
\<close>

theorem placement_selects_ready_targets:
  assumes "resolvePlacement spec (PlacementTargets pool) = Inr ts"
  shows "set ts \<subseteq> ToPlacementTarget ` {i \<in> set pool. ti_state i = TargetStateReady \<or> ti_state i = ''''} \<and>
         map ti_id (ResolvedTargetInfos ts pool) = map pt_ID ts"
proof -
  have sub: "set ts \<subseteq> ToPlacementTarget ` {i \<in> set pool. ti_state i = TargetStateReady \<or> ti_state i = ''''}"
    using resolvePlacement_pool [OF assms] by (auto simp: PlacementTargets_eq)
  then have "pt_ID t \<in> ti_id ` set pool" if "t \<in> set ts" for t
    using that by (auto simp: ToPlacementTarget_def)
  with sub show ?thesis by (simp add: ResolvedTargetInfos_ids)
qed

theorem placement_selects_ready_targets_witness:
  "map ti_id (ResolvedTargetInfos (PlacementTargets [bareTarget ''a'', bareTarget ''b''])
     [bareTarget ''a'', bareTarget ''b'']) = [''a'', ''b'']"
proof -
  have "resolvePlacement \<lparr>ps_Type = ''all'', ps_Targets = [], ps_TargetSelector = None\<rparr>
      (PlacementTargets [bareTarget ''a'', bareTarget ''b'']) =
      Inr (PlacementTargets [bareTarget ''a'', bareTarget ''b''])"
    by (simp add: resolvePlacement_def factoryPlacementStrategy_def)
  from placement_selects_ready_targets [OF this] show ?thesis
    by (simp add: bareTarget_def TargetInfoFromSnapshot_def ToPlacementTarget_def)
qed

text \<open>
  static placement is exact. It succeeds only if every requested target is a ready target of
  the pool, and then returns the requested targets in the requested order; otherwise it fails
  with \<^verbatim>\<open>ErrNotFound\<close> and selects nothing.
\<close>

theorem static_placement_exact:
  assumes "ps_Type spec = ''static''"
  shows "case resolvePlacement spec (PlacementTargets pool) of
           Inr ts \<Rightarrow> map pt_ID ts = ps_Targets spec \<and>
             set (ps_Targets spec) \<subseteq> pt_ID ` set (PlacementTargets pool)
         | Inl e \<Rightarrow> errorsIs e ErrNotFound \<and>
             \<not> set (ps_Targets spec) \<subseteq> pt_ID ` set (PlacementTargets pool)"
proof -
  let ?idx = "index_by pt_ID (PlacementTargets pool)"
  have res: "resolvePlacement spec (PlacementTargets pool) = resolveStatic ?idx (ps_Targets spec)"
    using assms by (simp add: resolvePlacement_def factoryPlacementStrategy_def)
  show ?thesis
  proof (cases "resolveStatic ?idx (ps_Targets spec)")
    case (Inl e)
    from resolveStatic_Inl [OF Inl] obtain i where "i \<in> set (ps_Targets spec)" "?idx i = None"
      and "errorsIs e ErrNotFound" by blast
    then show ?thesis using Inl by (auto simp: res index_by_None)
  next
    case (Inr ts)
    have idx: "map ?idx (ps_Targets spec) = map Some ts"
      by (rule resolveStatic_Inr [OF Inr])
    then have len: "length ts = length (ps_Targets spec)"
      by (metis length_map)
    have nth: "?idx (ps_Targets spec ! k) = Some (ts ! k)" if "k < length ts" for k
      using idx that len by (metis nth_map)
    have ids: "map pt_ID ts = ps_Targets spec"
    proof (rule nth_equalityI)
      show "length (map pt_ID ts) = length (ps_Targets spec)" using len by simp
      fix k assume "k < length (map pt_ID ts)"
      then show "map pt_ID ts ! k = ps_Targets spec ! k"
        using index_by_SomeD [OF nth [of k]] by simp
    qed
    have "t \<in> set (PlacementTargets pool)" if t: "t \<in> set ts" for t
    proof -
      obtain k where "k < length ts" "ts ! k = t" using t by (auto simp: in_set_conv_nth)
      then show ?thesis using index_by_SomeD [OF nth [of k]] by simp
    qed
    then have "set (ps_Targets spec) \<subseteq> pt_ID ` set (PlacementTargets pool)"
      unfolding ids [symmetric] by auto
    with ids show ?thesis using Inr by (simp add: res)
  qed
qed

theorem static_placement_exact_witness:
  "\<exists>e. resolvePlacement \<lparr>ps_Type = ''static'', ps_Targets = [''b''], ps_TargetSelector = None\<rparr>
     (PlacementTargets [bareTarget ''a'']) = Inl e \<and> errorsIs e ErrNotFound"
proof -
  let ?spec = "\<lparr>ps_Type = ''static'', ps_Targets = [''b''], ps_TargetSelector = None\<rparr>"
  have "\<not> set (ps_Targets ?spec) \<subseteq> pt_ID ` set (PlacementTargets [bareTarget ''a''])"
    by (simp add: bareTarget_def TargetInfoFromSnapshot_def ToPlacementTarget_def)
  then show ?thesis
    using static_placement_exact [of ?spec "[bareTarget ''a'']"] by (auto split: sum.splits)
qed

text \<open>
  What label selection means. A selector entry matches a target when the target carries the
  label with that value, and also when the selector asks for the empty value and the target does
  not carry the label at all: presence of the label is not checked.
\<close>

theorem selector_matches_missing_label_as_empty:
  "(matchLabels labels sel \<longleftrightarrow>
      (\<forall>k v. fmlookup sel k = Some v \<longrightarrow>
         fmlookup labels k = Some v \<or> v = '''' \<and> fmlookup labels k = None)) \<and>
   matchLabels fmempty (fmupd key '''' fmempty)"
proof
  have "((case fmlookup labels k of None \<Rightarrow> '''' | Some x \<Rightarrow> x) = v) \<longleftrightarrow>
      (fmlookup labels k = Some v \<or> v = '''' \<and> fmlookup labels k = None)" for k v
    by (cases "fmlookup labels k") auto
  then show "matchLabels labels sel \<longleftrightarrow>
      (\<forall>k v. fmlookup sel k = Some v \<longrightarrow>
         fmlookup labels k = Some v \<or> v = '''' \<and> fmlookup labels k = None)"
    by (simp only: matchLabels_iff)
  show "matchLabels fmempty (fmupd key '''' fmempty)"
    by (simp add: matchLabels_iff)
qed

theorem selector_matches_missing_label_as_empty_witness:
  "matchLabels fmempty (fmupd ''env'' '''' fmempty) \<and>
   \<not> matchLabels fmempty (fmupd ''env'' ''prod'' fmempty)"
  using selector_matches_missing_label_as_empty [of fmempty "fmupd ''env'' ''prod'' fmempty" "''env''"]
  by (auto split: if_splits)

text \<open>
  The target delta and the immediate rollout together do exactly the necessary work. The plan
  removes exactly the previously resolved targets that are no longer resolved, delivers to every
  resolved target exactly as often as it was resolved, never removes and delivers the same
  target, and every removal comes before every delivery; each step is either a removal or a
  delivery.
\<close>

theorem rollout_plan_exact:
  "let plan = planRollout spec (ComputeTargetDelta prev resolved pool)
   in map ti_id (removedBy plan) = filter (\<lambda>i. i \<notin> ti_id ` set resolved) prev \<and>
      mset (deliveredBy plan) = mset resolved \<and>
      ti_id ` set (removedBy plan) \<inter> ti_id ` set (deliveredBy plan) = {} \<and>
      list_all (\<lambda>s. (st_Remove s = None) \<noteq> (st_Deliver s = None)) plan \<and>
      sorted_wrt (\<lambda>s t. st_Deliver s = None \<and> st_Remove t = None) plan"
proof -
  let ?d = "ComputeTargetDelta prev resolved pool"
  define plan where "plan = planRollout spec ?d"
  have plan: "plan = ImmediateRolloutPlan ?d"
    by (auto simp: plan_def planRollout_def factoryRolloutStrategy_def split: option.splits)
  have rem: "map ti_id (removedBy plan) = filter (\<lambda>i. i \<notin> ti_id ` set resolved) prev"
    by (simp add: plan ImmediateRolloutPlan_parts)
  have del: "mset (deliveredBy plan) = mset resolved"
    by (simp add: plan ImmediateRolloutPlan_parts ComputeTargetDelta_def Let_def union_filter_mset_complement)
  have "set (deliveredBy plan) = set resolved"
    using del by (metis set_mset_mset)
  moreover have "ti_id ` set (removedBy plan) = set (map ti_id (removedBy plan))"
    by simp
  ultimately have "ti_id ` set (removedBy plan) \<inter> ti_id ` set (deliveredBy plan) = {}"
    using rem by auto
  moreover have "list_all (\<lambda>s. (st_Remove s = None) \<noteq> (st_Deliver s = None)) plan"
    "sorted_wrt (\<lambda>s t. st_Deliver s = None \<and> st_Remove t = None) plan"
    by (simp_all add: plan ImmediateRolloutPlan_def Let_def)
  ultimately show ?thesis
    using rem del unfolding plan_def [symmetric] Let_def by blast
qed

end
