(* ===== verification/FS_Provenance.thy ===== *)
theory FS_Provenance
  imports FS_Targets
begin

text \<open>
  Credentials, provenance and attestations as data
  (\<^verbatim>\<open>server/internal/domain/authn.go\<close>, \<^verbatim>\<open>attestation.go\<close>,
  \<^verbatim>\<open>fulfillment_relation.go\<close>, \<^verbatim>\<open>managed_resource.go\<close>,
  \<^verbatim>\<open>strategy_spec.go\<close>): what a user signs, how it is stored with a fulfillment, the
  bundle sent to a delivery agent, and the wire forms with their discriminator fields. The
  properties are the round trips of the wire forms and what the self-target relation derives.
\<close>

section \<open>Identity and credentials\<close>

type_synonym SubjectID = string
type_synonym IssuerURL = string
type_synonym Audience = string
type_synonym RawToken = string
type_synonym KeyRegistryID = string
type_synonym RegistrySubject = string
type_synonym ExtensionResourceUID = string
type_synonym DeploymentUID = string
type_synonym IntentVersion = int
type_synonym StrategyVersion = int

record FederatedIdentity =
  fi_Subject :: SubjectID
  fi_Issuer :: IssuerURL

record SubjectClaims =
  sc_Identity :: FederatedIdentity
  sc_Extra :: "(string, string list) fmap"

record DeliveryAuth =
  da_Caller :: "SubjectClaims option"
  da_Audience :: "Audience list"
  da_Token :: RawToken

text \<open>The zero value of the struct.\<close>

definition zeroAuth :: DeliveryAuth where
  "zeroAuth = \<lparr>da_Caller = None, da_Audience = [], da_Token = ''''\<rparr>"

record SignerEnrollment =
  en_id :: string
  en_federatedIdentity :: FederatedIdentity
  en_identityToken :: RawToken
  en_registrySubject :: RegistrySubject
  en_registryID :: KeyRegistryID
  en_createdAt :: go_time
  en_expiresAt :: go_time

record RegistrySubjectMapping =
  rm_RegistryID :: KeyRegistryID
  rm_Expression :: string

record OIDCConfig =
  oi_IssuerURL :: IssuerURL
  oi_Audience :: Audience
  oi_JWKSURI :: string
  oi_AuthorizationEndpoint :: string
  oi_TokenEndpoint :: string
  oi_KeyEnrollmentAudience :: Audience
  oi_PublicKeyClaimExpression :: string
  oi_RegistrySubjectMapping :: "RegistrySubjectMapping option"

record AuthMethod =
  am_id :: string
  am_authType :: string
  am_oidcConfig :: "OIDCConfig option"

section \<open>Strategies\<close>

record IntentRef =
  ir_ExtensionResourceUID :: ExtensionResourceUID
  ir_Version :: IntentVersion
  ir_ManifestType :: ManifestType

record ManifestStrategySpec =
  ms_Type :: string
  ms_Manifests :: "Manifest list"
  ms_IntentRef :: IntentRef

definition ManifestStrategyInline :: string where
  "ManifestStrategyInline = ''inline''"

definition ManifestStrategyManagedResource :: string where
  "ManifestStrategyManagedResource = ''managed_resource''"

definition noIntentRef :: IntentRef where
  "noIntentRef = \<lparr>ir_ExtensionResourceUID = '''', ir_Version = 0, ir_ManifestType = ''''\<rparr>"

record ResourceIntent =
  ri_ExtensionResourceUID :: ExtensionResourceUID
  ri_Version :: IntentVersion
  ri_Spec :: bytes
  ri_CreatedAt :: go_time

section \<open>What a user signs\<close>

record Signature =
  sg_Signer :: FederatedIdentity
  sg_ContentHash :: bytes
  sg_SignatureBytes :: bytes

record OutputConstraint =
  oc_Name :: string
  oc_Expression :: string

record DeploymentContent =
  dc_Name :: ResourceName
  dc_ManifestStrategy :: ManifestStrategySpec
  dc_PlacementStrategy :: PlacementStrategySpec

record ManagedResourceContent =
  mc_ResourceType :: ResourceType
  mc_ResourceName :: ResourceName
  mc_Spec :: bytes

text \<open>The sealed interface \<^verbatim>\<open>InputContent\<close> with its two implementations.\<close>

datatype InputContent = OfDeployment DeploymentContent | OfManagedResource ManagedResourceContent

fun ContentID :: "InputContent \<Rightarrow> string" where
  "ContentID (OfDeployment c) = dc_Name c"
| "ContentID (OfManagedResource c) = mc_ResourceName c"

fun ContentType :: "InputContent \<Rightarrow> string" where
  "ContentType (OfDeployment c) = ''deployment''"
| "ContentType (OfManagedResource c) = ''managed_resource''"

record Provenance =
  pr_Content :: "InputContent option"
  pr_Sig :: Signature
  pr_ValidUntil :: go_time
  pr_ExpectedGeneration :: Generation
  pr_OutputConstraints :: "OutputConstraint list"

text \<open>The wire form of a provenance; \<open>None\<close> is a nil pointer.\<close>

record provenanceJSON =
  pj_ContentType :: string
  pj_DeploymentContent :: "DeploymentContent option"
  pj_ManagedResourceContent :: "ManagedResourceContent option"
  pj_Sig :: Signature
  pj_ValidUntil :: go_time
  pj_ExpectedGeneration :: Generation
  pj_OutputConstraints :: "OutputConstraint list"

definition provenanceToJSON :: "Provenance \<Rightarrow> provenanceJSON" where
  "provenanceToJSON p =
     (let j = \<lparr>pj_ContentType = '''', pj_DeploymentContent = None, pj_ManagedResourceContent = None,
               pj_Sig = pr_Sig p, pj_ValidUntil = pr_ValidUntil p,
               pj_ExpectedGeneration = pr_ExpectedGeneration p,
               pj_OutputConstraints = pr_OutputConstraints p\<rparr>
      in case pr_Content p of
           Some (OfDeployment c) \<Rightarrow> j\<lparr>pj_ContentType := ''deployment'', pj_DeploymentContent := Some c\<rparr>
         | Some (OfManagedResource c) \<Rightarrow>
             j\<lparr>pj_ContentType := ''managed_resource'', pj_ManagedResourceContent := Some c\<rparr>
         | None \<Rightarrow> j)"

text \<open>Decoding into an existing value \<open>p\<close>, as \<^verbatim>\<open>UnmarshalJSON\<close> does.\<close>

definition provenanceFromJSON :: "provenanceJSON \<Rightarrow> Provenance \<Rightarrow> Provenance result" where
  "provenanceFromJSON j p =
     (let p' = p\<lparr>pr_Sig := pj_Sig j, pr_ValidUntil := pj_ValidUntil j,
                 pr_ExpectedGeneration := pj_ExpectedGeneration j,
                 pr_OutputConstraints := pj_OutputConstraints j\<rparr>
      in if pj_ContentType j = ''deployment'' then
           (case pj_DeploymentContent j of
              None \<Rightarrow> Inr p' | Some c \<Rightarrow> Inr (p'\<lparr>pr_Content := Some (OfDeployment c)\<rparr>))
         else if pj_ContentType j = ''managed_resource'' then
           (case pj_ManagedResourceContent j of
              None \<Rightarrow> Inr p' | Some c \<Rightarrow> Inr (p'\<lparr>pr_Content := Some (OfManagedResource c)\<rparr>))
         else if pj_ContentType j = '''' then Inr (p'\<lparr>pr_Content := None\<rparr>)
         else Inl (Plain (''provenance: unknown ContentType '' @ quote (pj_ContentType j))))"

section \<open>Fulfillment relations\<close>

record RegisteredSelfTarget =
  rs_addonTarget :: TargetID
  rs_manifestType :: ManifestType

text \<open>The sealed interface \<^verbatim>\<open>FulfillmentRelation\<close> has one implementation.\<close>

datatype FulfillmentRelation = OfSelfTarget RegisteredSelfTarget

definition NewRegisteredSelfTarget :: "TargetID \<Rightarrow> ManifestType \<Rightarrow> RegisteredSelfTarget" where
  "NewRegisteredSelfTarget addonTarget manifestType =
     \<lparr>rs_addonTarget = addonTarget, rs_manifestType = manifestType\<rparr>"

fun DeriveStrategies ::
  "FulfillmentRelation \<Rightarrow> ResourceIntent \<Rightarrow>
     ManifestStrategySpec \<times> PlacementStrategySpec \<times> RolloutStrategySpec option" where
  "DeriveStrategies (OfSelfTarget r) intent =
     (\<lparr>ms_Type = ManifestStrategyManagedResource, ms_Manifests = [],
       ms_IntentRef = \<lparr>ir_ExtensionResourceUID = ri_ExtensionResourceUID intent,
                       ir_Version = ri_Version intent, ir_ManifestType = rs_manifestType r\<rparr>\<rparr>,
      \<lparr>ps_Type = ''static'', ps_Targets = [rs_addonTarget r], ps_TargetSelector = None\<rparr>,
      Some \<lparr>ro_Type = ''immediate'', ro_VersionConflictPolicy = ''''\<rparr>)"

record registeredSelfTargetJSON =
  rj_AddonTarget :: string
  rj_ManifestType :: string

record fulfillmentRelJSON =
  fj_Type :: string
  fj_RegisteredSelfTarget :: "registeredSelfTargetJSON option"

text \<open>The relation is an interface value; \<open>None\<close> is nil.\<close>

definition marshalFulfillmentRelation :: "FulfillmentRelation option \<Rightarrow> fulfillmentRelJSON" where
  "marshalFulfillmentRelation r =
     (case r of
        Some (OfSelfTarget v) \<Rightarrow>
          \<lparr>fj_Type = ''RegisteredSelfTarget'',
           fj_RegisteredSelfTarget =
             Some \<lparr>rj_AddonTarget = rs_addonTarget v, rj_ManifestType = rs_manifestType v\<rparr>\<rparr>
      | None \<Rightarrow> \<lparr>fj_Type = '''', fj_RegisteredSelfTarget = None\<rparr>)"

definition unmarshalFulfillmentRelation :: "fulfillmentRelJSON \<Rightarrow> FulfillmentRelation option result" where
  "unmarshalFulfillmentRelation j =
     (if fj_Type j = ''RegisteredSelfTarget'' then
        (case fj_RegisteredSelfTarget j of
           None \<Rightarrow> Inl (Plain ''fulfillment relation: RegisteredSelfTarget is nil'')
         | Some dto \<Rightarrow>
             (case NewTargetID (rj_AddonTarget dto) of
                Inl e \<Rightarrow> Inl (Wrapped ''fulfillment relation: '' e '''')
              | Inr target \<Rightarrow>
                  (case NewManifestType (rj_ManifestType dto) of
                     Inl e \<Rightarrow> Inl (Wrapped ''fulfillment relation: '' e '''')
                   | Inr mt \<Rightarrow> Inr (Some (OfSelfTarget (NewRegisteredSelfTarget target mt))))))
      else if fj_Type j = '''' then Inr None
      else Inl (Plain (''fulfillment relation: unknown type '' @ quote (fj_Type j))))"

record SignedRelation =
  sr_ResourceType :: ResourceType
  sr_Relation :: "FulfillmentRelation option"
  sr_Signature :: Signature

section \<open>Attestations\<close>

record AttestationRef =
  ar_RelationRef :: "ResourceType option"

record SignerAssertion =
  sa_IdentityToken :: RawToken
  sa_RegistryID :: KeyRegistryID
  sa_RegistrySubject :: RegistrySubject

record ResolvedEvidence =
  ev_SignerAssertion :: "SignerAssertion option"
  ev_SignedRelation :: "SignedRelation option"

record SignedInput =
  si_Provenance :: Provenance
  si_Signer :: SignerAssertion

text \<open>
  The sealed interface \<^verbatim>\<open>DeliveryOutput\<close>; its implementations are pointers, so the
  argument of a constructor is an option and \<open>None\<close> is a typed nil pointer.
\<close>

datatype DeliveryOutput =
    PutManifests "Manifest list option"
  | RemoveByDeploymentName "ResourceName option"

record Attestation =
  at_Input :: SignedInput
  at_SignedRelation :: "SignedRelation option"
  at_Output :: "DeliveryOutput option"

record attestationJSON =
  aj_Input :: SignedInput
  aj_SignedRelation :: "SignedRelation option"
  aj_OutputType :: string
  aj_PutManifests :: "Manifest list option"
  aj_RemoveByDeploymentName :: "ResourceName option"

definition attestationToJSON :: "Attestation \<Rightarrow> attestationJSON" where
  "attestationToJSON a =
     (let j = \<lparr>aj_Input = at_Input a, aj_SignedRelation = at_SignedRelation a, aj_OutputType = '''',
               aj_PutManifests = None, aj_RemoveByDeploymentName = None\<rparr>
      in case at_Output a of
           Some (PutManifests o') \<Rightarrow> j\<lparr>aj_OutputType := ''PutManifests'', aj_PutManifests := o'\<rparr>
         | Some (RemoveByDeploymentName o') \<Rightarrow>
             j\<lparr>aj_OutputType := ''RemoveByDeploymentName'', aj_RemoveByDeploymentName := o'\<rparr>
         | None \<Rightarrow> j)"

definition attestationFromJSON :: "attestationJSON \<Rightarrow> Attestation result" where
  "attestationFromJSON j =
     (let a = \<lparr>at_Input = aj_Input j, at_SignedRelation = aj_SignedRelation j, at_Output = None\<rparr>
      in if aj_OutputType j = ''PutManifests'' then
           Inr (a\<lparr>at_Output := Some (PutManifests (aj_PutManifests j))\<rparr>)
         else if aj_OutputType j = ''RemoveByDeploymentName'' then
           Inr (a\<lparr>at_Output := Some (RemoveByDeploymentName (aj_RemoveByDeploymentName j))\<rparr>)
         else if aj_OutputType j = '''' then Inr a
         else Inl (Plain (''attestation: unknown OutputType '' @ quote (aj_OutputType j))))"

section \<open>Properties\<close>


text \<open>
  A fulfillment derived from a self-target relation goes to the add-on's own target and
  nowhere else: whatever the pool, its placement either selects exactly that target or fails with
  \<^verbatim>\<open>ErrNotFound\<close> because the target is not ready.
\<close>

theorem self_target_relation_targets_addon:
  "case resolvePlacement (fst (snd (DeriveStrategies (OfSelfTarget r) intent))) (PlacementTargets pool) of
     Inr ts \<Rightarrow> map pt_ID ts = [rs_addonTarget r]
   | Inl e \<Rightarrow> errorsIs e ErrNotFound \<and> rs_addonTarget r \<notin> pt_ID ` set (PlacementTargets pool)"
proof -
  let ?idx = "index_by pt_ID (PlacementTargets pool)"
  have res: "resolvePlacement (fst (snd (DeriveStrategies (OfSelfTarget r) intent))) (PlacementTargets pool)
      = resolveStatic ?idx [rs_addonTarget r]"
    by (simp add: resolvePlacement_def factoryPlacementStrategy_def)
  show ?thesis
  proof (cases "?idx (rs_addonTarget r)")
    case None
    then have "rs_addonTarget r \<notin> pt_ID ` set (PlacementTargets pool)" by (simp add: index_by_None)
    with None show ?thesis unfolding res by simp
  next
    case (Some t)
    then show ?thesis using index_by_SomeD [OF Some] unfolding res by simp
  qed
qed

end
