(* ===== verification/FS_Machines.thy ===== *)
theory FS_Machines
  imports FS_Errors
begin

text \<open>
  The two contracts the server's stateful domain objects share. A \<^emph>\<open>guarded machine\<close> is an
  object with a set of operations, each of which keeps a well-formedness predicate; a
  \<^emph>\<open>fenced machine\<close> has in addition a counter that never goes back and a payload that only
  changes together with an increase of the counter, which is what makes the counter usable as a
  staleness fence. Deliveries, fulfillments and the tables that hold them are instances.
\<close>

section \<open>Guarded machines\<close>

locale guarded_machine =
  fixes apply_op :: "'op \<Rightarrow> 's \<Rightarrow> 's"
    and ok :: "'s \<Rightarrow> bool"
  assumes step_ok: "ok s \<Longrightarrow> ok (apply_op a s)"
begin

lemma run_ok: "ok s \<Longrightarrow> ok (fold apply_op ops s)"
  by (induction ops arbitrary: s) (auto simp: step_ok)

end

section \<open>Fenced machines\<close>

locale fenced_machine = guarded_machine apply_op ok
  for apply_op :: "'op \<Rightarrow> 's \<Rightarrow> 's" and ok :: "'s \<Rightarrow> bool" +
  fixes fence :: "'s \<Rightarrow> int"
    and payload :: "'s \<Rightarrow> 'c"
  assumes step_advances: "ok s \<Longrightarrow> fence s \<le> fence (apply_op a s)"
    and step_payload: "ok s \<Longrightarrow> fence (apply_op a s) = fence s \<Longrightarrow> payload (apply_op a s) = payload s"
begin

lemma run_advances: "ok s \<Longrightarrow> fence s \<le> fence (fold apply_op ops s)"
proof (induction ops arbitrary: s)
  case (Cons a ops)
  from step_advances [OF Cons.prems, of a] Cons.IH [OF step_ok [OF Cons.prems, of a]]
  show ?case by simp
qed simp

lemma run_payload:
  "ok s \<Longrightarrow> fence (fold apply_op ops s) = fence s \<Longrightarrow> payload (fold apply_op ops s) = payload s"
proof (induction ops arbitrary: s)
  case (Cons a ops)
  let ?s = "apply_op a s"
  have ok': "ok ?s" using step_ok Cons.prems(1) .
  have "fence s \<le> fence ?s" "fence ?s \<le> fence (fold apply_op ops ?s)"
    using step_advances [OF Cons.prems(1)] run_advances [OF ok'] by auto
  with Cons.prems(2) have eq: "fence ?s = fence s" "fence (fold apply_op ops ?s) = fence ?s" by auto
  then show ?case
    using Cons.IH [OF ok' eq(2)] step_payload [OF Cons.prems(1) eq(1)] by simp
qed simp

lemma run_fence_between:
  "ok s \<Longrightarrow> fence (fold apply_op (xs @ ys) s) = fence s \<Longrightarrow> fence (fold apply_op xs s) = fence s"
  using run_advances [of s xs] run_advances [OF run_ok, of s xs ys] by auto

end

end
