(* ===== verification/FS_Delivery.thy ===== *)
theory FS_Delivery
  imports FS_Targets FS_Machines
begin

text \<open>
  The delivery entity (\<^verbatim>\<open>server/internal/domain/delivery.go\<close>): one
  fulfillment-to-target delivery with its lifecycle state, the generation it was dispatched at
  and the operation (deliver or remove) under way. The properties: the exact condition under
  which a transition is legal, the lifecycle order as a step relation with terminal states, and
  the generation fence (the generation never goes back, and the manifests of a delivery are
  fixed for as long as its generation is).
\<close>

section \<open>States and operations\<close>

text \<open>
  \<^verbatim>\<open>DeliveryState\<close> is a Go string type with seven declared values;
  \<open>OtherDeliveryState s\<close> stands for any other string.
\<close>

datatype DeliveryState =
    DeliveryStatePending | DeliveryStateAccepted | DeliveryStateProgressing
  | DeliveryStateDelivered | DeliveryStateFailed | DeliveryStatePartial | DeliveryStateAuthFailed
  | OtherDeliveryState string

fun deliveryStateText :: "DeliveryState \<Rightarrow> string" where
  "deliveryStateText DeliveryStatePending = ''pending''"
| "deliveryStateText DeliveryStateAccepted = ''accepted''"
| "deliveryStateText DeliveryStateProgressing = ''progressing''"
| "deliveryStateText DeliveryStateDelivered = ''delivered''"
| "deliveryStateText DeliveryStateFailed = ''failed''"
| "deliveryStateText DeliveryStatePartial = ''partial''"
| "deliveryStateText DeliveryStateAuthFailed = ''auth_failed''"
| "deliveryStateText (OtherDeliveryState s) = s"

datatype DeliveryOperation = DeliveryOperationDeliver | DeliveryOperationRemove

fun stateIsTerminal :: "DeliveryState \<Rightarrow> bool" where
  "stateIsTerminal DeliveryStateDelivered = True"
| "stateIsTerminal DeliveryStateFailed = True"
| "stateIsTerminal DeliveryStatePartial = True"
| "stateIsTerminal DeliveryStateAuthFailed = True"
| "stateIsTerminal _ = False"

fun deliveryStateOrder :: "DeliveryState \<Rightarrow> int option" where
  "deliveryStateOrder DeliveryStatePending = Some 0"
| "deliveryStateOrder DeliveryStateAccepted = Some 1"
| "deliveryStateOrder DeliveryStateProgressing = Some 2"
| "deliveryStateOrder _ = None"

fun knownDeliveryStates :: "DeliveryState \<Rightarrow> bool" where
  "knownDeliveryStates (OtherDeliveryState _) = False"
| "knownDeliveryStates _ = True"

record Delivery =
  d_id :: DeliveryID
  d_fulfillmentID :: FulfillmentID
  d_targetID :: TargetID
  d_manifests :: "Manifest list"
  d_generation :: Generation
  d_state :: DeliveryState
  d_operation :: DeliveryOperation
  d_createdAt :: go_time
  d_updatedAt :: go_time

definition NewDelivery ::
  "DeliveryID \<Rightarrow> FulfillmentID \<Rightarrow> TargetID \<Rightarrow> Manifest list \<Rightarrow> Generation \<Rightarrow> go_time \<Rightarrow> Delivery" where
  "NewDelivery i f t ms g now =
     \<lparr>d_id = i, d_fulfillmentID = f, d_targetID = t, d_manifests = ms, d_generation = g,
      d_state = DeliveryStatePending, d_operation = DeliveryOperationDeliver,
      d_createdAt = now, d_updatedAt = now\<rparr>"

definition illegal :: "string \<Rightarrow> error" where
  "illegal msg = Wrapped '''' (Sentinel ErrIllegalStateTransition) ('': '' @ msg)"

definition quotedState :: "DeliveryState \<Rightarrow> string" where
  "quotedState s = quote (deliveryStateText s)"

definition movesBackward :: "DeliveryState \<Rightarrow> DeliveryState \<Rightarrow> bool" where
  "movesBackward s t =
     (case (deliveryStateOrder s, deliveryStateOrder t) of
        (Some fromOrd, Some toOrd) \<Rightarrow> toOrd \<le> fromOrd
      | _ \<Rightarrow> False)"

definition TransitionTo :: "DeliveryState \<Rightarrow> go_time \<Rightarrow> Delivery \<Rightarrow> Delivery result" where
  "TransitionTo st now d =
     (if \<not> knownDeliveryStates st then Inl (illegal (''unknown delivery state '' @ quotedState st))
      else if d_state d = st then Inr d
      else if stateIsTerminal (d_state d) then
        Inl (illegal (''delivery '' @ d_id d @ '' is in terminal state '' @ quotedState (d_state d) @
                      '', cannot transition to '' @ quotedState st))
      else if \<not> stateIsTerminal st \<and> movesBackward (d_state d) st then
        Inl (illegal (''delivery '' @ d_id d @ '' cannot move backward from '' @
                      quotedState (d_state d) @ '' to '' @ quotedState st))
      else Inr (d\<lparr>d_state := st, d_updatedAt := now\<rparr>))"

definition Redispatch :: "Manifest list \<Rightarrow> Generation \<Rightarrow> go_time \<Rightarrow> Delivery \<Rightarrow> Delivery result" where
  "Redispatch ms g now d =
     (if g \<le> d_generation d then
        Inl (illegal (''cannot redispatch at generation '' @ itoa g @ '' (current '' @
                      itoa (d_generation d) @ '')''))
      else Inr (d\<lparr>d_manifests := ms, d_generation := g, d_state := DeliveryStatePending,
                  d_operation := DeliveryOperationDeliver, d_updatedAt := now\<rparr>))"

definition Withdraw :: "Generation \<Rightarrow> go_time \<Rightarrow> Delivery \<Rightarrow> (bool \<times> Delivery) result" where
  "Withdraw g now d =
     (if g < d_generation d then
        Inl (illegal (''withdraw generation '' @ itoa g @ '' is older than current '' @
                      itoa (d_generation d)))
      else if g = d_generation d \<and> \<not> stateIsTerminal (d_state d) then Inr (False, d)
      else Inr (True, d\<lparr>d_state := DeliveryStatePending, d_generation := g,
                        d_operation := DeliveryOperationRemove, d_updatedAt := now\<rparr>))"

definition ResetForRetry :: "go_time \<Rightarrow> Delivery \<Rightarrow> Delivery result" where
  "ResetForRetry now d =
     (if \<not> stateIsTerminal (d_state d) then
        Inl (illegal (''delivery '' @ d_id d @ '' is in non-terminal state '' @
                      quotedState (d_state d) @ '', cannot reset for retry''))
      else Inr (d\<lparr>d_state := DeliveryStatePending, d_updatedAt := now\<rparr>))"

definition Retry :: "Generation \<Rightarrow> go_time \<Rightarrow> Delivery \<Rightarrow> bool \<times> Delivery" where
  "Retry g now d =
     (if d_generation d \<noteq> g then (False, d)
      else if d_state d \<noteq> DeliveryStatePending then (False, d)
      else (True, d\<lparr>d_updatedAt := now\<rparr>))"

section \<open>Results and events\<close>

record ProvisionedTarget =
  pv_ID :: TargetID
  pv_Type :: TargetType
  pv_Name :: string
  pv_Labels :: string_map
  pv_Properties :: string_map
  pv_AcceptedManifestTypes :: "ManifestType list"

type_synonym SecretRef = string

record ProducedSecret =
  se_Ref :: SecretRef
  se_Value :: bytes

record DeliveryResult =
  dr_State :: DeliveryState
  dr_Message :: string
  dr_ProvisionedTargets :: "ProvisionedTarget list"
  dr_ProducedSecrets :: "ProducedSecret list"

datatype DeliveryEventKind = DeliveryEventProgress | DeliveryEventWarning | DeliveryEventError

record DeliveryEvent =
  de_Timestamp :: go_time
  de_Kind :: DeliveryEventKind
  de_Message :: string
  de_Detail :: bytes

record DeliveryCompletionEvent =
  ce_DeliveryID :: DeliveryID
  ce_Generation :: Generation
  ce_Result :: DeliveryResult

record DeliveryAckedEvent =
  ae_DeliveryID :: DeliveryID
  ae_Generation :: Generation

text \<open>A signal to a running workflow; the code sets exactly one of the two fields.\<close>

datatype FulfillmentEvent =
    DeliveryAcked DeliveryAckedEvent
  | DeliveryCompleted DeliveryCompletionEvent

section \<open>Snapshots\<close>

record DeliverySnapshot =
  ds_ID :: DeliveryID
  ds_FulfillmentID :: FulfillmentID
  ds_TargetID :: TargetID
  ds_Manifests :: "Manifest list"
  ds_Generation :: Generation
  ds_State :: DeliveryState
  ds_Operation :: DeliveryOperation
  ds_CreatedAt :: go_time
  ds_UpdatedAt :: go_time

definition deliverySnapshot :: "Delivery \<Rightarrow> DeliverySnapshot" where
  "deliverySnapshot d =
     \<lparr>ds_ID = d_id d, ds_FulfillmentID = d_fulfillmentID d, ds_TargetID = d_targetID d,
      ds_Manifests = d_manifests d, ds_Generation = d_generation d, ds_State = d_state d,
      ds_Operation = d_operation d, ds_CreatedAt = d_createdAt d, ds_UpdatedAt = d_updatedAt d\<rparr>"

definition DeliveryFromSnapshot :: "DeliverySnapshot \<Rightarrow> Delivery" where
  "DeliveryFromSnapshot s =
     \<lparr>d_id = ds_ID s, d_fulfillmentID = ds_FulfillmentID s, d_targetID = ds_TargetID s,
      d_manifests = ds_Manifests s, d_generation = ds_Generation s, d_state = ds_State s,
      d_operation = ds_Operation s, d_createdAt = ds_CreatedAt s, d_updatedAt = ds_UpdatedAt s\<rparr>"

lemma DeliveryFromSnapshot_inverse [simp, codec_simps]: "DeliveryFromSnapshot (deliverySnapshot d) = d"
  by (simp add: DeliveryFromSnapshot_def deliverySnapshot_def)

section \<open>The delivery as a machine\<close>

text \<open>
  One mutator call on a delivery. A call that returns an error leaves the object as it was.
\<close>

datatype delivery_op =
    OpTransitionTo DeliveryState go_time
  | OpRedispatch "Manifest list" Generation go_time
  | OpWithdraw Generation go_time
  | OpResetForRetry go_time
  | OpRetry Generation go_time

definition orKeep :: "'a \<Rightarrow> 'a result \<Rightarrow> 'a" where
  "orKeep d r = (case r of Inl _ \<Rightarrow> d | Inr d' \<Rightarrow> d')"

fun applyDeliveryOp :: "delivery_op \<Rightarrow> Delivery \<Rightarrow> Delivery" where
  "applyDeliveryOp (OpTransitionTo st now) d = orKeep d (TransitionTo st now d)"
| "applyDeliveryOp (OpRedispatch ms g now) d = orKeep d (Redispatch ms g now d)"
| "applyDeliveryOp (OpWithdraw g now) d = snd (orKeep (False, d) (Withdraw g now d))"
| "applyDeliveryOp (OpResetForRetry now) d = orKeep d (ResetForRetry now d)"
| "applyDeliveryOp (OpRetry g now) d = snd (Retry g now d)"

definition deliveryOK :: "Delivery \<Rightarrow> bool" where
  "deliveryOK d = knownDeliveryStates (d_state d)"

lemmas delivery_ops = TransitionTo_def Redispatch_def Withdraw_def ResetForRetry_def Retry_def

lemma orKeep_simps [simp]: "orKeep d (Inl e) = d" "orKeep d (Inr d') = d'"
  by (simp_all add: orKeep_def)

lemma applyDeliveryOp_ok: "deliveryOK d \<Longrightarrow> deliveryOK (applyDeliveryOp a d)"
  by (cases a) (simp_all add: delivery_ops deliveryOK_def)

lemma applyDeliveryOp_generation: "d_generation d \<le> d_generation (applyDeliveryOp a d)"
  by (cases a) (simp_all add: delivery_ops)

lemma applyDeliveryOp_identity:
  "d_id (applyDeliveryOp a d) = d_id d \<and> d_fulfillmentID (applyDeliveryOp a d) = d_fulfillmentID d \<and>
   d_targetID (applyDeliveryOp a d) = d_targetID d \<and> d_createdAt (applyDeliveryOp a d) = d_createdAt d"
  by (cases a) (simp_all add: delivery_ops)

lemma applyDeliveryOp_manifests:
  "d_generation (applyDeliveryOp a d) = d_generation d \<Longrightarrow> d_manifests (applyDeliveryOp a d) = d_manifests d"
  by (cases a) (simp_all add: delivery_ops split: if_splits)

definition deliveryPayload ::
  "Delivery \<Rightarrow> DeliveryID \<times> FulfillmentID \<times> TargetID \<times> Manifest list \<times> go_time" where
  "deliveryPayload d = (d_id d, d_fulfillmentID d, d_targetID d, d_manifests d, d_createdAt d)"

interpretation delivery: fenced_machine applyDeliveryOp deliveryOK d_generation deliveryPayload
proof
  show "d_generation (applyDeliveryOp a d) = d_generation d \<Longrightarrow>
      deliveryPayload (applyDeliveryOp a d) = deliveryPayload d" for a d
    using applyDeliveryOp_identity [of a d] applyDeliveryOp_manifests [of a d]
    by (simp add: deliveryPayload_def)
qed (simp_all add: applyDeliveryOp_ok applyDeliveryOp_generation)

lemma run_identity:
  "d_id (fold applyDeliveryOp ops d) = d_id d \<and>
   d_fulfillmentID (fold applyDeliveryOp ops d) = d_fulfillmentID d \<and>
   d_targetID (fold applyDeliveryOp ops d) = d_targetID d"
  by (induction ops arbitrary: d) (simp_all add: applyDeliveryOp_identity)

section \<open>The lifecycle as a step relation\<close>

text \<open>
  \<open>lifecycle_step s t\<close>: the lifecycle state moves from \<open>s\<close> to \<open>t\<close> in one accepted and
  effective transition of a single dispatch cycle.
\<close>

inductive lifecycle_step :: "DeliveryState \<Rightarrow> DeliveryState \<Rightarrow> bool" where
  accept: "lifecycle_step DeliveryStatePending DeliveryStateAccepted"
| progress: "s \<in> {DeliveryStatePending, DeliveryStateAccepted} \<Longrightarrow> lifecycle_step s DeliveryStateProgressing"
| finish: "s \<in> {DeliveryStatePending, DeliveryStateAccepted, DeliveryStateProgressing} \<Longrightarrow>
    stateIsTerminal t \<Longrightarrow> lifecycle_step s t"

inductive_simps lifecycle_step_simps: "lifecycle_step s t"

lemma stateIsTerminal_iff:
  "stateIsTerminal s \<longleftrightarrow>
     s \<in> {DeliveryStateDelivered, DeliveryStateFailed, DeliveryStatePartial, DeliveryStateAuthFailed}"
  by (cases s) simp_all

text \<open>The position of a state in its cycle; every effective transition goes up.\<close>

fun lifecycleRank :: "DeliveryState \<Rightarrow> nat" where
  "lifecycleRank DeliveryStatePending = 0"
| "lifecycleRank DeliveryStateAccepted = 1"
| "lifecycleRank DeliveryStateProgressing = 2"
| "lifecycleRank (OtherDeliveryState _) = 0"
| "lifecycleRank _ = 3"

lemma lifecycle_step_rank: "lifecycle_step s t \<Longrightarrow> lifecycleRank s < lifecycleRank t"
  by (induction rule: lifecycle_step.induct) (auto simp: stateIsTerminal_iff)

lemma TransitionTo_effective:
  assumes "knownDeliveryStates (d_state d)" "st \<noteq> d_state d"
  shows "TransitionTo st now d =
    (if lifecycle_step (d_state d) st then Inr (d\<lparr>d_state := st, d_updatedAt := now\<rparr>)
     else TransitionTo st now d) \<and> (isl (TransitionTo st now d) \<longleftrightarrow> \<not> lifecycle_step (d_state d) st)"
  using assms
  by (cases "d_state d"; cases st)
    (simp_all add: TransitionTo_def lifecycle_step_simps movesBackward_def)

section \<open>Properties\<close>

text \<open>
  C26: the delivery lifecycle is exactly the declared one. For a delivery in one of the seven
  declared states, \<^verbatim>\<open>TransitionTo\<close> changes the state (and the update time, and nothing
  else) precisely along the lifecycle relation, is a no-op for the current state, and otherwise
  fails with \<^verbatim>\<open>ErrIllegalStateTransition\<close>.
\<close>

theorem transition_exact:
  assumes "knownDeliveryStates (d_state d)"
  shows "if st = d_state d then TransitionTo st now d = Inr d
         else if lifecycle_step (d_state d) st then
           TransitionTo st now d = Inr (d\<lparr>d_state := st, d_updatedAt := now\<rparr>)
         else \<exists>e. TransitionTo st now d = Inl e \<and> errorsIs e ErrIllegalStateTransition"
proof -
  have err: "errorsIs e ErrIllegalStateTransition" if "TransitionTo st now d = Inl e" for e
    using that by (auto simp: TransitionTo_def illegal_def split: if_splits)
  show ?thesis
  proof (cases "st = d_state d")
    case True
    with assms show ?thesis by (simp add: TransitionTo_def)
  next
    case False
    with TransitionTo_effective [OF assms False, of now] err show ?thesis
      by (auto simp: isl_def)
  qed
qed

theorem transition_exact_witness:
  "TransitionTo DeliveryStateDelivered 7 (NewDelivery ''f:t'' ''f'' ''t'' [] 1 3) =
     Inr ((NewDelivery ''f:t'' ''f'' ''t'' [] 1 3)\<lparr>d_state := DeliveryStateDelivered, d_updatedAt := 7\<rparr>)"
  using transition_exact [of "NewDelivery ''f:t'' ''f'' ''t'' [] 1 3" DeliveryStateDelivered 7]
  by (simp add: NewDelivery_def lifecycle_step_simps)

text \<open>
  C27: the generation is a fence. Whatever sequence of mutator calls a delivery goes through
  (state transitions, redispatch, withdrawal, resets and retries, failing or not), its generation
  never decreases, its state stays one of the declared ones, and as long as the generation is
  the one a report was made for, the delivery still has the same identity and the same manifests.
\<close>

theorem delivery_generation_fence:
  assumes "knownDeliveryStates (d_state d)"
  shows "let d' = fold applyDeliveryOp ops d in
         d_generation d \<le> d_generation d' \<and> knownDeliveryStates (d_state d') \<and>
         d_id d' = d_id d \<and> d_fulfillmentID d' = d_fulfillmentID d \<and> d_targetID d' = d_targetID d \<and>
         (d_generation d' = d_generation d \<longrightarrow> d_manifests d' = d_manifests d)"
proof -
  have ok: "deliveryOK d" using assms by (simp add: deliveryOK_def)
  show ?thesis
    unfolding Let_def
    using delivery.run_advances [OF ok, of ops] delivery.run_ok [OF ok, of ops]
      delivery.run_payload [OF ok, of ops] run_identity [of ops d]
    by (auto simp: deliveryOK_def deliveryPayload_def)
qed

theorem delivery_generation_fence_witness:
  "let d = NewDelivery ''f:t'' ''f'' ''t'' [] 1 3;
       d' = fold applyDeliveryOp
         [OpRedispatch [] 1 5, OpWithdraw 0 6, OpTransitionTo DeliveryStateFailed 8, OpResetForRetry 9] d
   in d_generation d \<le> d_generation d' \<and> d_id d' = d_id d"
proof -
  have "knownDeliveryStates (d_state (NewDelivery ''f:t'' ''f'' ''t'' [] 1 3))"
    by (simp add: NewDelivery_def)
  note fence = delivery_generation_fence [OF this, unfolded Let_def]
  show ?thesis unfolding Let_def by (intro conjI) (use fence in blast)+
qed

text \<open>
  what a withdrawal guarantees, on every branch. An older generation is refused. A delivery
  that is terminal, or whose generation is behind, becomes a pending removal at the requested
  generation with its manifests kept. A delivery that is still under way at the requested
  generation is not touched: in particular it keeps its operation, which may still be
  \<^verbatim>\<open>deliver\<close>.
\<close>

theorem withdraw_exact:
  "case Withdraw g now d of
     Inl e \<Rightarrow> g < d_generation d \<and> errorsIs e ErrIllegalStateTransition
   | Inr (modified, d') \<Rightarrow>
       d_generation d \<le> g \<and> d_generation d' = g \<and> d_manifests d' = d_manifests d \<and>
       \<not> stateIsTerminal (d_state d') \<and>
       (if modified then d_state d' = DeliveryStatePending \<and> d_operation d' = DeliveryOperationRemove
        else d' = d \<and> g = d_generation d)"
  by (simp add: Withdraw_def illegal_def)

end
