(* ===== verification/FS_Fulfillment.thy ===== *)
theory FS_Fulfillment
  imports FS_Provenance FS_Delivery
begin

text \<open>
  The fulfillment aggregate (\<^verbatim>\<open>server/internal/domain/fulfillment.go\<close> and its snapshot in
  \<^verbatim>\<open>snapshot.go\<close>) and the deployment that refers to it (\<^verbatim>\<open>deployment.go\<close>). The
  properties: a transaction advances the generation exactly once however many mutations it
  makes, the strategy versions it will flush are consecutive and end in the materialised
  strategy, the orchestration lock excludes a second holder, and completing a reconciliation
  never hides a generation that advanced meanwhile.
\<close>

section \<open>The aggregate\<close>

datatype FulfillmentState =
    FulfillmentStateCreating | FulfillmentStateActive | FulfillmentStateDeleting
  | FulfillmentStateFailed | OtherFulfillmentState string

record ManifestStrategyRecord =
  mr_FulfillmentID :: FulfillmentID
  mr_Version :: StrategyVersion
  mr_Spec :: ManifestStrategySpec
  mr_CreatedAt :: go_time

record PlacementStrategyRecord =
  prr_FulfillmentID :: FulfillmentID
  prr_Version :: StrategyVersion
  prr_Spec :: PlacementStrategySpec
  prr_CreatedAt :: go_time

record RolloutStrategyRecord =
  ror_FulfillmentID :: FulfillmentID
  ror_Version :: StrategyVersion
  ror_Spec :: "RolloutStrategySpec option"
  ror_CreatedAt :: go_time

record PendingStrategyRecords =
  pe_Manifest :: "ManifestStrategyRecord list"
  pe_Placement :: "PlacementStrategyRecord list"
  pe_Rollout :: "RolloutStrategyRecord list"

record Fulfillment =
  f_id :: FulfillmentID
  f_manifestStrategy :: ManifestStrategySpec
  f_manifestStrategyVersion :: StrategyVersion
  f_placementStrategy :: PlacementStrategySpec
  f_placementStrategyVersion :: StrategyVersion
  f_rolloutStrategy :: "RolloutStrategySpec option"
  f_rolloutStrategyVersion :: StrategyVersion
  f_resolvedTargets :: "TargetID list"
  f_state :: FulfillmentState
  f_pauseReason :: string
  f_statusReason :: string
  f_auth :: DeliveryAuth
  f_provenance :: "Provenance option"
  f_attestationRef :: "AttestationRef option"
  f_generation :: Generation
  f_observedGeneration :: Generation
  f_activeWorkflowGen :: "Generation option"
  f_createdAt :: go_time
  f_updatedAt :: go_time
  f_loadedGeneration :: Generation
  f_pendingManifest :: "ManifestStrategyRecord list"
  f_pendingPlacement :: "PlacementStrategyRecord list"
  f_pendingRollout :: "RolloutStrategyRecord list"

definition zeroManifestStrategy :: ManifestStrategySpec where
  "zeroManifestStrategy = \<lparr>ms_Type = '''', ms_Manifests = [], ms_IntentRef = noIntentRef\<rparr>"

definition zeroPlacementStrategy :: PlacementStrategySpec where
  "zeroPlacementStrategy = \<lparr>ps_Type = '''', ps_Targets = [], ps_TargetSelector = None\<rparr>"

definition NewFulfillment ::
  "FulfillmentID \<Rightarrow> DeliveryAuth \<Rightarrow> Provenance option \<Rightarrow> AttestationRef option \<Rightarrow> go_time \<Rightarrow> Fulfillment" where
  "NewFulfillment i auth prov ref now =
     \<lparr>f_id = i, f_manifestStrategy = zeroManifestStrategy, f_manifestStrategyVersion = 0,
      f_placementStrategy = zeroPlacementStrategy, f_placementStrategyVersion = 0,
      f_rolloutStrategy = None, f_rolloutStrategyVersion = 0, f_resolvedTargets = [],
      f_state = FulfillmentStateCreating, f_pauseReason = '''', f_statusReason = '''',
      f_auth = auth, f_provenance = prov, f_attestationRef = ref, f_generation = 0,
      f_observedGeneration = 0, f_activeWorkflowGen = None, f_createdAt = now, f_updatedAt = now,
      f_loadedGeneration = 0, f_pendingManifest = [], f_pendingPlacement = [], f_pendingRollout = []\<rparr>"

section \<open>Mutations\<close>

definition advanceGeneration :: "Fulfillment \<Rightarrow> Fulfillment" where
  "advanceGeneration f = f\<lparr>f_generation := i64 (f_loadedGeneration f + 1)\<rparr>"

definition Resume :: "DeliveryAuth \<Rightarrow> Provenance option \<Rightarrow> Fulfillment \<Rightarrow> Fulfillment result" where
  "Resume auth prov f =
     (if f_pauseReason f = '''' then
        Inl (Wrapped '''' (Sentinel ErrInvalidArgument) '': fulfillment is not paused'')
      else if f_provenance f \<noteq> None \<and> prov = None then
        Inl (Wrapped '''' (Sentinel ErrInvalidArgument)
               '': fulfillment has provenance; re-signing is required to resume'')
      else
        let f1 = f\<lparr>f_auth := auth\<rparr>;
            f2 = (if prov \<noteq> None then f1\<lparr>f_provenance := prov\<rparr> else f1)
        in Inr (advanceGeneration (f2\<lparr>f_pauseReason := ''''\<rparr>)))"

definition Touch :: "go_time \<Rightarrow> Fulfillment \<Rightarrow> Fulfillment" where
  "Touch now f = advanceGeneration (f\<lparr>f_updatedAt := now\<rparr>)"

definition TransitionToDeleting :: "DeliveryAuth \<Rightarrow> Fulfillment \<Rightarrow> Fulfillment" where
  "TransitionToDeleting auth f =
     advanceGeneration (f\<lparr>f_auth := auth, f_state := FulfillmentStateDeleting, f_pauseReason := ''''\<rparr>)"

definition AdvanceManifestStrategy :: "ManifestStrategySpec \<Rightarrow> go_time \<Rightarrow> Fulfillment \<Rightarrow> Fulfillment" where
  "AdvanceManifestStrategy spec now f =
     (let v = i64 (f_manifestStrategyVersion f + 1)
      in advanceGeneration (f\<lparr>f_manifestStrategyVersion := v, f_manifestStrategy := spec,
           f_pendingManifest := f_pendingManifest f @
             [\<lparr>mr_FulfillmentID = f_id f, mr_Version = v, mr_Spec = spec, mr_CreatedAt = now\<rparr>]\<rparr>))"

definition AdvancePlacementStrategy :: "PlacementStrategySpec \<Rightarrow> go_time \<Rightarrow> Fulfillment \<Rightarrow> Fulfillment" where
  "AdvancePlacementStrategy spec now f =
     (let v = i64 (f_placementStrategyVersion f + 1)
      in advanceGeneration (f\<lparr>f_placementStrategyVersion := v, f_placementStrategy := spec,
           f_pendingPlacement := f_pendingPlacement f @
             [\<lparr>prr_FulfillmentID = f_id f, prr_Version = v, prr_Spec = spec, prr_CreatedAt = now\<rparr>]\<rparr>))"

definition AdvanceRolloutStrategy :: "RolloutStrategySpec option \<Rightarrow> go_time \<Rightarrow> Fulfillment \<Rightarrow> Fulfillment" where
  "AdvanceRolloutStrategy spec now f =
     (let v = i64 (f_rolloutStrategyVersion f + 1)
      in advanceGeneration (f\<lparr>f_rolloutStrategyVersion := v, f_rolloutStrategy := spec,
           f_pendingRollout := f_pendingRollout f @
             [\<lparr>ror_FulfillmentID = f_id f, ror_Version = v, ror_Spec = spec, ror_CreatedAt = now\<rparr>]\<rparr>))"

record ReconciliationResult =
  rr_FulfillmentID :: FulfillmentID
  rr_State :: FulfillmentState
  rr_PauseReason :: string
  rr_StatusReason :: string
  rr_ResolvedTargets :: "TargetID list"
  rr_Auth :: DeliveryAuth

definition ApplyReconciliationResult :: "ReconciliationResult \<Rightarrow> Fulfillment \<Rightarrow> Fulfillment" where
  "ApplyReconciliationResult r f =
     (let f' = (if rr_PauseReason r \<noteq> '''' then f\<lparr>f_pauseReason := rr_PauseReason r\<rparr>
                else f\<lparr>f_state := rr_State r, f_pauseReason := ''''\<rparr>)
      in f'\<lparr>f_statusReason := rr_StatusReason r, f_resolvedTargets := rr_ResolvedTargets r,
            f_auth := rr_Auth r\<rparr>)"

definition CompleteReconciliation :: "Generation \<Rightarrow> go_time \<Rightarrow> Fulfillment \<Rightarrow> bool \<times> Fulfillment" where
  "CompleteReconciliation reconciledGen now f =
     (let f1 = f\<lparr>f_observedGeneration := reconciledGen, f_updatedAt := now\<rparr>;
          needsRestart = (reconciledGen < f_generation f1)
      in (needsRestart, if needsRestart then f1 else f1\<lparr>f_activeWorkflowGen := None\<rparr>))"

definition AcquireOrchestrationLock :: "Fulfillment \<Rightarrow> bool \<times> Fulfillment" where
  "AcquireOrchestrationLock f =
     (if f_activeWorkflowGen f \<noteq> None then (False, f)
      else (True, f\<lparr>f_activeWorkflowGen := Some (f_generation f)\<rparr>))"

definition ReleaseOrchestrationLock :: "Fulfillment \<Rightarrow> Fulfillment" where
  "ReleaseOrchestrationLock f = f\<lparr>f_activeWorkflowGen := None\<rparr>"

definition DrainPendingStrategyRecords :: "Fulfillment \<Rightarrow> PendingStrategyRecords \<times> Fulfillment" where
  "DrainPendingStrategyRecords f =
     (\<lparr>pe_Manifest = f_pendingManifest f, pe_Placement = f_pendingPlacement f,
       pe_Rollout = f_pendingRollout f\<rparr>,
      f\<lparr>f_pendingManifest := [], f_pendingPlacement := [], f_pendingRollout := []\<rparr>)"

definition Paused :: "Fulfillment \<Rightarrow> bool" where
  "Paused f = (f_pauseReason f \<noteq> '''')"

definition Reconciling :: "Fulfillment \<Rightarrow> bool" where
  "Reconciling f =
     ((f_state f = FulfillmentStateCreating \<or> f_state f = FulfillmentStateDeleting) \<and>
      f_pauseReason f = '''')"

section \<open>Snapshots\<close>

record FulfillmentSnapshot =
  fs_ID :: FulfillmentID
  fs_ManifestStrategy :: ManifestStrategySpec
  fs_ManifestStrategyVersion :: StrategyVersion
  fs_PlacementStrategy :: PlacementStrategySpec
  fs_PlacementStrategyVersion :: StrategyVersion
  fs_RolloutStrategy :: "RolloutStrategySpec option"
  fs_RolloutStrategyVersion :: StrategyVersion
  fs_ResolvedTargets :: "TargetID list"
  fs_State :: FulfillmentState
  fs_PauseReason :: string
  fs_StatusReason :: string
  fs_Auth :: DeliveryAuth
  fs_Provenance :: "Provenance option"
  fs_AttestationRef :: "AttestationRef option"
  fs_Generation :: Generation
  fs_ObservedGeneration :: Generation
  fs_ActiveWorkflowGen :: "Generation option"
  fs_CreatedAt :: go_time
  fs_UpdatedAt :: go_time
  fs_PendingStrategyRecords :: PendingStrategyRecords

definition fulfillmentSnapshot :: "Fulfillment \<Rightarrow> FulfillmentSnapshot" where
  "fulfillmentSnapshot f =
     \<lparr>fs_ID = f_id f, fs_ManifestStrategy = f_manifestStrategy f,
      fs_ManifestStrategyVersion = f_manifestStrategyVersion f,
      fs_PlacementStrategy = f_placementStrategy f,
      fs_PlacementStrategyVersion = f_placementStrategyVersion f,
      fs_RolloutStrategy = f_rolloutStrategy f, fs_RolloutStrategyVersion = f_rolloutStrategyVersion f,
      fs_ResolvedTargets = f_resolvedTargets f, fs_State = f_state f, fs_PauseReason = f_pauseReason f,
      fs_StatusReason = f_statusReason f, fs_Auth = f_auth f, fs_Provenance = f_provenance f,
      fs_AttestationRef = f_attestationRef f, fs_Generation = f_generation f,
      fs_ObservedGeneration = f_observedGeneration f, fs_ActiveWorkflowGen = f_activeWorkflowGen f,
      fs_CreatedAt = f_createdAt f, fs_UpdatedAt = f_updatedAt f,
      fs_PendingStrategyRecords =
        \<lparr>pe_Manifest = f_pendingManifest f, pe_Placement = f_pendingPlacement f,
         pe_Rollout = f_pendingRollout f\<rparr>\<rparr>"

definition FulfillmentFromSnapshot :: "FulfillmentSnapshot \<Rightarrow> Fulfillment" where
  "FulfillmentFromSnapshot s =
     \<lparr>f_id = fs_ID s, f_manifestStrategy = fs_ManifestStrategy s,
      f_manifestStrategyVersion = fs_ManifestStrategyVersion s,
      f_placementStrategy = fs_PlacementStrategy s,
      f_placementStrategyVersion = fs_PlacementStrategyVersion s,
      f_rolloutStrategy = fs_RolloutStrategy s, f_rolloutStrategyVersion = fs_RolloutStrategyVersion s,
      f_resolvedTargets = fs_ResolvedTargets s, f_state = fs_State s, f_pauseReason = fs_PauseReason s,
      f_statusReason = fs_StatusReason s, f_auth = fs_Auth s, f_provenance = fs_Provenance s,
      f_attestationRef = fs_AttestationRef s, f_generation = fs_Generation s,
      f_observedGeneration = fs_ObservedGeneration s, f_activeWorkflowGen = fs_ActiveWorkflowGen s,
      f_createdAt = fs_CreatedAt s, f_updatedAt = fs_UpdatedAt s, f_loadedGeneration = fs_Generation s,
      f_pendingManifest = [], f_pendingPlacement = [], f_pendingRollout = []\<rparr>"

text \<open>What a reader of a stored fulfillment sees: the baseline is reset, the buffers are empty.\<close>

definition reloaded :: "Fulfillment \<Rightarrow> Fulfillment" where
  "reloaded f = f\<lparr>f_loadedGeneration := f_generation f, f_pendingManifest := [],
                  f_pendingPlacement := [], f_pendingRollout := []\<rparr>"

lemma FulfillmentFromSnapshot_inverse [codec_simps]:
  "FulfillmentFromSnapshot (fulfillmentSnapshot f) = reloaded f"
  by (cases f) (simp add: FulfillmentFromSnapshot_def fulfillmentSnapshot_def reloaded_def)

section \<open>Deployments\<close>

record Deployment =
  dp_name :: ResourceName
  dp_uid :: DeploymentUID
  dp_fulfillmentID :: FulfillmentID
  dp_createdAt :: go_time
  dp_updatedAt :: go_time

definition NewDeployment :: "ResourceName \<Rightarrow> DeploymentUID \<Rightarrow> FulfillmentID \<Rightarrow> go_time \<Rightarrow> Deployment" where
  "NewDeployment name uid fid now =
     \<lparr>dp_name = name, dp_uid = uid, dp_fulfillmentID = fid, dp_createdAt = now, dp_updatedAt = now\<rparr>"

record DeploymentView =
  dv_Deployment :: Deployment
  dv_Fulfillment :: Fulfillment

section \<open>The fulfillment as a machine\<close>

datatype fulfillment_op =
    OpResume DeliveryAuth "Provenance option"
  | OpTouch go_time
  | OpDelete DeliveryAuth
  | OpAdvanceManifest ManifestStrategySpec go_time
  | OpAdvancePlacement PlacementStrategySpec go_time
  | OpAdvanceRollout "RolloutStrategySpec option" go_time
  | OpApplyResult ReconciliationResult
  | OpComplete Generation go_time
  | OpAcquire
  | OpRelease

fun applyFulfillmentOp :: "fulfillment_op \<Rightarrow> Fulfillment \<Rightarrow> Fulfillment" where
  "applyFulfillmentOp (OpResume auth prov) f = orKeep f (Resume auth prov f)"
| "applyFulfillmentOp (OpTouch now) f = Touch now f"
| "applyFulfillmentOp (OpDelete auth) f = TransitionToDeleting auth f"
| "applyFulfillmentOp (OpAdvanceManifest spec now) f = AdvanceManifestStrategy spec now f"
| "applyFulfillmentOp (OpAdvancePlacement spec now) f = AdvancePlacementStrategy spec now f"
| "applyFulfillmentOp (OpAdvanceRollout spec now) f = AdvanceRolloutStrategy spec now f"
| "applyFulfillmentOp (OpApplyResult r) f = ApplyReconciliationResult r f"
| "applyFulfillmentOp (OpComplete g now) f = snd (CompleteReconciliation g now f)"
| "applyFulfillmentOp OpAcquire f = snd (AcquireOrchestrationLock f)"
| "applyFulfillmentOp OpRelease f = ReleaseOrchestrationLock f"

text \<open>The calls that represent a user's mutation (a refused \<^verbatim>\<open>Resume\<close> is none).\<close>

fun isMutation :: "fulfillment_op \<Rightarrow> Fulfillment \<Rightarrow> bool" where
  "isMutation (OpResume auth prov) f = (\<not> isl (Resume auth prov f))"
| "isMutation (OpTouch _) f = True"
| "isMutation (OpDelete _) f = True"
| "isMutation (OpAdvanceManifest _ _) f = True"
| "isMutation (OpAdvancePlacement _ _) f = True"
| "isMutation (OpAdvanceRollout _ _) f = True"
| "isMutation _ f = False"

fun anyMutation :: "fulfillment_op list \<Rightarrow> Fulfillment \<Rightarrow> bool" where
  "anyMutation [] f = False"
| "anyMutation (a # ops) f = (isMutation a f \<or> anyMutation ops (applyFulfillmentOp a f))"

text \<open>Version numbers that continue \<open>v\<close> without a gap.\<close>

fun versionChain :: "StrategyVersion \<Rightarrow> StrategyVersion list \<Rightarrow> bool" where
  "versionChain v [] = True"
| "versionChain v (w # ws) = (w = i64 (v + 1) \<and> versionChain w ws)"

lemmas fulfillment_ops =
  advanceGeneration_def Touch_def TransitionToDeleting_def AdvanceManifestStrategy_def
  AdvancePlacementStrategy_def AdvanceRolloutStrategy_def ApplyReconciliationResult_def
  CompleteReconciliation_def AcquireOrchestrationLock_def ReleaseOrchestrationLock_def
  Resume_def Let_def

section \<open>Lemmas\<close>

lemma op_generation:
  "f_loadedGeneration (applyFulfillmentOp a f) = f_loadedGeneration f \<and>
   f_generation (applyFulfillmentOp a f) =
     (if isMutation a f then i64 (f_loadedGeneration f + 1) else f_generation f)"
  by (cases a) (auto simp: fulfillment_ops)

lemma run_generation:
  "f_loadedGeneration (fold applyFulfillmentOp ops f) = f_loadedGeneration f \<and>
   f_generation (fold applyFulfillmentOp ops f) =
     (if anyMutation ops f then i64 (f_loadedGeneration f + 1) else f_generation f)"
proof (induction ops arbitrary: f)
  case (Cons a ops)
  show ?case using Cons.IH [of "applyFulfillmentOp a f"] op_generation [of a f] by auto
qed simp

lemma versionChain_snoc:
  "versionChain v (ws @ [w]) \<longleftrightarrow> versionChain v ws \<and> w = i64 (last (v # ws) + 1)"
  by (induction ws arbitrary: v) auto

text \<open>
  \<open>flushOK v spec0 ver spec recs\<close>: the buffered records \<open>recs\<close> continue the loaded version
  \<open>v\<close> without a gap up to the current version \<open>ver\<close>, and the newest one carries the current
  spec; without records the version and the spec are the loaded ones.
\<close>

definition flushOK ::
  "StrategyVersion \<Rightarrow> 'spec \<Rightarrow> StrategyVersion \<Rightarrow> 'spec \<Rightarrow> (StrategyVersion \<times> 'spec) list \<Rightarrow> bool" where
  "flushOK v spec0 ver spec recs \<longleftrightarrow>
     versionChain v (map fst recs) \<and> ver = last (v # map fst recs) \<and> spec = last (spec0 # map snd recs)"

lemma flushOK_snoc:
  "flushOK v spec0 ver spec recs \<Longrightarrow> ver' = i64 (ver + 1) \<Longrightarrow> flushOK v spec0 ver' spec' (recs @ [(ver', spec')])"
  by (simp add: flushOK_def versionChain_snoc)

definition manifestFlush :: "Fulfillment \<Rightarrow> (StrategyVersion \<times> ManifestStrategySpec) list" where
  "manifestFlush f = map (\<lambda>r. (mr_Version r, mr_Spec r)) (f_pendingManifest f)"

definition placementFlush :: "Fulfillment \<Rightarrow> (StrategyVersion \<times> PlacementStrategySpec) list" where
  "placementFlush f = map (\<lambda>r. (prr_Version r, prr_Spec r)) (f_pendingPlacement f)"

definition rolloutFlush :: "Fulfillment \<Rightarrow> (StrategyVersion \<times> RolloutStrategySpec option) list" where
  "rolloutFlush f = map (\<lambda>r. (ror_Version r, ror_Spec r)) (f_pendingRollout f)"

lemmas flush_defs = manifestFlush_def placementFlush_def rolloutFlush_def

text \<open>The state of the buffers in a transaction that loaded the versions of \<open>f0\<close>.\<close>

definition txOK :: "Fulfillment \<Rightarrow> Fulfillment \<Rightarrow> bool" where
  "txOK f0 f \<longleftrightarrow>
     flushOK (f_manifestStrategyVersion f0) (f_manifestStrategy f0)
       (f_manifestStrategyVersion f) (f_manifestStrategy f) (manifestFlush f) \<and>
     flushOK (f_placementStrategyVersion f0) (f_placementStrategy f0)
       (f_placementStrategyVersion f) (f_placementStrategy f) (placementFlush f) \<and>
     flushOK (f_rolloutStrategyVersion f0) (f_rolloutStrategy f0)
       (f_rolloutStrategyVersion f) (f_rolloutStrategy f) (rolloutFlush f)"

lemma op_txOK: "txOK f0 f \<Longrightarrow> txOK f0 (applyFulfillmentOp a f)"
proof (cases a)
  case (OpResume auth prov)
  then show "txOK f0 f \<Longrightarrow> ?thesis" by (simp add: fulfillment_ops txOK_def flush_defs)
qed (auto simp: fulfillment_ops txOK_def flush_defs intro: flushOK_snoc)

interpretation fulfillment: guarded_machine applyFulfillmentOp "txOK f0" for f0
  by unfold_locales (rule op_txOK)

lemma reloaded_txOK: "txOK (reloaded f) (reloaded f)"
  by (simp add: txOK_def reloaded_def flush_defs flushOK_def)

text \<open>The identity of a fulfillment, and that its buffered records are its own.\<close>

definition ownRecords :: "FulfillmentID \<Rightarrow> go_time \<Rightarrow> Fulfillment \<Rightarrow> bool" where
  "ownRecords i created f \<longleftrightarrow>
     f_id f = i \<and> f_createdAt f = created \<and> list_all (\<lambda>r. mr_FulfillmentID r = i) (f_pendingManifest f) \<and>
     list_all (\<lambda>r. prr_FulfillmentID r = i) (f_pendingPlacement f) \<and>
     list_all (\<lambda>r. ror_FulfillmentID r = i) (f_pendingRollout f)"

lemma op_ownRecords: "ownRecords i c f \<Longrightarrow> ownRecords i c (applyFulfillmentOp a f)"
  by (cases a) (auto simp: ownRecords_def fulfillment_ops)

interpretation fulfillment_identity: guarded_machine applyFulfillmentOp "ownRecords i c" for i c
  by unfold_locales (rule op_ownRecords)

section \<open>Properties\<close>

text \<open>
  C28: one transaction, one generation. Starting from a freshly loaded fulfillment, any sequence of
  operations moves the generation by exactly one (in 64-bit arithmetic) if at least one of them is
  an accepted user mutation, however many there are, and leaves it alone otherwise.
\<close>

theorem generation_advances_once_per_transaction:
  "f_generation (fold applyFulfillmentOp ops (FulfillmentFromSnapshot s)) =
     (if anyMutation ops (FulfillmentFromSnapshot s) then i64 (fs_Generation s + 1)
      else fs_Generation s)"
  using run_generation [of ops "FulfillmentFromSnapshot s"]
  by (simp add: FulfillmentFromSnapshot_def)

text \<open>
  What a transaction will flush. After any sequence of operations on a reloaded fulfillment,
  the buffered version records of each of the three strategies continue the stored version without
  a gap, the current version number is the last of them, and the newest record is the
  materialised strategy; draining hands exactly these records over and leaves the buffers empty.
\<close>

theorem pending_strategies_are_consecutive:
  "let f' = fold applyFulfillmentOp ops (reloaded f); drained = DrainPendingStrategyRecords f' in
   flushOK (f_manifestStrategyVersion f) (f_manifestStrategy f) (f_manifestStrategyVersion f') (f_manifestStrategy f')
     (map (\<lambda>r. (mr_Version r, mr_Spec r)) (pe_Manifest (fst drained))) \<and>
   flushOK (f_placementStrategyVersion f) (f_placementStrategy f) (f_placementStrategyVersion f') (f_placementStrategy f')
     (map (\<lambda>r. (prr_Version r, prr_Spec r)) (pe_Placement (fst drained))) \<and>
   flushOK (f_rolloutStrategyVersion f) (f_rolloutStrategy f) (f_rolloutStrategyVersion f') (f_rolloutStrategy f')
     (map (\<lambda>r. (ror_Version r, ror_Spec r)) (pe_Rollout (fst drained))) \<and>
   manifestFlush (snd drained) = [] \<and> placementFlush (snd drained) = [] \<and> rolloutFlush (snd drained) = []"
  using fulfillment.run_ok [OF reloaded_txOK [of f], of ops]
  by (simp add: Let_def txOK_def DrainPendingStrategyRecords_def flush_defs reloaded_def)

text \<open>
  Finishing a reconciliation. Applying a result and completing at generation \<open>g\<close> records
  \<open>g\<close> as observed, asks for a restart exactly when the stored generation is ahead of \<open>g\<close>, and
  frees the orchestration lock exactly when it does not; generation, strategies and provenance are
  untouched. A pausing result keeps the lifecycle state; any other result replaces it by the
  result's state whatever it was, and the credentials are replaced in both cases.
\<close>

theorem completion_exact:
  "let (restart, f') = CompleteReconciliation g now (ApplyReconciliationResult r f) in
   restart = (g < f_generation f) \<and> f_observedGeneration f' = g \<and>
   f_activeWorkflowGen f' = (if restart then f_activeWorkflowGen f else None) \<and>
   f_generation f' = f_generation f \<and> f_manifestStrategy f' = f_manifestStrategy f \<and>
   f_placementStrategy f' = f_placementStrategy f \<and> f_provenance f' = f_provenance f \<and>
   f_state f' = (if rr_PauseReason r = '''' then rr_State r else f_state f) \<and>
   f_pauseReason f' = rr_PauseReason r \<and> f_auth f' = rr_Auth r \<and>
   f_resolvedTargets f' = rr_ResolvedTargets r"
  by (simp add: fulfillment_ops)

text \<open>
  The orchestration lock. Whoever acquires it finds it held afterwards at the current
  generation, every further attempt fails and changes nothing, and it can be acquired again
  exactly after it was released or a reconciliation converged.
\<close>

theorem orchestration_lock_excludes:
  "let f' = snd (AcquireOrchestrationLock f) in
   f_activeWorkflowGen f' = (if fst (AcquireOrchestrationLock f) then Some (f_generation f)
                             else f_activeWorkflowGen f) \<and>
   AcquireOrchestrationLock f' = (False, f') \<and>
   fst (AcquireOrchestrationLock (ReleaseOrchestrationLock f')) \<and>
   fst (AcquireOrchestrationLock (snd (CompleteReconciliation g now f'))) = (f_generation f \<le> g)"
  by (simp add: fulfillment_ops)

text \<open>
  Resuming. It succeeds exactly for a paused fulfillment whose provenance, if it has one, is
  replaced; it then clears the pause, installs the new credentials and advances the generation so
  that a reconciliation is due. A refusal is \<^verbatim>\<open>ErrInvalidArgument\<close>.
\<close>

theorem resume_exact:
  "let allowed = (Paused f \<and> (if f_provenance f = None then True else prov \<noteq> None)) in
   case Resume auth prov f of
     Inl e \<Rightarrow> errorsIs e ErrInvalidArgument \<and> \<not> allowed
   | Inr f' \<Rightarrow> allowed \<and> \<not> Paused f' \<and> f_auth f' = auth \<and>
       f_provenance f' = (if prov = None then f_provenance f else prov) \<and>
       f_state f' = f_state f \<and> f_generation f' = i64 (f_loadedGeneration f + 1)"
  by (simp add: Resume_def Paused_def advanceGeneration_def Let_def)

end
