(* ===== verification/FS_Json.thy ===== *)
theory FS_Json
  imports FS_Errors
begin

text \<open>
  The part of Go's \<^verbatim>\<open>encoding/json\<close> the server relies on: documents as trees, the
  encoder with its string escaping (HTML-safe, as \<^verbatim>\<open>json.Marshal\<close> does it), a decoder
  for the full grammar, the compaction applied to an embedded \<^verbatim>\<open>json.RawMessage\<close>, and
  \<^verbatim>\<open>map[string]string\<close> values in both directions. Strings are byte strings; bytes from
  0x80 on are passed through, which is what the encoder does with valid UTF-8 other than U+2028
  and U+2029. The main lemma is that decoding an encoded document gives the document back.
\<close>

section \<open>Documents and their encoding\<close>

datatype json =
    JNull
  | JBool bool
  | JNumber string
  | JString string
  | JArray "json list"
  | JObject "(string \<times> json) list"

abbreviation dquote :: char where "dquote \<equiv> CHR 0x22"
abbreviation backslash :: char where "backslash \<equiv> CHR 0x5C"

definition code :: "char \<Rightarrow> nat" where
  "code c = of_char c"

definition hexDigit :: "nat \<Rightarrow> char" where
  "hexDigit n = (if n < 10 then char_of (48 + n) else char_of (87 + n))"

definition hexValue :: "char \<Rightarrow> nat option" where
  "hexValue c =
     (let n = code c in
      if 48 \<le> n \<and> n \<le> 57 then Some (n - 48)
      else if 97 \<le> n \<and> n \<le> 102 then Some (n - 87)
      else if 65 \<le> n \<and> n \<le> 70 then Some (n - 55)
      else None)"

text \<open>The two-character escapes.\<close>

definition shortEscape :: "char \<Rightarrow> char option" where
  "shortEscape c =
     (if c = dquote then Some dquote
      else if c = backslash then Some backslash
      else if code c = 8 then Some (CHR ''b'')
      else if code c = 12 then Some (CHR ''f'')
      else if code c = 10 then Some (CHR ''n'')
      else if code c = 13 then Some (CHR ''r'')
      else if code c = 9 then Some (CHR ''t'')
      else None)"

definition needsHex :: "char \<Rightarrow> bool" where
  "needsHex c = (code c < 32 \<or> c = CHR ''<'' \<or> c = CHR ''>'' \<or> c = CHR ''&'')"

definition hexEscapeOf :: "char \<Rightarrow> string" where
  "hexEscapeOf c = [backslash, CHR ''u'', CHR ''0'', CHR ''0'', hexDigit (code c div 16), hexDigit (code c mod 16)]"

definition escapeChar :: "char \<Rightarrow> string" where
  "escapeChar c =
     (case shortEscape c of
        Some e \<Rightarrow> [backslash, e]
      | None \<Rightarrow> if needsHex c then hexEscapeOf c else [c])"

definition encodeString :: "string \<Rightarrow> string" where
  "encodeString s = dquote # concat (map escapeChar s) @ [dquote]"

fun commaSep :: "string list \<Rightarrow> string" where
  "commaSep [] = []"
| "commaSep [x] = x"
| "commaSep (x # y # ys) = x @ CHR '','' # commaSep (y # ys)"

fun encodeJSON :: "json \<Rightarrow> string" where
  "encodeJSON JNull = ''null''"
| "encodeJSON (JBool b) = (if b then ''true'' else ''false'')"
| "encodeJSON (JNumber lit) = lit"
| "encodeJSON (JString s) = encodeString s"
| "encodeJSON (JArray xs) = CHR ''['' # commaSep (map encodeJSON xs) @ '']''"
| "encodeJSON (JObject ms) =
     CHR ''{'' # commaSep (map (\<lambda>(k, v). encodeString k @ CHR '':'' # encodeJSON v) ms) @ ''}''"

section \<open>Decoding\<close>

definition isSpace :: "char \<Rightarrow> bool" where
  "isSpace c = (code c = 32 \<or> code c = 9 \<or> code c = 10 \<or> code c = 13)"

definition skipWS :: "string \<Rightarrow> string" where
  "skipWS s = dropWhile isSpace s"

definition hex4 :: "string \<Rightarrow> nat option" where
  "hex4 s =
     (case s of
        a # b # c # d # _ \<Rightarrow>
          (case (hexValue a, hexValue b, hexValue c, hexValue d) of
             (Some w, Some x, Some y, Some z) \<Rightarrow> Some (((w * 16 + x) * 16 + y) * 16 + z)
           | _ \<Rightarrow> None)
      | _ \<Rightarrow> None)"

definition utf8 :: "nat \<Rightarrow> string" where
  "utf8 n =
     (if n < 128 then [char_of n]
      else if n < 2048 then [char_of (192 + n div 64), char_of (128 + n mod 64)]
      else if n < 65536 then [char_of (224 + n div 4096), char_of (128 + n div 64 mod 64), char_of (128 + n mod 64)]
      else [char_of (240 + n div 262144), char_of (128 + n div 4096 mod 64),
            char_of (128 + n div 64 mod 64), char_of (128 + n mod 64)])"

text \<open>
  The rest of a \<^verbatim>\<open>\uXXXX\<close> escape: a surrogate pair is combined, a lone surrogate is
  replaced by U+FFFD.
\<close>

definition unicodeEscape :: "string \<Rightarrow> (string \<times> string) option" where
  "unicodeEscape s =
     (case hex4 s of
        None \<Rightarrow> None
      | Some n \<Rightarrow>
          (let r = drop 4 s in
           if 55296 \<le> n \<and> n < 57344 then
             (case (if take 2 r = [backslash, CHR ''u''] then hex4 (drop 2 r) else None) of
                Some m \<Rightarrow>
                  if n < 56320 \<and> 56320 \<le> m \<and> m < 57344
                  then Some (utf8 ((n - 55296) * 1024 + (m - 56320) + 65536), drop 6 r)
                  else Some (utf8 65533, r)
              | None \<Rightarrow> Some (utf8 65533, r))
           else Some (utf8 n, r)))"

definition unescape :: "char \<Rightarrow> char option" where
  "unescape e =
     (if e = dquote then Some dquote
      else if e = backslash then Some backslash
      else if e = CHR ''/'' then Some (CHR ''/'')
      else if e = CHR ''b'' then Some (char_of (8::nat))
      else if e = CHR ''f'' then Some (char_of (12::nat))
      else if e = CHR ''n'' then Some (char_of (10::nat))
      else if e = CHR ''r'' then Some (char_of (13::nat))
      else if e = CHR ''t'' then Some (char_of (9::nat))
      else None)"

definition prepend :: "string \<Rightarrow> (string \<times> string) option \<Rightarrow> (string \<times> string) option" where
  "prepend p r = (case r of None \<Rightarrow> None | Some (s, t) \<Rightarrow> Some (p @ s, t))"

lemma unicodeEscape_length: "unicodeEscape s = Some (u, t) \<Longrightarrow> length t \<le> length s"
  by (auto simp: unicodeEscape_def Let_def split: option.splits if_splits)

text \<open>The characters of a string after its opening quote, and what follows the closing one.\<close>

function decodeChars :: "string \<Rightarrow> (string \<times> string) option" where
  "decodeChars [] = None"
| "decodeChars (c # cs) =
     (if c = dquote then Some ([], cs)
      else if c = backslash then
        (case cs of
           [] \<Rightarrow> None
         | e # r \<Rightarrow>
             if e = CHR ''u'' then
               (case unicodeEscape r of
                  None \<Rightarrow> None
                | Some (u, t) \<Rightarrow> prepend u (decodeChars t))
             else
               (case unescape e of
                  None \<Rightarrow> None
                | Some d \<Rightarrow> prepend [d] (decodeChars r)))
      else if code c < 32 then None
      else prepend [c] (decodeChars cs))"
  by pat_completeness auto
termination
  by (relation "measure length") (auto dest: unicodeEscape_length)

definition isNumberChar :: "char \<Rightarrow> bool" where
  "isNumberChar c = (48 \<le> code c \<and> code c \<le> 57 \<or> c \<in> {CHR ''-'', CHR ''+'', CHR ''.'', CHR ''e'', CHR ''E''})"

definition isDigit :: "char \<Rightarrow> bool" where
  "isDigit c = (48 \<le> code c \<and> code c \<le> 57)"

text \<open>\<^verbatim>\<open>-?(0|[1-9][0-9]*)(\.[0-9]+)?([eE][+-]?[0-9]+)?\<close>\<close>

definition validExp :: "string \<Rightarrow> bool" where
  "validExp s =
     (case s of
        [] \<Rightarrow> True
      | c # r \<Rightarrow>
          (c = CHR ''e'' \<or> c = CHR ''E'') \<and>
          (let ds = (case r of [] \<Rightarrow> [] | d # r' \<Rightarrow> if d = CHR ''+'' \<or> d = CHR ''-'' then r' else r)
           in ds \<noteq> [] \<and> list_all isDigit ds))"

definition validFrac :: "string \<Rightarrow> bool" where
  "validFrac s =
     (case s of
        [] \<Rightarrow> True
      | c # r \<Rightarrow>
          if c = CHR ''.'' then takeWhile isDigit r \<noteq> [] \<and> validExp (dropWhile isDigit r)
          else validExp s)"

definition validNumber :: "string \<Rightarrow> bool" where
  "validNumber s =
     (let t = (case s of [] \<Rightarrow> [] | c # r \<Rightarrow> if c = CHR ''-'' then r else s) in
      case t of
        [] \<Rightarrow> False
      | c # r \<Rightarrow>
          if c = CHR ''0'' then validFrac r
          else isDigit c \<and> validFrac (dropWhile isDigit r))"

definition decodeNumber :: "string \<Rightarrow> (json \<times> string) option" where
  "decodeNumber s =
     (let lit = takeWhile isNumberChar s in
      if validNumber lit then Some (JNumber lit, dropWhile isNumberChar s) else None)"

definition expect :: "char \<Rightarrow> string \<Rightarrow> string option" where
  "expect c s = (case skipWS s of [] \<Rightarrow> None | d # r \<Rightarrow> if d = c then Some r else None)"

definition keyword :: "string \<Rightarrow> json \<Rightarrow> string \<Rightarrow> (json \<times> string) option" where
  "keyword w j s = (if take (length w) s = w then Some (j, drop (length w) s) else None)"

text \<open>The fuel bounds the nesting and the number of elements; twice the length of the text is
  enough, because every two calls consume a character.\<close>

fun decodeValue :: "nat \<Rightarrow> string \<Rightarrow> (json \<times> string) option"
  and decodeElems :: "nat \<Rightarrow> string \<Rightarrow> (json list \<times> string) option"
  and decodeMembers :: "nat \<Rightarrow> string \<Rightarrow> ((string \<times> json) list \<times> string) option" where
  "decodeValue 0 s = None"
| "decodeValue (Suc n) s =
     (case skipWS s of
        [] \<Rightarrow> None
      | c # cs \<Rightarrow>
          if c = CHR ''{'' then
            (case expect (CHR ''}'') cs of
               Some r \<Rightarrow> Some (JObject [], r)
             | None \<Rightarrow> map_option (apfst JObject) (decodeMembers n cs))
          else if c = CHR ''['' then
            (case expect (CHR '']'') cs of
               Some r \<Rightarrow> Some (JArray [], r)
             | None \<Rightarrow> map_option (apfst JArray) (decodeElems n cs))
          else if c = dquote then map_option (apfst JString) (decodeChars cs)
          else if c = CHR ''t'' then keyword ''true'' (JBool True) (c # cs)
          else if c = CHR ''f'' then keyword ''false'' (JBool False) (c # cs)
          else if c = CHR ''n'' then keyword ''null'' JNull (c # cs)
          else decodeNumber (c # cs))"
| "decodeElems 0 s = None"
| "decodeElems (Suc n) s =
     (case decodeValue n s of
        None \<Rightarrow> None
      | Some (v, r) \<Rightarrow>
          (case expect (CHR '','') r of
             Some t \<Rightarrow> map_option (apfst ((#) v)) (decodeElems n t)
           | None \<Rightarrow> (case expect (CHR '']'') r of Some t \<Rightarrow> Some ([v], t) | None \<Rightarrow> None)))"
| "decodeMembers 0 s = None"
| "decodeMembers (Suc n) s =
     (case expect dquote s of
        None \<Rightarrow> None
      | Some cs \<Rightarrow>
          (case decodeChars cs of
             None \<Rightarrow> None
           | Some (k, r) \<Rightarrow>
               (case expect (CHR '':'') r of
                  None \<Rightarrow> None
                | Some r' \<Rightarrow>
                    (case decodeValue n r' of
                       None \<Rightarrow> None
                     | Some (v, r'') \<Rightarrow>
                         (case expect (CHR '','') r'' of
                            Some t \<Rightarrow> map_option (apfst ((#) (k, v))) (decodeMembers n t)
                          | None \<Rightarrow>
                              (case expect (CHR ''}'') r'' of
                                 Some t \<Rightarrow> Some ([(k, v)], t)
                               | None \<Rightarrow> None))))))"

definition decodeJSON :: "string \<Rightarrow> json option" where
  "decodeJSON s =
     (case decodeValue (2 * Suc (length s)) s of
        Some (j, r) \<Rightarrow> if skipWS r = [] then Some j else None
      | None \<Rightarrow> None)"

text \<open>
  The text an embedded \<^verbatim>\<open>json.RawMessage\<close> contributes: a nil message is
  \<^verbatim>\<open>null\<close>, anything else must be valid and is compacted (blanks outside strings dropped, the
  HTML characters escaped).
\<close>

fun compactFrom :: "bool \<Rightarrow> bool \<Rightarrow> string \<Rightarrow> string" where
  "compactFrom inStr esc [] = []"
| "compactFrom inStr esc (c # cs) =
     (if \<not> inStr \<and> isSpace c then compactFrom inStr esc cs
      else (if c \<in> {CHR ''<'', CHR ''>'', CHR ''&''} then hexEscapeOf c else [c]) @
        (if \<not> inStr then compactFrom (c = dquote) False cs
         else if esc then compactFrom True False cs
         else if c = backslash then compactFrom True True cs
         else compactFrom (c \<noteq> dquote) False cs))"

definition encodeRaw :: "bytes \<Rightarrow> string result" where
  "encodeRaw raw =
     (if raw = [] then Inr ''null''
      else case decodeJSON raw of
             None \<Rightarrow> Inl (Plain ''json: error calling MarshalJSON for type json.RawMessage'')
           | Some _ \<Rightarrow> Inr (compactFrom False False raw))"

section \<open>String maps\<close>

definition encodeStringMap :: "string_map \<Rightarrow> bytes" where
  "encodeStringMap m =
     encodeJSON (JObject (map (\<lambda>k. (k, JString (case fmlookup m k of Some v \<Rightarrow> v | None \<Rightarrow> '''')))
       (sorted_list_of_fset (fmdom m))))"

fun putMember :: "string \<times> json \<Rightarrow> string_map result \<Rightarrow> string_map result" where
  "putMember (k, JString v) (Inr m) = Inr (fmupd k v m)"
| "putMember (k, JNull) (Inr m) = Inr (fmupd k '''' m)"
| "putMember (k, _) (Inr m) = Inl (Plain ''json: cannot unmarshal value into Go value of type string'')"
| "putMember _ (Inl e) = Inl e"

definition decodeStringMap :: "bytes \<Rightarrow> string_map result" where
  "decodeStringMap raw =
     (case decodeJSON raw of
        None \<Rightarrow> Inl (Plain ''invalid character'')
      | Some (JObject ms) \<Rightarrow> fold putMember ms (Inr fmempty)
      | Some JNull \<Rightarrow> Inr fmempty
      | Some _ \<Rightarrow> Inl (Plain ''json: cannot unmarshal value into Go value of type map[string]string''))"

section \<open>Decoding inverts encoding\<close>

lemma code_lt [simp]: "code c < 256"
  by (simp add: code_def)

lemma char_of_code [simp]: "char_of (code c) = c"
  by (simp add: code_def)

lemma code_char_of [simp]: "n < 256 \<Longrightarrow> code (char_of n) = n"
  by (simp add: code_def)

lemma code_eqD: "code c = n \<Longrightarrow> c = char_of n"
  by (metis char_of_code)

lemma hexValue_hexDigit [simp]: "n < 16 \<Longrightarrow> hexValue (hexDigit n) = Some n"
  by (simp add: hexValue_def hexDigit_def)

lemma hexValue_zero [simp]: "hexValue (CHR ''0'') = Some 0"
  by (simp add: hexValue_def code_def)

lemma unicodeEscape_hex:
  assumes "code c < 128"
  shows "unicodeEscape (CHR ''0'' # CHR ''0'' # hexDigit (code c div 16) # hexDigit (code c mod 16) # t) = Some ([c], t)"
proof -
  have "hex4 (CHR ''0'' # CHR ''0'' # hexDigit (code c div 16) # hexDigit (code c mod 16) # t) = Some (code c)"
    using assms by (simp add: hex4_def)
  then show ?thesis using assms by (simp add: unicodeEscape_def utf8_def)
qed

lemma needsHex_code: "needsHex c \<Longrightarrow> code c < 128"
  by (auto simp: needsHex_def code_def)

lemma shortEscape_unescape: "shortEscape c = Some e \<Longrightarrow> unescape e = Some c \<and> e \<noteq> CHR ''u''"
  by (auto simp: shortEscape_def unescape_def dest: code_eqD split: if_splits)

lemma decodeChars_escapeChar: "decodeChars (escapeChar c @ t) = prepend [c] (decodeChars t)"
proof (cases "shortEscape c")
  case (Some e)
  then show ?thesis using shortEscape_unescape [OF Some] by (simp add: escapeChar_def)
next
  case None
  show ?thesis
  proof (cases "needsHex c")
    case True
    with None show ?thesis
      using unicodeEscape_hex [OF needsHex_code [OF True], of t] by (simp add: escapeChar_def hexEscapeOf_def)
  next
    case False
    with None have "c \<noteq> dquote" "c \<noteq> backslash" "\<not> code c < 32"
      by (auto simp: needsHex_def shortEscape_def split: if_splits)
    with None False show ?thesis by (simp add: escapeChar_def)
  qed
qed

lemma decodeChars_encoded: "decodeChars (concat (map escapeChar s) @ dquote # t) = Some (s, t)"
  by (induction s) (simp_all add: decodeChars_escapeChar prepend_def del: decodeChars.simps(2), simp)

fun jsonOK :: "json \<Rightarrow> bool" where
  "jsonOK (JNumber lit) = (validNumber lit \<and> list_all isNumberChar lit)"
| "jsonOK (JArray xs) = list_all jsonOK xs"
| "jsonOK (JObject ms) = list_all (\<lambda>m. jsonOK (snd m)) ms"
| "jsonOK _ = True"

text \<open>What may follow a value: nothing, or a character that cannot continue a number.\<close>

definition ends :: "string \<Rightarrow> bool" where
  "ends t = (case t of [] \<Rightarrow> True | c # _ \<Rightarrow> \<not> isNumberChar c)"

lemma skipWS_cons [simp]: "\<not> isSpace c \<Longrightarrow> skipWS (c # s) = c # s"
  by (simp add: skipWS_def)

lemma expect_cons [simp]: "\<not> isSpace c \<Longrightarrow> expect d (c # s) = (if c = d then Some s else None)"
  by (simp add: expect_def)

lemma not_space [simp]:
  "\<not> isSpace dquote" "\<not> isSpace (CHR '','')" "\<not> isSpace (CHR '':'')" "\<not> isSpace (CHR ''['')"
  "\<not> isSpace (CHR '']'')" "\<not> isSpace (CHR ''{'')" "\<not> isSpace (CHR ''}'')" "\<not> isSpace (CHR ''t'')"
  "\<not> isSpace (CHR ''f'')" "\<not> isSpace (CHR ''n'')"
  by (simp_all add: isSpace_def code_def)

lemma ends_cons [simp]:
  "ends (CHR '','' # t)" "ends (CHR '']'' # t)" "ends (CHR ''}'' # t)" "ends []"
  by (simp_all add: ends_def isNumberChar_def code_def)

lemma number_head:
  assumes "validNumber lit"
  obtains c r where "lit = c # r" "c = CHR ''-'' \<or> isDigit c"
  using assms by (cases lit) (auto simp: validNumber_def Let_def isDigit_def code_def split: if_splits)

lemma number_head_other:
  assumes "c = CHR ''-'' \<or> isDigit c"
  shows "\<not> isSpace c \<and> c \<noteq> CHR ''{'' \<and> c \<noteq> CHR ''['' \<and> c \<noteq> dquote \<and> c \<noteq> CHR ''t'' \<and> c \<noteq> CHR ''f'' \<and>
         c \<noteq> CHR ''n'' \<and> c \<noteq> CHR '']'' \<and> c \<noteq> CHR ''}''"
  using assms by (auto simp: isDigit_def isSpace_def code_def)

text \<open>
  \<open>spells j c\<close>: the text \<open>c\<close> is a spelling of the document \<open>j\<close>, whatever follows it.
\<close>

definition spells :: "json \<Rightarrow> string \<Rightarrow> bool" where
  "spells j c \<longleftrightarrow>
     c \<noteq> [] \<and> \<not> isSpace (hd c) \<and> hd c \<noteq> CHR '']'' \<and>
     (\<forall>n t. 2 * length c \<le> n \<longrightarrow> ends t \<longrightarrow> decodeValue n (c @ t) = Some (j, t))"

text \<open>The same for the characters of a string with its closing quote, and for a member.\<close>

definition spellsChars :: "string \<Rightarrow> string \<Rightarrow> bool" where
  "spellsChars u q \<longleftrightarrow> (\<forall>t. decodeChars (q @ t) = Some (u, t))"

definition spellsMember :: "string \<times> json \<Rightarrow> string \<Rightarrow> bool" where
  "spellsMember m c \<longleftrightarrow>
     (\<exists>q v. c = dquote # q @ CHR '':'' # v \<and> spellsChars (fst m) q \<and> spells (snd m) v)"

lemma spellsD: "spells j c \<Longrightarrow> 2 * length c \<le> n \<Longrightarrow> ends t \<Longrightarrow> decodeValue n (c @ t) = Some (j, t)"
  by (simp add: spells_def)

lemma spellsI:
  assumes "\<not> isSpace h" "h \<noteq> CHR '']''" "\<And>m t. 2 * length r < m \<Longrightarrow> ends t \<Longrightarrow> decodeValue (Suc m) (h # r @ t) = Some (j, t)"
  shows "spells j (h # r)"
  unfolding spells_def
proof (intro conjI allI impI)
  fix n t assume "2 * length (h # r) \<le> n" "ends t"
  then show "decodeValue n ((h # r) @ t) = Some (j, t)" using assms(3) [of "n - 1" t] by (cases n) auto
qed (use assms in auto)

lemma spellsChars_encoded: "spellsChars s (concat (map escapeChar s) @ [dquote])"
  by (simp add: spellsChars_def decodeChars_encoded)

lemma spells_string: "spellsChars s q \<Longrightarrow> spells (JString s) (dquote # q)"
  by (rule spellsI) (auto simp: spellsChars_def)

lemma spells_keywords:
  "spells JNull ''null''" "spells (JBool True) ''true''" "spells (JBool False) ''false''"
  by (rule spellsI; simp add: keyword_def)+

lemma takeWhile_ends: "list_all P lit \<Longrightarrow> (\<And>c r. t = c # r \<Longrightarrow> \<not> P c) \<Longrightarrow> takeWhile P (lit @ t) = lit \<and> dropWhile P (lit @ t) = t"
  by (cases t) (auto simp: list_all_iff takeWhile_append dropWhile_append)

lemma decode_number:
  assumes "jsonOK (JNumber lit)" "ends t"
  shows "decodeValue (Suc n) (lit @ t) = Some (JNumber lit, t)"
proof -
  obtain c r where lit: "lit = c # r" "c = CHR ''-'' \<or> isDigit c"
    using assms number_head by auto
  have tw: "takeWhile isNumberChar (lit @ t) = lit" "dropWhile isNumberChar (lit @ t) = t"
    using takeWhile_ends [of isNumberChar lit t] assms unfolding ends_def by (metis jsonOK.simps(1) list.case(2))+
  show ?thesis
    using number_head_other [OF lit(2)] tw assms by (simp add: lit decodeNumber_def)
qed

lemma spells_number: "jsonOK (JNumber lit) \<Longrightarrow> spells (JNumber lit) lit"
proof -
  assume ok: "jsonOK (JNumber lit)"
  then obtain c r where lit: "lit = c # r" "c = CHR ''-'' \<or> isDigit c"
    using number_head by auto
  show ?thesis
    unfolding lit(1)
    by (rule spellsI) (use number_head_other [OF lit(2)] decode_number [OF ok] lit in auto)
qed

lemma decode_elems:
  assumes "list_all2 spells xs cs" "xs \<noteq> []" "2 * length (commaSep cs) + 1 \<le> n"
  shows "decodeElems n (commaSep cs @ CHR '']'' # t) = Some (xs, t)"
  using assms
proof (induction xs cs arbitrary: n rule: list_all2_induct)
  case (Cons x xs c cs)
  then obtain m where n: "n = Suc m" by (cases n) auto
  show ?case
  proof (cases cs)
    case Nil
    then show ?thesis using spellsD [OF Cons.hyps(1), of m "CHR '']'' # t"] Cons by (simp add: n)
  next
    case (Cons d ds)
    have "decodeElems m (commaSep cs @ CHR '']'' # t) = Some (xs, t)"
      by (rule Cons.IH) (use Cons Cons.prems Cons.hyps n in auto)
    moreover have "decodeValue m (c @ CHR '','' # commaSep cs @ CHR '']'' # t)
        = Some (x, CHR '','' # commaSep cs @ CHR '']'' # t)"
      by (rule spellsD [OF Cons.hyps(1)]) (use Cons.prems Cons n in auto)
    ultimately show ?thesis by (simp add: n Cons)
  qed
qed simp

lemma spells_array:
  assumes "list_all2 spells xs cs"
  shows "spells (JArray xs) (CHR ''['' # commaSep cs @ '']'')"
proof (rule spellsI)
  fix m t assume m: "2 * length (commaSep cs @ '']'') < m"
  show "decodeValue (Suc m) (CHR ''['' # (commaSep cs @ '']'') @ t) = Some (JArray xs, t)"
  proof (cases xs)
    case Nil
    with assms show ?thesis by simp
  next
    case (Cons x ys)
    with assms obtain c ds where cs: "cs = c # ds" "spells x c" by (auto simp: list_all2_Cons1)
    then obtain h r where "commaSep cs = h # r" "\<not> isSpace h" "h \<noteq> CHR '']''"
      by (cases c; cases ds) (auto simp: spells_def)
    with decode_elems [OF assms, of m t] m Cons show ?thesis by simp
  qed
qed auto

lemma decode_one_member:
  assumes "spellsMember p c" "2 * length c \<le> n" "ends t"
  shows "decodeMembers (Suc n) (c @ t) =
    (case expect (CHR '','') t of
       Some u \<Rightarrow> map_option (apfst ((#) p)) (decodeMembers n u)
     | None \<Rightarrow> (case expect (CHR ''}'') t of Some u \<Rightarrow> Some ([p], u) | None \<Rightarrow> None))"
proof -
  obtain k j where p: "p = (k, j)" by (cases p)
  from assms(1) obtain q v where c: "c = dquote # q @ CHR '':'' # v" "spellsChars k q" "spells j v"
    by (auto simp: spellsMember_def p)
  from assms c have "decodeValue n (v @ t) = Some (j, t)" by (auto intro: spellsD)
  then show ?thesis using c unfolding p by (simp add: spellsChars_def)
qed

lemma decode_members:
  assumes "list_all2 spellsMember ms cs" "ms \<noteq> []" "2 * length (commaSep cs) + 1 \<le> n"
  shows "decodeMembers n (commaSep cs @ CHR ''}'' # t) = Some (ms, t)"
  using assms
proof (induction ms cs arbitrary: n rule: list_all2_induct)
  case (Cons p ms c cs)
  then obtain m where n: "n = Suc m" by (cases n) auto
  show ?case
  proof (cases cs)
    case Nil
    then show ?thesis using decode_one_member [OF Cons.hyps(1), of m "CHR ''}'' # t"] Cons by (simp add: n)
  next
    case (Cons d ds)
    have "decodeMembers m (commaSep cs @ CHR ''}'' # t) = Some (ms, t)"
      by (rule Cons.IH) (use Cons Cons.prems Cons.hyps n in auto)
    then show ?thesis
      using decode_one_member [OF Cons.hyps(1), of m "CHR '','' # commaSep cs @ CHR ''}'' # t"]
        Cons.prems by (simp add: n Cons)
  qed
qed simp

lemma spells_object:
  assumes "list_all2 spellsMember ms cs"
  shows "spells (JObject ms) (CHR ''{'' # commaSep cs @ ''}'')"
proof (rule spellsI)
  fix m t assume m: "2 * length (commaSep cs @ ''}'') < m"
  show "decodeValue (Suc m) (CHR ''{'' # (commaSep cs @ ''}'') @ t) = Some (JObject ms, t)"
  proof (cases ms)
    case Nil
    with assms show ?thesis by simp
  next
    case (Cons x ys)
    with assms obtain c ds where cs: "cs = c # ds" "spellsMember x c" by (auto simp: list_all2_Cons1)
    then obtain r where "commaSep cs = dquote # r"
      by (cases ds) (auto simp: spellsMember_def)
    with decode_members [OF assms, of m t] m Cons show ?thesis by simp
  qed
qed auto

lemma spells_encodeJSON: "jsonOK j \<Longrightarrow> spells j (encodeJSON j)"
proof (induction j)
  case (JArray xs)
  then have "list_all2 spells xs (map encodeJSON xs)"
    by (simp add: list_all2_map2 list_all_iff list_all2_same)
  then show ?case using spells_array by simp
next
  case (JObject ms)
  have "spellsMember m ((\<lambda>(k, v). encodeString k @ CHR '':'' # encodeJSON v) m)" if "m \<in> set ms" for m
  proof -
    have "spells (snd m) (encodeJSON (snd m))"
      using JObject.IH [of m "snd m"] JObject.prems that by (cases m) (auto simp: list_all_iff)
    then show ?thesis
      unfolding spellsMember_def
      by (intro exI [of _ "concat (map escapeChar (fst m)) @ [dquote]"] exI [of _ "encodeJSON (snd m)"])
        (auto simp: encodeString_def spellsChars_encoded split: prod.split)
  qed
  then have "list_all2 spellsMember ms (map (\<lambda>(k, v). encodeString k @ CHR '':'' # encodeJSON v) ms)"
    by (simp add: list_all2_map2 list_all2_same)
  then show ?case using spells_object by simp
qed (auto simp: spells_keywords [simplified] encodeString_def spells_string spellsChars_encoded intro: spells_number)

lemma decodeJSON_spells: "spells j c \<Longrightarrow> decodeJSON c = Some j"
  using spellsD [of j c "2 * Suc (length c)" "[]"]
  by (simp add: decodeJSON_def skipWS_def del: decodeValue.simps)

lemma decodeJSON_encodeJSON [simp]: "jsonOK j \<Longrightarrow> decodeJSON (encodeJSON j) = Some j"
  by (rule decodeJSON_spells) (rule spells_encodeJSON)

section \<open>Compaction keeps the document\<close>

text \<open>An escape \<^verbatim>\<open>\uXXXX\<close> of a low surrogate, the second half of a pair.\<close>

definition lowEscape :: "string \<Rightarrow> bool" where
  "lowEscape r =
     (take 2 r = [backslash, CHR ''u''] \<and>
      (case hex4 (drop 2 r) of Some m \<Rightarrow> 56320 \<le> m \<and> m < 57344 | None \<Rightarrow> False))"

lemma hex4_parts:
  assumes "hex4 s = Some n"
  shows "\<exists>p r. s = p @ r \<and> length p = 4 \<and> (\<forall>t. hex4 (p @ t) = Some n) \<and> list_all (\<lambda>e. hexValue e \<noteq> None) p"
proof -
  obtain a b c d r where "s = a # b # c # d # r"
    using assms by (auto simp: hex4_def split: list.splits)
  then show ?thesis using assms
    by (intro exI [of _ "[a, b, c, d]"] exI [of _ r]) (auto simp: hex4_def split: option.splits)
qed

lemma compact_hex:
  "list_all (\<lambda>e. hexValue e \<noteq> None) p \<Longrightarrow> compactFrom True False (p @ x) = p @ compactFrom True False x"
proof (induction p)
  case (Cons e p)
  then have "e \<notin> {CHR ''<'', CHR ''>'', CHR ''&'', backslash, dquote}"
    by (auto simp: hexValue_def code_def)
  with Cons show ?case by simp
qed simp

lemma unicodeEscape_eq:
  assumes "hex4 s = Some n"
  shows "unicodeEscape s =
    (if 55296 \<le> n \<and> n < 57344 then
       if n < 56320 \<and> lowEscape (drop 4 s)
       then Some (utf8 ((n - 55296) * 1024 + (the (hex4 (drop 6 s)) - 56320) + 65536), drop 10 s)
       else Some (utf8 65533, drop 4 s)
     else Some (utf8 n, drop 4 s))"
  using assms by (auto simp: unicodeEscape_def lowEscape_def Let_def split: option.splits)

text \<open>What an escape consumes is copied, and it is read the same before another rest.\<close>

lemma compact_escape:
  assumes "unicodeEscape r = Some (u, t)"
  shows "\<exists>p. r = p @ t \<and> 4 \<le> length p \<and> (\<forall>x. compactFrom True False (p @ x) = p @ compactFrom True False x) \<and>
     (\<forall>x. lowEscape x = lowEscape t \<longrightarrow> unicodeEscape (p @ x) = Some (u, x))"
proof -
  from assms obtain n where n: "hex4 r = Some n" by (auto simp: unicodeEscape_def split: option.splits)
  then obtain p r' where r: "r = p @ r'" "length p = 4"
    and hex: "\<And>t. hex4 (p @ t) = Some n" "list_all (\<lambda>e. hexValue e \<noteq> None) p"
    using hex4_parts by blast
  show ?thesis
  proof (cases "55296 \<le> n \<and> n < 56320 \<and> lowEscape r'")
    case False
    then have t: "t = r'" using assms unicodeEscape_eq [OF n] by (auto simp: r split: if_splits)
    have "unicodeEscape (p @ x) = Some (u, x)" if "lowEscape x = lowEscape t" for x
      using unicodeEscape_eq [OF hex(1) [of x]] unicodeEscape_eq [OF n] assms False that
      by (auto simp: r t split: if_splits)
    then show ?thesis using r t compact_hex [OF hex(2)] by auto
  next
    case True
    then obtain m where m: "take 2 r' = [backslash, CHR ''u'']" "hex4 (drop 2 r') = Some m" "56320 \<le> m" "m < 57344"
      by (auto simp: lowEscape_def split: option.splits)
    then obtain q r'' where low: "drop 2 r' = q @ r''" "length q = 4"
      and hex': "\<And>t. hex4 (q @ t) = Some m" "list_all (\<lambda>e. hexValue e \<noteq> None) q"
      using hex4_parts by blast
    have r': "r' = [backslash, CHR ''u''] @ q @ r''"
      using m(1) low(1) by (metis append_take_drop_id)
    let ?p = "p @ [backslash, CHR ''u''] @ q"
    have esc: "lowEscape ([backslash, CHR ''u''] @ q @ x)" for x
      using hex'(1) m by (simp add: lowEscape_def)
    have eq: "unicodeEscape (?p @ x) = Some (utf8 ((n - 55296) * 1024 + (m - 56320) + 65536), x)" for x
      using unicodeEscape_eq [OF hex(1) [of "[backslash, CHR ''u''] @ q @ x"]] True esc [of x] hex'(1) r(2) low(2) by simp
    moreover have "u = utf8 ((n - 55296) * 1024 + (m - 56320) + 65536)" "t = r''"
      using eq [of r''] assms r r' by auto
    moreover have "compactFrom True False (?p @ x) = ?p @ compactFrom True False x" for x
      using compact_hex [OF hex(2)] compact_hex [OF hex'(2)] by simp
    ultimately show ?thesis using r r' by (intro exI [of _ ?p]) simp
  qed
qed

lemma hex4_prefix: "4 \<le> length p \<Longrightarrow> hex4 (p @ x) = hex4 (p @ y)"
proof -
  assume "4 \<le> length p"
  then obtain a b c d q where "p = a # b # c # d # q"
    by (auto simp: Suc_le_length_iff numeral_eq_Suc)
  then show ?thesis by (simp add: hex4_def)
qed

lemma lowEscape_no: "c \<noteq> backslash \<or> e \<noteq> CHR ''u'' \<Longrightarrow> \<not> lowEscape (c # e # cs)" "c \<noteq> backslash \<Longrightarrow> \<not> lowEscape (c # cs)"
  by (auto simp: lowEscape_def)

lemma lowEscape_hexEscape: "needsHex c \<Longrightarrow> \<not> lowEscape (hexEscapeOf c @ t)"
proof -
  assume "needsHex c"
  then have "code c < 128" by (rule needsHex_code)
  then have "hex4 (drop 2 (hexEscapeOf c @ t)) = Some (code c)"
    by (simp add: hexEscapeOf_def hex4_def)
  with \<open>code c < 128\<close> show ?thesis by (simp add: lowEscape_def)
qed

lemma decodeChars_hexEscape: "needsHex c \<Longrightarrow> decodeChars (hexEscapeOf c @ t) = prepend [c] (decodeChars t)"
  using unicodeEscape_hex [OF needsHex_code] by (simp add: hexEscapeOf_def)

lemma compact_chars:
  "decodeChars s = Some (u, r) \<Longrightarrow>
   \<exists>q. compactFrom True False s = q @ compactFrom False False r \<and> spellsChars u q \<and>
       (\<forall>t. lowEscape (q @ t) = lowEscape s)"
proof (induction s arbitrary: u rule: decodeChars.induct)
  case (2 c cs)
  consider (quote) "c = dquote" | (escape) "c = backslash" | (plain) "c \<noteq> dquote" "c \<noteq> backslash" by blast
  then show ?case
  proof cases
    case quote
    with "2.prems" show ?thesis
      by (intro exI [of _ "[dquote]"]) (auto simp: spellsChars_def lowEscape_no)
  next
    case escape
    with "2.prems" obtain e cs' where cs: "cs = e # cs'" by (cases cs) auto
    show ?thesis
    proof (cases "e = CHR ''u''")
      case True
      with "2.prems" escape cs obtain v t u' where v: "unicodeEscape cs' = Some (v, t)"
        and t: "decodeChars t = Some (u', r)" and u: "u = v @ u'"
        by (auto simp: prepend_def split: option.splits)
      obtain q where q: "compactFrom True False t = q @ compactFrom False False r" "spellsChars u' q"
          "\<And>x. lowEscape (q @ x) = lowEscape t"
        using "2.IH"(1) [OF _ escape cs True v refl t] escape by auto
      obtain p where p: "cs' = p @ t" "4 \<le> length p" "\<And>x. compactFrom True False (p @ x) = p @ compactFrom True False x"
          "\<And>x. lowEscape x = lowEscape t \<Longrightarrow> unicodeEscape (p @ x) = Some (v, x)"
        using compact_escape [OF v] by blast
      have "hex4 (p @ q @ x) = hex4 (p @ t)" for x by (rule hex4_prefix [OF p(2)])
      then show ?thesis
        using p q escape cs True u
        by (intro exI [of _ "backslash # CHR ''u'' # p @ q"]) (auto simp: spellsChars_def prepend_def lowEscape_def)
    next
      case False
      with "2.prems" escape cs obtain d u' where d: "unescape e = Some d"
        and t: "decodeChars cs' = Some (u', r)" and u: "u = d # u'"
        by (auto simp: prepend_def split: option.splits)
      obtain q where q: "compactFrom True False cs' = q @ compactFrom False False r" "spellsChars u' q"
        using "2.IH"(2) [OF _ escape cs False d t] escape by auto
      have "e \<notin> {CHR ''<'', CHR ''>'', CHR ''&''}" using d by (auto simp: unescape_def)
      then show ?thesis
        using q escape cs False u d
        by (intro exI [of _ "backslash # e # q"]) (auto simp: spellsChars_def prepend_def lowEscape_no)
    qed
  next
    case plain
    with "2.prems" obtain u' where t: "decodeChars cs = Some (u', r)" and u: "u = c # u'" and big: "\<not> code c < 32"
      by (auto simp: prepend_def split: option.splits if_splits)
    obtain q where q: "compactFrom True False cs = q @ compactFrom False False r" "spellsChars u' q"
      using "2.IH"(3) [OF plain big t] by auto
    show ?thesis
    proof (cases "c \<in> {CHR ''<'', CHR ''>'', CHR ''&''}")
      case True
      then have hex: "needsHex c" by (auto simp: needsHex_def)
      show ?thesis
        using q True plain u lowEscape_hexEscape [OF hex] decodeChars_hexEscape [OF hex]
        by (intro exI [of _ "hexEscapeOf c @ q"]) (auto simp: spellsChars_def prepend_def lowEscape_no)
    next
      case False
      then show ?thesis
        using q plain u big
        by (intro exI [of _ "c # q"]) (auto simp: spellsChars_def prepend_def lowEscape_no)
    qed
  qed
qed simp

abbreviation compact :: "string \<Rightarrow> string" where
  "compact \<equiv> compactFrom False False"

lemma compact_skipWS: "compact (skipWS s) = compact s"
  by (induction s) (auto simp: skipWS_def)

lemma compact_token:
  "skipWS s = c # cs \<Longrightarrow> c \<notin> {CHR ''<'', CHR ''>'', CHR ''&''} \<Longrightarrow> compact s = c # compactFrom (c = dquote) False cs"
proof -
  assume s: "skipWS s = c # cs" "c \<notin> {CHR ''<'', CHR ''>'', CHR ''&''}"
  then have "\<not> isSpace c" unfolding skipWS_def by (metis hd_dropWhile list.distinct(1) list.sel(1))
  with s show ?thesis using compact_skipWS [of s] by simp
qed

lemma compact_expect:
  assumes "expect c s = Some r" "c \<notin> {CHR ''<'', CHR ''>'', CHR ''&'', dquote}"
  shows "compact s = c # compact r"
  using assms compact_token [of s c r] by (auto simp: expect_def split: list.splits if_splits)

lemma compact_keyword:
  assumes "keyword w j s = Some (j', r)" "list_all (\<lambda>c. \<not> isSpace c \<and> c \<notin> {CHR ''<'', CHR ''>'', CHR ''&'', dquote}) w"
  shows "compact s = w @ compact r \<and> j' = j"
proof -
  from assms(1) have "take (length w) s = w" "r = drop (length w) s" "j' = j"
    by (auto simp: keyword_def split: if_splits)
  then have "s = w @ r" "j' = j" using append_take_drop_id [of "length w" s] by simp_all
  moreover have "compact (w @ r) = w @ compact r" using assms(2) by (induction w) auto
  ultimately show ?thesis by simp
qed

lemma compact_number:
  assumes "decodeNumber s = Some (j, r)"
  shows "\<exists>c. spells j c \<and> compact s = c @ compact r"
proof -
  let ?lit = "takeWhile isNumberChar s"
  from assms have j: "j = JNumber ?lit" "r = dropWhile isNumberChar s" "validNumber ?lit"
    by (auto simp: decodeNumber_def Let_def split: if_splits)
  have num: "list_all isNumberChar ?lit" by (auto simp: list_all_iff dest: set_takeWhileD)
  have plain: "\<not> isSpace c" "c \<notin> {CHR ''<'', CHR ''>'', CHR ''&'', dquote}" if "isNumberChar c" for c
    using that by (auto simp: isNumberChar_def isSpace_def code_def)
  have "compact (lit @ t) = lit @ compact t" if "list_all isNumberChar lit" for lit t
    using that plain by (induction lit) auto
  from this [OF num, of r] have "compact s = ?lit @ compact r" using j(2) by simp
  moreover have "spells j ?lit" using spells_number num j by simp
  ultimately show ?thesis by blast
qed

lemma compact_decoded:
  "decodeValue n s = Some (j, r) \<Longrightarrow> \<exists>c. spells j c \<and> compact s = c @ compact r"
  "decodeElems n s = Some (vs, r) \<Longrightarrow> \<exists>cs. list_all2 spells vs cs \<and> cs \<noteq> [] \<and> compact s = commaSep cs @ CHR '']'' # compact r"
  "decodeMembers n s = Some (ms, r) \<Longrightarrow>
     \<exists>cs. list_all2 spellsMember ms cs \<and> cs \<noteq> [] \<and> compact s = commaSep cs @ CHR ''}'' # compact r"
proof (induction n s and n s and n s arbitrary: j r and vs r and ms r
    rule: decodeValue_decodeElems_decodeMembers.induct)
  case (2 n s)
  then obtain c cs where s: "skipWS s = c # cs" by (cases "skipWS s") auto
  note token = compact_token [OF s]
  consider (obj) "c = CHR ''{''" | (arr) "c = CHR ''[''" | (str) "c = dquote" | (t) "c = CHR ''t''"
    | (f) "c = CHR ''f''" | (null) "c = CHR ''n''"
    | (num) "c \<noteq> CHR ''{''" "c \<noteq> CHR ''[''" "c \<noteq> dquote" "c \<noteq> CHR ''t''" "c \<noteq> CHR ''f''" "c \<noteq> CHR ''n''"
    by blast
  then show ?case
  proof cases
    case obj
    show ?thesis
    proof (cases "expect (CHR ''}'') cs")
      case None
      with 2 s obj obtain ms where ms: "decodeMembers n cs = Some (ms, r)" "j = JObject ms"
        by auto
      then obtain ds where "list_all2 spellsMember ms ds" "compact cs = commaSep ds @ CHR ''}'' # compact r"
        using "2.IH"(1) [OF s obj None ms(1)] by blast
      then show ?thesis using spells_object token obj ms
        by (intro exI [of _ "CHR ''{'' # commaSep ds @ ''}''"]) simp
    next
      case (Some t)
      with 2 s obj have "t = r" "j = JObject []" by auto
      then show ?thesis using Some token obj compact_expect [OF Some] spells_object [of "[]" "[]"]
        by (intro exI [of _ "''{}''"]) simp
    qed
  next
    case arr
    show ?thesis
    proof (cases "expect (CHR '']'') cs")
      case None
      with 2 s arr obtain vs where vs: "decodeElems n cs = Some (vs, r)" "j = JArray vs"
        by auto
      then obtain ds where "list_all2 spells vs ds" "compact cs = commaSep ds @ CHR '']'' # compact r"
        using "2.IH"(2) [OF s _ arr None vs(1)] arr by auto
      then show ?thesis using spells_array token arr vs
        by (intro exI [of _ "CHR ''['' # commaSep ds @ '']''"]) simp
    next
      case (Some t)
      with 2 s arr have "t = r" "j = JArray []" by auto
      then show ?thesis using Some token arr compact_expect [OF Some] spells_array [of "[]" "[]"]
        by (intro exI [of _ "''[]''"]) simp
    qed
  next
    case str
    with 2 s obtain u where "decodeChars cs = Some (u, r)" "j = JString u" by auto
    moreover from this obtain q where "compactFrom True False cs = q @ compact r" "spellsChars u q"
      using compact_chars by blast
    ultimately show ?thesis using token str spells_string by (intro exI [of _ "dquote # q"]) simp
  next
    case t
    with 2 s have "keyword ''true'' (JBool True) (skipWS s) = Some (j, r)" by simp
    from compact_keyword [OF this] show ?thesis
      using spells_keywords by (auto simp: compact_skipWS isSpace_def code_def)
  next
    case f
    with 2 s have "keyword ''false'' (JBool False) (skipWS s) = Some (j, r)" by simp
    from compact_keyword [OF this] show ?thesis
      using spells_keywords by (auto simp: compact_skipWS isSpace_def code_def)
  next
    case null
    with 2 s have "keyword ''null'' JNull (skipWS s) = Some (j, r)" by simp
    from compact_keyword [OF this] show ?thesis
      using spells_keywords by (auto simp: compact_skipWS isSpace_def code_def)
  next
    case num
    with 2 s have "decodeNumber (skipWS s) = Some (j, r)" by simp
    from compact_number [OF this] show ?thesis by (simp add: compact_skipWS)
  qed
next
  case (4 n s)
  then obtain v t where v: "decodeValue n s = Some (v, t)" by (auto split: option.splits)
  from "4.IH"(1) [OF v] obtain c where c: "spells v c" "compact s = c @ compact t" by blast
  show ?case
  proof (cases "expect (CHR '','') t")
    case (Some u)
    with 4 v obtain ws where ws: "decodeElems n u = Some (ws, r)" "vs = v # ws" by auto
    from "4.IH"(2) [OF v refl Some ws(1)] obtain cs
      where cs: "list_all2 spells ws cs" "cs \<noteq> []" "compact u = commaSep cs @ CHR '']'' # compact r" by blast
    then show ?thesis using c compact_expect [OF Some] ws
      by (intro exI [of _ "c # cs"]) (cases cs; auto)
  next
    case None
    with 4 v have "expect (CHR '']'') t = Some r" "vs = [v]" by (auto split: option.splits)
    then show ?thesis using c compact_expect [of "CHR '']''" t r] by (intro exI [of _ "[c]"]) auto
  qed
next
  case (6 n s)
  then obtain cs0 where q0: "expect dquote s = Some cs0" by (auto split: option.splits)
  with 6 obtain k t where k: "decodeChars cs0 = Some (k, t)" by (auto split: option.splits)
  with 6 q0 obtain t' where colon: "expect (CHR '':'') t = Some t'" by (auto split: option.splits)
  with 6 q0 k obtain v x where v: "decodeValue n t' = Some (v, x)" by (auto split: option.splits)
  from "6.IH"(1) [OF q0 k refl colon v] obtain c where c: "spells v c" "compact t' = c @ compact x" by blast
  obtain q where q: "compactFrom True False cs0 = q @ compact t" "spellsChars k q"
    using compact_chars [OF k] by blast
  have "compact s = dquote # q @ CHR '':'' # c @ compact x"
    using compact_token [of s dquote cs0] q0 q c compact_expect [OF colon]
    by (auto simp: expect_def split: list.splits if_splits)
  moreover have "spellsMember (k, v) (dquote # q @ CHR '':'' # c)"
    using q c by (auto simp: spellsMember_def)
  moreover define m where "m = dquote # q @ CHR '':'' # c"
  ultimately have m: "spellsMember (k, v) m" "compact s = m @ compact x" by simp_all
  show ?case
  proof (cases "expect (CHR '','') x")
    case (Some y)
    with 6 q0 k colon v obtain ws where ws: "decodeMembers n y = Some (ws, r)" "ms = (k, v) # ws" by auto
    from "6.IH"(2) [OF q0 k refl colon v refl Some ws(1)] obtain cs
      where cs: "list_all2 spellsMember ws cs" "cs \<noteq> []" "compact y = commaSep cs @ CHR ''}'' # compact r" by blast
    then show ?thesis using m compact_expect [OF Some] ws
      by (intro exI [of _ "m # cs"]) (cases cs; auto)
  next
    case None
    with 6 q0 k colon v have "expect (CHR ''}'') x = Some r" "ms = [(k, v)]" by (auto split: option.splits)
    then show ?thesis using m compact_expect [of "CHR ''}''" x r] by (intro exI [of _ "[m]"]) auto
  qed
qed simp_all

text \<open>The text embedded for a valid raw message is a spelling of its document.\<close>

lemma encodeRaw_spells:
  assumes "encodeRaw raw = Inr c"
  shows "spells (if raw = [] then JNull else the (decodeJSON raw)) c"
proof (cases "raw = []")
  case True
  with assms show ?thesis using spells_keywords(1) by (simp add: encodeRaw_def)
next
  case False
  with assms obtain j where j: "decodeJSON raw = Some j" "c = compact raw"
    by (auto simp: encodeRaw_def split: option.splits)
  then obtain r where r: "decodeValue (2 * Suc (length raw)) raw = Some (j, r)" "skipWS r = []"
    by (auto simp: decodeJSON_def simp del: decodeValue.simps split: option.splits if_splits)
  obtain c' where "spells j c'" "compact raw = c' @ compact r"
    using compact_decoded(1) [OF r(1)] by blast
  moreover have "compact r = []" using r(2) compact_skipWS [of r] by simp
  ultimately show ?thesis using False j by simp
qed

section \<open>String maps round trip\<close>

lemma fold_putMember:
  "fold putMember (map (\<lambda>k. (k, JString (v k))) ks) (Inr m) = Inr (fold (\<lambda>k. fmupd k (v k)) ks m)"
  by (induction ks arbitrary: m) simp_all

lemma fmlookup_fold_upd:
  "fmlookup (fold (\<lambda>k. fmupd k (v k)) ks m) k = (if k \<in> set ks then Some (v k) else fmlookup m k)"
  by (induction ks arbitrary: m) auto

lemma decodeStringMap_encode [simp]: "decodeStringMap (encodeStringMap m) = Inr m"
proof -
  let ?v = "\<lambda>k. case fmlookup m k of Some v \<Rightarrow> v | None \<Rightarrow> ''''"
  let ?ks = "sorted_list_of_fset (fmdom m)"
  have ok: "jsonOK (JObject (map (\<lambda>k. (k, JString (?v k))) ?ks))"
    by (simp add: list_all_iff)
  have "fold (\<lambda>k. fmupd k (?v k)) ?ks fmempty = m"
    by (rule fmap_ext) (auto simp: fmlookup_fold_upd fmlookup_dom_iff split: option.splits)
  then show ?thesis
    unfolding decodeStringMap_def encodeStringMap_def decodeJSON_encodeJSON [OF ok]
    using fold_putMember [of ?v ?ks fmempty] by simp
qed

end
