(* ===== verification/FS_Store.thy ===== *)
theory FS_Store
  imports FS_Fulfillment FS_Json FS_Aliases
begin

text \<open>
  The repositories of the SQLite store
  (\<^verbatim>\<open>server/internal/infrastructure/sqlite/\<close>: \<^verbatim>\<open>delivery_record_repo.go\<close>,
  \<^verbatim>\<open>target_repo.go\<close>, \<^verbatim>\<open>inventory_repo.go\<close>, \<^verbatim>\<open>fulfillment_repo.go\<close>,
  \<^verbatim>\<open>deployment_repo.go\<close>, \<^verbatim>\<open>signer_enrollment_repo.go\<close>,
  \<^verbatim>\<open>vault.go\<close> and the parts of \<^verbatim>\<open>extension_resource_repo.go\<close> the delivery pipeline
  reads) as functions on a record of tables, with the primary keys, the unique and foreign keys
  and the upsert clauses of the schema. A table is the list of its rows in insertion order. Text
  columns that hold JSON are the value they encode; timestamps are cut to whole seconds on the
  way in, as the RFC 3339 columns do. The properties are the get-after-put laws, stated as the
  interface \<open>keyed_store\<close> that the orchestration proofs use, and that a saved fulfillment is
  read back with the strategies it was saved with.
\<close>

section \<open>The keyed-store interface\<close>

text \<open>
  What a client of a repository relies on: reading a key after a write returns the stored form of
  the row just written (which may depend on the row it replaced), and other keys are not affected.
\<close>

locale keyed_store =
  fixes get :: "'k \<Rightarrow> 'db \<Rightarrow> 'r option"
    and put :: "'r \<Rightarrow> 'db \<Rightarrow> 'db"
    and key :: "'r \<Rightarrow> 'k"
    and stored :: "'r option \<Rightarrow> 'r \<Rightarrow> 'r"
  assumes get_put: "get k (put r s) = (if k = key r then Some (stored (get k s) r) else get k s)"
    and key_stored: "key (stored old r) = key r"
begin

lemma get_put_same [simp]: "get (key r) (put r s) = Some (stored (get (key r) s) r)"
  by (simp add: get_put)

lemma get_put_other: "k \<noteq> key r \<Longrightarrow> get k (put r s) = get k s"
  by (simp add: get_put)

lemma get_puts_other: "k \<notin> key ` set rs \<Longrightarrow> get k (fold put rs s) = get k s"
  by (induction rs arbitrary: s) (auto simp: get_put)

lemma get_puts_present: "get k (fold put rs s) \<noteq> None \<longleftrightarrow> k \<in> key ` set rs \<or> get k s \<noteq> None"
  by (induction rs arbitrary: s) (auto simp: get_put split: if_splits)

end

locale keyed_store_del = keyed_store get put key stored
  for get :: "'k \<Rightarrow> 'db \<Rightarrow> 'r option" and put :: "'r \<Rightarrow> 'db \<Rightarrow> 'db"
    and key :: "'r \<Rightarrow> 'k" and stored :: "'r option \<Rightarrow> 'r \<Rightarrow> 'r" +
  fixes del :: "'k \<Rightarrow> 'db \<Rightarrow> 'db"
  assumes get_del: "get k (del k' s) = (if k = k' then None else get k s)"
begin

lemma get_dels: "get k (fold del ks s) = (if k \<in> set ks then None else get k s)"
  by (induction ks arbitrary: s) (auto simp: get_del)

lemma get_del_put: "get k (del (key r) (put r s)) = get k (del (key r) s)"
  by (simp add: get_del get_put)

end

section \<open>Tables\<close>

definition getRow :: "('r \<Rightarrow> 'k) \<Rightarrow> 'k \<Rightarrow> 'r list \<Rightarrow> 'r option" where
  "getRow key k rows = find (\<lambda>r. key r = k) rows"

text \<open>\<^verbatim>\<open>INSERT ... ON CONFLICT (key) DO UPDATE\<close>; \<open>merge\<close> is the update clause.\<close>

definition upsertRow :: "('r \<Rightarrow> 'k) \<Rightarrow> ('r \<Rightarrow> 'r \<Rightarrow> 'r) \<Rightarrow> 'r \<Rightarrow> 'r list \<Rightarrow> 'r list" where
  "upsertRow key merge r rows =
     (if getRow key (key r) rows = None then rows @ [r]
      else map (\<lambda>x. if key x = key r then merge x r else x) rows)"

definition deleteRow :: "('r \<Rightarrow> 'k) \<Rightarrow> 'k \<Rightarrow> 'r list \<Rightarrow> 'r list" where
  "deleteRow key k rows = filter (\<lambda>r. key r \<noteq> k) rows"

lemma getRow_simps [simp]:
  "getRow key k [] = None"
  "getRow key k (x # xs) = (if key x = k then Some x else getRow key k xs)"
  by (simp_all add: getRow_def)

lemma getRow_None: "getRow key k rows = None \<longleftrightarrow> k \<notin> key ` set rows"
  by (auto simp: getRow_def find_None_iff)

lemma getRow_Some: "getRow key k rows = Some r \<Longrightarrow> r \<in> set rows \<and> key r = k"
  by (induction rows) (auto simp: getRow_def split: if_splits)

lemma deleteRow_missing: "getRow key k rows = None \<Longrightarrow> deleteRow key k rows = rows"
  unfolding deleteRow_def by (rule filter_True) (auto simp: getRow_None)

lemma getRow_member: "distinct (map key rows) \<Longrightarrow> r \<in> set rows \<Longrightarrow> getRow key (key r) rows = Some r"
  by (induction rows) (auto simp: getRow_def)

lemma getRow_append:
  "getRow key k (xs @ ys) = (case getRow key k xs of Some r \<Rightarrow> Some r | None \<Rightarrow> getRow key k ys)"
  by (induction xs) (auto simp: getRow_def)

lemma getRow_map:
  assumes "\<And>x. key (f x) = key x"
  shows "getRow key k (map f rows) = map_option f (getRow key k rows)"
  using assms by (induction rows) (auto simp: getRow_def)

lemma getRow_upsert:
  assumes "\<And>x. key x = key r \<Longrightarrow> key (merge x r) = key r"
  shows "getRow key k (upsertRow key merge r rows) =
    (if k = key r then Some (case getRow key k rows of None \<Rightarrow> r | Some old \<Rightarrow> merge old r)
     else getRow key k rows)"
proof (cases "getRow key (key r) rows")
  case None
  then show ?thesis
    by (simp add: upsertRow_def getRow_append split: option.splits)
next
  case (Some old)
  let ?f = "\<lambda>x. if key x = key r then merge x r else x"
  have "getRow key k (map ?f rows) = map_option ?f (getRow key k rows)"
    by (rule getRow_map) (simp add: assms)
  with Some show ?thesis
    by (cases "getRow key k rows") (auto simp: upsertRow_def dest: getRow_Some)
qed

lemma getRow_delete: "getRow key k (deleteRow key k' rows) = (if k = k' then None else getRow key k rows)"
  by (induction rows) (auto simp: getRow_def deleteRow_def)

section \<open>The schema\<close>

text \<open>Nanoseconds cut to seconds by the \<^verbatim>\<open>time.RFC3339\<close> layout.\<close>

definition storedTime :: "go_time \<Rightarrow> go_time" where
  "storedTime t = t div 1000000000 * 1000000000"

lemma storedTime_idem [simp]: "storedTime (storedTime t) = storedTime t"
  by (simp add: storedTime_def)

record InventoryItem =
  ii_id :: string
  ii_type :: string
  ii_name :: string
  ii_properties :: bytes
  ii_labels :: string_map
  ii_sourceDeliveryID :: "DeliveryID option"
  ii_createdAt :: go_time
  ii_updatedAt :: go_time

definition NewInventoryItem ::
  "string \<Rightarrow> string \<Rightarrow> string \<Rightarrow> bytes \<Rightarrow> string_map \<Rightarrow> DeliveryID option \<Rightarrow> go_time \<Rightarrow> InventoryItem" where
  "NewInventoryItem i ty name props labels src now =
     \<lparr>ii_id = i, ii_type = ty, ii_name = name, ii_properties = props, ii_labels = labels,
      ii_sourceDeliveryID = src, ii_createdAt = now, ii_updatedAt = now\<rparr>"

record ManagementType =
  mt_relation :: FulfillmentRelation
  mt_signature :: Signature

record ExtensionResourceType =
  et_resourceType :: ResourceType
  et_apiVersion :: APIVersion
  et_collectionID :: CollectionID
  et_management :: "ManagementType option"
  et_inventory :: bool
  et_createdAt :: go_time
  et_updatedAt :: go_time

record ManagedState =
  mgd_currentVersion :: IntentVersion
  mgd_fulfillmentID :: FulfillmentID

record Condition =
  cd_type :: string
  cd_status :: string
  cd_reason :: string
  cd_message :: string
  cd_lastTransitionTime :: go_time

record InventoryResource =
  iv_labels :: string_map
  iv_observation :: "bytes option"
  iv_conditions :: "Condition list"
  iv_observedAt :: go_time
  iv_updatedAt :: go_time

text \<open>
  The instance row, joined with its rows in the tables of managed and inventory state, which hang on
  the same identifier and are deleted with it.
\<close>

record ExtensionResource =
  er_uid :: ExtensionResourceUID
  er_resourceType :: ResourceType
  er_name :: ResourceName
  er_labels :: string_map
  er_managed :: "ManagedState option"
  er_inventory :: "InventoryResource option"
  er_reportedAliases :: AliasSet
  er_createdAt :: go_time
  er_updatedAt :: go_time
  er_pendingIntents :: "ResourceIntent list"

record platform_row =
  pw_collection :: CollectionName
  pw_resourceID :: ResourceID
  pw_labels :: string_map
  pw_createdAt :: go_time
  pw_updatedAt :: go_time

record alias_claim =
  cl_alias :: Alias
  cl_collection :: CollectionName
  cl_resourceID :: ResourceID
  cl_platformOwned :: bool
  cl_createdAt :: go_time

text \<open>
  The \<^verbatim>\<open>fulfillments\<close> row is kept as a snapshot; its three spec fields and its buffer are
  not columns and are overwritten on every read.
\<close>

record store =
  t_targets :: "TargetInfo list"
  t_inventory :: "InventoryItem list"
  t_fulfillments :: "FulfillmentSnapshot list"
  t_manifestStrategies :: "ManifestStrategyRecord list"
  t_placementStrategies :: "PlacementStrategyRecord list"
  t_rolloutStrategies :: "RolloutStrategyRecord list"
  t_deployments :: "Deployment list"
  t_deliveries :: "Delivery list"
  t_enrollments :: "SignerEnrollment list"
  t_extTypes :: "ExtensionResourceType list"
  t_extResources :: "ExtensionResource list"
  t_intents :: "ResourceIntent list"
  t_platform :: "platform_row list"
  t_relationships :: "ResourceRelationship list"
  t_aliasClaims :: "alias_claim list"
  t_authMethods :: "AuthMethod list"

definition emptyStore :: store where
  "emptyStore =
     \<lparr>t_targets = [], t_inventory = [], t_fulfillments = [], t_manifestStrategies = [],
      t_placementStrategies = [], t_rolloutStrategies = [], t_deployments = [], t_deliveries = [],
      t_enrollments = [], t_extTypes = [], t_extResources = [], t_intents = [],
      t_platform = [], t_relationships = [], t_aliasClaims = [], t_authMethods = []\<rparr>"

definition notFound :: "'a result" where
  "notFound = Inl (Wrapped '''' (Sentinel ErrNotFound) '''')"

definition orNotFound :: "'a option \<Rightarrow> 'a result" where
  "orNotFound r = (case r of None \<Rightarrow> notFound | Some x \<Rightarrow> Inr x)"

definition noRow :: "string \<Rightarrow> string \<Rightarrow> error" where
  "noRow kind i = Wrapped (kind @ '' '' @ quote i @ '': '') (Sentinel ErrNotFound) ''''"

definition rowExists :: "string \<Rightarrow> string \<Rightarrow> error" where
  "rowExists kind i = Wrapped (kind @ '' '' @ quote i @ '': '') (Sentinel ErrAlreadyExists) ''''"

definition uniqueViolation :: "string \<Rightarrow> error" where
  "uniqueViolation what = Plain (what @ '': UNIQUE constraint failed'')"

definition foreignKeyViolation :: "string \<Rightarrow> error" where
  "foreignKeyViolation what = Plain (what @ '': FOREIGN KEY constraint failed'')"

lemma orNotFound_simps [simp]:
  "orNotFound (Some x) = Inr x" "orNotFound None = notFound"
  "orNotFound r = Inr y \<longleftrightarrow> r = Some y"
  by (auto simp: orNotFound_def notFound_def split: option.splits)

section \<open>Deliveries\<close>

definition deliveryKey :: "Delivery \<Rightarrow> FulfillmentID \<times> TargetID" where
  "deliveryKey d = (d_fulfillmentID d, d_targetID d)"

definition storedDelivery :: "Delivery option \<Rightarrow> Delivery \<Rightarrow> Delivery" where
  "storedDelivery old d =
     (let row = DeliveryFromSnapshot (deliverySnapshot d) in
      row\<lparr>d_createdAt := (case old of None \<Rightarrow> storedTime (d_createdAt d) | Some o' \<Rightarrow> d_createdAt o'),
          d_updatedAt := storedTime (d_updatedAt d)\<rparr>)"

definition deliveriesPut :: "Delivery \<Rightarrow> store \<Rightarrow> store" where
  "deliveriesPut d s =
     s\<lparr>t_deliveries :=
         upsertRow deliveryKey (\<lambda>old _. storedDelivery (Some old) d) (storedDelivery None d) (t_deliveries s)\<rparr>"

definition deliveriesGet :: "DeliveryID \<Rightarrow> store \<Rightarrow> Delivery result" where
  "deliveriesGet i s = orNotFound (getRow d_id i (t_deliveries s))"

definition deliveryRow :: "FulfillmentID \<times> TargetID \<Rightarrow> store \<Rightarrow> Delivery option" where
  "deliveryRow k s = getRow deliveryKey k (t_deliveries s)"

definition deliveriesGetByFulfillmentTarget :: "FulfillmentID \<Rightarrow> TargetID \<Rightarrow> store \<Rightarrow> Delivery result" where
  "deliveriesGetByFulfillmentTarget f t s = orNotFound (deliveryRow (f, t) s)"

definition deliveriesListByFulfillment :: "FulfillmentID \<Rightarrow> store \<Rightarrow> Delivery list" where
  "deliveriesListByFulfillment f s = filter (\<lambda>d. d_fulfillmentID d = f) (t_deliveries s)"

definition deliveriesListActive :: "TargetID list \<Rightarrow> store \<Rightarrow> Delivery list" where
  "deliveriesListActive targetIDs s =
     filter (\<lambda>d. d_state d \<in> {DeliveryStatePending, DeliveryStateAccepted, DeliveryStateProgressing} \<and>
                 (targetIDs = [] \<or> d_targetID d \<in> set targetIDs)) (t_deliveries s)"

definition deliveriesDeleteByFulfillment :: "FulfillmentID \<Rightarrow> store \<Rightarrow> store" where
  "deliveriesDeleteByFulfillment f s =
     s\<lparr>t_deliveries := filter (\<lambda>d. d_fulfillmentID d \<noteq> f) (t_deliveries s)\<rparr>"

lemma storedDelivery_fields [simp]:
  "d_id (storedDelivery old d) = d_id d" "d_fulfillmentID (storedDelivery old d) = d_fulfillmentID d"
  "d_targetID (storedDelivery old d) = d_targetID d" "d_manifests (storedDelivery old d) = d_manifests d"
  "d_generation (storedDelivery old d) = d_generation d" "d_state (storedDelivery old d) = d_state d"
  "d_operation (storedDelivery old d) = d_operation d"
  "deliveryKey (storedDelivery old d) = deliveryKey d"
  by (simp_all add: storedDelivery_def deliveryKey_def)

interpretation deliveries: keyed_store deliveryRow deliveriesPut deliveryKey storedDelivery
  by unfold_locales
    (auto simp: deliveryRow_def deliveriesPut_def getRow_upsert split: option.splits)

section \<open>Targets\<close>

definition targetRow :: "TargetID \<Rightarrow> store \<Rightarrow> TargetInfo option" where
  "targetRow i s = getRow ti_id i (t_targets s)"

text \<open>The state written for a target without one is \<^verbatim>\<open>ready\<close>.\<close>

definition storedTarget :: "TargetInfo \<Rightarrow> TargetInfo" where
  "storedTarget t =
     (let row = TargetInfoFromSnapshot (targetSnapshot t)
      in if ti_state row = '''' then row\<lparr>ti_state := TargetStateReady\<rparr> else row)"

definition targetNameTaken :: "TargetInfo \<Rightarrow> store \<Rightarrow> bool" where
  "targetNameTaken t s = list_ex (\<lambda>x. ti_name x = ti_name t \<and> ti_id x \<noteq> ti_id t) (t_targets s)"

definition putTarget :: "TargetInfo \<Rightarrow> store \<Rightarrow> store" where
  "putTarget t s = s\<lparr>t_targets := upsertRow ti_id (\<lambda>_ r. r) (storedTarget t) (t_targets s)\<rparr>"

definition targetsCreate :: "TargetInfo \<Rightarrow> store \<Rightarrow> store result" where
  "targetsCreate t s =
     (if targetRow (ti_id t) s \<noteq> None \<or> targetNameTaken t s then Inl (rowExists ''target'' (ti_id t))
      else Inr (putTarget t s))"

definition targetsCreateOrUpdate :: "TargetInfo \<Rightarrow> store \<Rightarrow> store result" where
  "targetsCreateOrUpdate t s =
     (if targetNameTaken t s then Inl (uniqueViolation ''upsert target'') else Inr (putTarget t s))"

definition targetsGet :: "TargetID \<Rightarrow> store \<Rightarrow> TargetInfo result" where
  "targetsGet i s = orNotFound (targetRow i s)"

definition targetsList :: "store \<Rightarrow> TargetInfo list" where
  "targetsList s = t_targets s"

definition dropTarget :: "TargetID \<Rightarrow> store \<Rightarrow> store" where
  "dropTarget i s = s\<lparr>t_targets := deleteRow ti_id i (t_targets s)\<rparr>"

definition targetsDelete :: "TargetID \<Rightarrow> store \<Rightarrow> store result" where
  "targetsDelete i s =
     (if targetRow i s = None then Inl (noRow ''target'' i) else Inr (dropTarget i s))"

lemma storedTarget_id [simp]: "ti_id (storedTarget t) = ti_id t"
  by (simp add: storedTarget_def Let_def target_snapshot_inverse)

interpretation targets: keyed_store_del targetRow putTarget ti_id "\<lambda>_. storedTarget" dropTarget
  by unfold_locales
    (auto simp: targetRow_def putTarget_def dropTarget_def getRow_upsert getRow_delete split: option.splits)

section \<open>Inventory items\<close>

definition inventoryRow :: "string \<Rightarrow> store \<Rightarrow> InventoryItem option" where
  "inventoryRow i s = getRow ii_id i (t_inventory s)"

definition marshalOrDefault :: "bytes \<Rightarrow> bytes" where
  "marshalOrDefault raw = (if raw = [] then ''{}'' else raw)"

definition storedItem :: "InventoryItem option \<Rightarrow> InventoryItem \<Rightarrow> InventoryItem" where
  "storedItem old i =
     i\<lparr>ii_properties := marshalOrDefault (ii_properties i),
       ii_createdAt := (case old of None \<Rightarrow> storedTime (ii_createdAt i) | Some o' \<Rightarrow> ii_createdAt o'),
       ii_updatedAt := storedTime (ii_updatedAt i)\<rparr>"

definition inventoryCreateOrUpdate :: "InventoryItem \<Rightarrow> store \<Rightarrow> store" where
  "inventoryCreateOrUpdate i s =
     s\<lparr>t_inventory := upsertRow ii_id (\<lambda>old _. storedItem (Some old) i) (storedItem None i) (t_inventory s)\<rparr>"

definition inventoryCreate :: "InventoryItem \<Rightarrow> store \<Rightarrow> store result" where
  "inventoryCreate i s =
     (if inventoryRow (ii_id i) s \<noteq> None then Inl (rowExists ''inventory item'' (ii_id i))
      else Inr (inventoryCreateOrUpdate i s))"

definition inventoryUpdate :: "InventoryItem \<Rightarrow> store \<Rightarrow> store result" where
  "inventoryUpdate i s =
     (if inventoryRow (ii_id i) s = None then Inl (noRow ''inventory item'' (ii_id i))
      else Inr (inventoryCreateOrUpdate i s))"

definition inventoryGet :: "string \<Rightarrow> store \<Rightarrow> InventoryItem result" where
  "inventoryGet i s = orNotFound (inventoryRow i s)"

definition inventoryList :: "store \<Rightarrow> InventoryItem list" where
  "inventoryList s = t_inventory s"

definition inventoryListByType :: "string \<Rightarrow> store \<Rightarrow> InventoryItem list" where
  "inventoryListByType ty s = filter (\<lambda>i. ii_type i = ty) (t_inventory s)"

definition dropItem :: "string \<Rightarrow> store \<Rightarrow> store" where
  "dropItem i s = s\<lparr>t_inventory := deleteRow ii_id i (t_inventory s)\<rparr>"

definition inventoryDelete :: "string \<Rightarrow> store \<Rightarrow> store result" where
  "inventoryDelete i s =
     (if inventoryRow i s = None then Inl (noRow ''inventory item'' i) else Inr (dropItem i s))"

lemma storedItem_id [simp]: "ii_id (storedItem old i) = ii_id i"
  by (simp add: storedItem_def)

interpretation inventory: keyed_store_del inventoryRow inventoryCreateOrUpdate ii_id storedItem dropItem
  by unfold_locales
    (auto simp: inventoryRow_def inventoryCreateOrUpdate_def dropItem_def getRow_upsert getRow_delete
      split: option.splits)

lemma drop_missing:
  "targetRow t s = None \<Longrightarrow> dropTarget t s = s" "inventoryRow k s = None \<Longrightarrow> dropItem k s = s"
  by (simp_all add: targetRow_def inventoryRow_def dropTarget_def dropItem_def deleteRow_missing)

section \<open>Fulfillments and their strategy versions\<close>

definition fulfillmentRow :: "FulfillmentID \<Rightarrow> store \<Rightarrow> FulfillmentSnapshot option" where
  "fulfillmentRow i s = getRow fs_ID i (t_fulfillments s)"

definition manifestKey :: "ManifestStrategyRecord \<Rightarrow> FulfillmentID \<times> StrategyVersion" where
  "manifestKey r = (mr_FulfillmentID r, mr_Version r)"

definition placementKey :: "PlacementStrategyRecord \<Rightarrow> FulfillmentID \<times> StrategyVersion" where
  "placementKey r = (prr_FulfillmentID r, prr_Version r)"

definition rolloutKey :: "RolloutStrategyRecord \<Rightarrow> FulfillmentID \<times> StrategyVersion" where
  "rolloutKey r = (ror_FulfillmentID r, ror_Version r)"

text \<open>The row joined with its three version tables (left joins).\<close>

definition joinedSnapshot :: "store \<Rightarrow> FulfillmentSnapshot \<Rightarrow> FulfillmentSnapshot" where
  "joinedSnapshot s row =
     row\<lparr>fs_ManifestStrategy :=
           (case getRow manifestKey (fs_ID row, fs_ManifestStrategyVersion row) (t_manifestStrategies s) of
              Some r \<Rightarrow> mr_Spec r | None \<Rightarrow> zeroManifestStrategy),
         fs_PlacementStrategy :=
           (case getRow placementKey (fs_ID row, fs_PlacementStrategyVersion row) (t_placementStrategies s) of
              Some r \<Rightarrow> prr_Spec r | None \<Rightarrow> zeroPlacementStrategy),
         fs_RolloutStrategy :=
           (case getRow rolloutKey (fs_ID row, fs_RolloutStrategyVersion row) (t_rolloutStrategies s) of
              Some r \<Rightarrow> ror_Spec r | None \<Rightarrow> None),
         fs_PendingStrategyRecords := \<lparr>pe_Manifest = [], pe_Placement = [], pe_Rollout = []\<rparr>\<rparr>"

definition fulfillmentsGet :: "FulfillmentID \<Rightarrow> store \<Rightarrow> Fulfillment result" where
  "fulfillmentsGet i s =
     (case fulfillmentRow i s of
        None \<Rightarrow> notFound
      | Some row \<Rightarrow> Inr (FulfillmentFromSnapshot (joinedSnapshot s row)))"

fun insertAll :: "('r \<Rightarrow> 'k) \<Rightarrow> ('r \<Rightarrow> 'r) \<Rightarrow> ('r \<Rightarrow> string) \<Rightarrow> 'r list \<Rightarrow> 'r list \<Rightarrow> 'r list result" where
  "insertAll key stamp what [] rows = Inr rows"
| "insertAll key stamp what (r # rs) rows =
     (if getRow key (key r) rows \<noteq> None then Inl (uniqueViolation (what r))
      else insertAll key stamp what rs (rows @ [stamp r]))"

definition stampManifest :: "ManifestStrategyRecord \<Rightarrow> ManifestStrategyRecord" where
  "stampManifest r = r\<lparr>mr_CreatedAt := storedTime (mr_CreatedAt r)\<rparr>"

definition stampPlacement :: "PlacementStrategyRecord \<Rightarrow> PlacementStrategyRecord" where
  "stampPlacement r = r\<lparr>prr_CreatedAt := storedTime (prr_CreatedAt r)\<rparr>"

definition stampRollout :: "RolloutStrategyRecord \<Rightarrow> RolloutStrategyRecord" where
  "stampRollout r = r\<lparr>ror_CreatedAt := storedTime (ror_CreatedAt r)\<rparr>"

definition flushPendingStrategyRecords :: "PendingStrategyRecords \<Rightarrow> store \<Rightarrow> store result" where
  "flushPendingStrategyRecords pending s =
     (case insertAll manifestKey stampManifest
             (\<lambda>r. ''insert manifest strategy v'' @ itoa (mr_Version r))
             (pe_Manifest pending) (t_manifestStrategies s) of
        Inl e \<Rightarrow> Inl e
      | Inr ms \<Rightarrow>
          (case insertAll placementKey stampPlacement
                  (\<lambda>r. ''insert placement strategy v'' @ itoa (prr_Version r))
                  (pe_Placement pending) (t_placementStrategies s) of
             Inl e \<Rightarrow> Inl e
           | Inr ps \<Rightarrow>
               (case insertAll rolloutKey stampRollout
                       (\<lambda>r. ''insert rollout strategy v'' @ itoa (ror_Version r))
                       (pe_Rollout pending) (t_rolloutStrategies s) of
                  Inl e \<Rightarrow> Inl e
                | Inr rs \<Rightarrow>
                    Inr (s\<lparr>t_manifestStrategies := ms, t_placementStrategies := ps,
                           t_rolloutStrategies := rs\<rparr>))))"

definition storedFulfillment :: "go_time \<Rightarrow> Fulfillment \<Rightarrow> FulfillmentSnapshot" where
  "storedFulfillment createdAt f =
     (fulfillmentSnapshot f)\<lparr>fs_CreatedAt := createdAt, fs_UpdatedAt := storedTime (f_updatedAt f)\<rparr>"

definition fulfillmentsCreate :: "Fulfillment \<Rightarrow> store \<Rightarrow> store result" where
  "fulfillmentsCreate f s =
     (if fulfillmentRow (f_id f) s \<noteq> None then Inl (rowExists ''fulfillment'' (f_id f))
      else flushPendingStrategyRecords (fs_PendingStrategyRecords (fulfillmentSnapshot f))
             (s\<lparr>t_fulfillments := t_fulfillments s @ [storedFulfillment (storedTime (f_createdAt f)) f]\<rparr>))"

definition fulfillmentsUpdate :: "Fulfillment \<Rightarrow> store \<Rightarrow> store result" where
  "fulfillmentsUpdate f s =
     (if fulfillmentRow (f_id f) s = None then Inl (noRow ''fulfillment'' (f_id f))
      else flushPendingStrategyRecords (fs_PendingStrategyRecords (fulfillmentSnapshot f))
             (s\<lparr>t_fulfillments :=
                  map (\<lambda>row. if fs_ID row = f_id f then storedFulfillment (fs_CreatedAt row) f else row)
                    (t_fulfillments s)\<rparr>))"

definition fulfillmentsDelete :: "FulfillmentID \<Rightarrow> store \<Rightarrow> store result" where
  "fulfillmentsDelete i s =
     (let s' = s\<lparr>t_manifestStrategies := filter (\<lambda>r. mr_FulfillmentID r \<noteq> i) (t_manifestStrategies s),
                 t_placementStrategies := filter (\<lambda>r. prr_FulfillmentID r \<noteq> i) (t_placementStrategies s),
                 t_rolloutStrategies := filter (\<lambda>r. ror_FulfillmentID r \<noteq> i) (t_rolloutStrategies s)\<rparr>
      in if list_ex (\<lambda>d. dp_fulfillmentID d = i) (t_deployments s) \<and> fulfillmentRow i s \<noteq> None
         then Inl (foreignKeyViolation ''delete fulfillment'')
         else if fulfillmentRow i s = None then Inl (noRow ''fulfillment'' i)
         else Inr (s'\<lparr>t_fulfillments := deleteRow fs_ID i (t_fulfillments s')\<rparr>))"

section \<open>Deployments\<close>

definition deploymentsGet :: "ResourceName \<Rightarrow> store \<Rightarrow> Deployment result" where
  "deploymentsGet name s = orNotFound (getRow dp_name name (t_deployments s))"

definition deploymentsCreate :: "Deployment \<Rightarrow> store \<Rightarrow> store result" where
  "deploymentsCreate d s =
     (if getRow dp_name (dp_name d) (t_deployments s) \<noteq> None
      then Inl (rowExists ''deployment'' (dp_name d))
      else if fulfillmentRow (dp_fulfillmentID d) s = None
      then Inl (foreignKeyViolation ''insert deployment'')
      else Inr (s\<lparr>t_deployments := t_deployments s @
             [d\<lparr>dp_createdAt := storedTime (dp_createdAt d), dp_updatedAt := storedTime (dp_updatedAt d)\<rparr>]\<rparr>))"

definition deploymentsGetView :: "ResourceName \<Rightarrow> store \<Rightarrow> DeploymentView result" where
  "deploymentsGetView name s =
     (case getRow dp_name name (t_deployments s) of
        None \<Rightarrow> notFound
      | Some d \<Rightarrow>
          (case fulfillmentsGet (dp_fulfillmentID d) s of
             Inl e \<Rightarrow> Inl e
           | Inr f \<Rightarrow> Inr \<lparr>dv_Deployment = d, dv_Fulfillment = f\<rparr>))"

definition deploymentsDelete :: "ResourceName \<Rightarrow> store \<Rightarrow> store result" where
  "deploymentsDelete name s =
     (if getRow dp_name name (t_deployments s) = None then Inl (noRow ''deployment'' name)
      else Inr (s\<lparr>t_deployments := deleteRow dp_name name (t_deployments s)\<rparr>))"

section \<open>Signer enrollments, extension types and intents\<close>

text \<open>\<^verbatim>\<open>ORDER BY created_at DESC\<close>: newest first, equal times in insertion order.\<close>

fun insertNewest :: "SignerEnrollment \<Rightarrow> SignerEnrollment list \<Rightarrow> SignerEnrollment list" where
  "insertNewest e [] = [e]"
| "insertNewest e (x # xs) = (if en_createdAt e > en_createdAt x then e # x # xs else x # insertNewest e xs)"

definition enrollmentsListBySubject :: "FederatedIdentity \<Rightarrow> store \<Rightarrow> SignerEnrollment list" where
  "enrollmentsListBySubject who s =
     fold insertNewest (filter (\<lambda>e. en_federatedIdentity e = who) (t_enrollments s)) []"

text \<open>Types are keyed by the two columns their name splits into.\<close>

definition typeKey :: "ResourceType \<Rightarrow> ServiceName \<times> string" where
  "typeKey rt = (rtServiceName rt, rtTypeName rt)"

definition extGetType :: "ResourceType \<Rightarrow> store \<Rightarrow> ExtensionResourceType result" where
  "extGetType rt s = orNotFound (getRow (\<lambda>t. typeKey (et_resourceType t)) (typeKey rt) (t_extTypes s))"

definition extGetIntent :: "ExtensionResourceUID \<Rightarrow> IntentVersion \<Rightarrow> store \<Rightarrow> ResourceIntent result" where
  "extGetIntent uid v s =
     (case getRow (\<lambda>r. (ri_ExtensionResourceUID r, ri_Version r)) (uid, v) (t_intents s) of
        Some r \<Rightarrow> Inr r
      | None \<Rightarrow> Inl (Wrapped '''' (Sentinel ErrNotFound) ('': intent '' @ uid @ '' v'' @ itoa v)))"

definition extGetByUID :: "ExtensionResourceUID \<Rightarrow> store \<Rightarrow> ExtensionResource result" where
  "extGetByUID uid s = orNotFound (getRow er_uid uid (t_extResources s))"

section \<open>The vault\<close>

type_synonym vault = "(SecretRef, bytes) fmap"

definition vaultPut :: "ProducedSecret \<Rightarrow> vault \<Rightarrow> vault" where
  "vaultPut p v = fmupd (se_Ref p) (se_Value p) v"

definition vaultGet :: "SecretRef \<Rightarrow> vault \<Rightarrow> bytes result" where
  "vaultGet ref v =
     (case fmlookup v ref of Some x \<Rightarrow> Inr x | None \<Rightarrow> Inl (noRow ''vault'' ref))"

definition vaultDelete :: "SecretRef \<Rightarrow> vault \<Rightarrow> vault result" where
  "vaultDelete ref v = (if fmlookup v ref = None then Inl (noRow ''vault'' ref) else Inr (fmdrop ref v))"

definition secretAt :: "SecretRef \<Rightarrow> vault \<Rightarrow> ProducedSecret option" where
  "secretAt ref v = map_option (\<lambda>x. \<lparr>se_Ref = ref, se_Value = x\<rparr>) (fmlookup v ref)"

interpretation vault: keyed_store_del secretAt vaultPut se_Ref "\<lambda>_ r. r" fmdrop
  by unfold_locales (auto simp: secretAt_def vaultPut_def)

section \<open>Saving strategies\<close>

lemma versionChain_sorted:
  "versionChain v ws \<Longrightarrow> min_i64 \<le> v \<Longrightarrow> v + int (length ws) \<le> max_i64 \<Longrightarrow> sorted_wrt (<) (v # ws)"
proof (induction ws arbitrary: v)
  case (Cons w ws)
  then have w: "w = v + 1" using i64_Suc [of v] by simp
  have "sorted_wrt (<) (w # ws)" by (rule Cons.IH) (use Cons.prems w in auto)
  with w show ?case by auto
qed simp

text \<open>
  One version table: the records of fulfillment \<open>i\<close> are those with \<open>fid r = i\<close>, none of them
  newer than version \<open>v\<close>.
\<close>

definition versionsUpTo :: "('r \<Rightarrow> FulfillmentID \<times> StrategyVersion) \<Rightarrow> FulfillmentID \<Rightarrow> StrategyVersion \<Rightarrow> 'r list \<Rightarrow> bool" where
  "versionsUpTo key i v rows \<longleftrightarrow> list_all (\<lambda>r. fst (key r) = i \<longrightarrow> snd (key r) \<le> v) rows"

lemma insertAll_new:
  assumes "sorted_wrt (<) (v # map (\<lambda>r. snd (key r)) rs)" "versionsUpTo key i v rows"
    and "list_all (\<lambda>r. fst (key r) = i) rs" "\<And>r. key (stamp r) = key r"
  shows "insertAll key stamp what rs rows = Inr (rows @ map stamp rs) \<and>
    versionsUpTo key i (last (v # map (\<lambda>r. snd (key r)) rs)) (rows @ map stamp rs)"
  using assms
proof (induction rs arbitrary: v rows)
  case (Cons r rs)
  have fresh: "getRow key (key r) rows = None"
    using Cons.prems(1-3) by (fastforce simp: getRow_None versionsUpTo_def list_all_iff)
  have "versionsUpTo key i (snd (key r)) (rows @ [stamp r])"
    using Cons.prems(1,2,4) by (auto simp: versionsUpTo_def list_all_iff)
  with Cons.IH [of "snd (key r)" "rows @ [stamp r]"] Cons.prems fresh show ?case by simp
qed (simp add: versionsUpTo_def)

lemma getRow_newest:
  assumes "sorted_wrt (<) (v # map (\<lambda>r. snd (key r)) rs)" "versionsUpTo key i v rows"
    and "list_all (\<lambda>r. fst (key r) = i) rs" "\<And>r. key (stamp r) = key r"
  shows "getRow key (i, last (v # map (\<lambda>r. snd (key r)) rs)) (rows @ map stamp rs) =
    (if rs = [] then getRow key (i, v) rows else Some (stamp (last rs)))"
proof (cases rs rule: rev_cases)
  case (snoc xs r)
  have r: "key r = (i, snd (key r))" using assms(3) snoc by (cases "key r") auto
  have "getRow key (key r) rows = None"
    using assms(1,2) snoc r
    by (auto simp: getRow_None versionsUpTo_def list_all_iff sorted_wrt_append) (metis fst_conv leD snd_conv)
  moreover have "getRow key (key r) (map stamp xs) = None"
    using assms(1,4) snoc by (auto simp: getRow_None sorted_wrt_append image_image)
  ultimately show ?thesis using snoc r assms(4) by (simp add: getRow_append)
qed simp

lemma saved_spec:
  assumes "flushOK v spec0 ver spec (map (\<lambda>r. (snd (key r), specOf r)) rs)" "versionsUpTo key i v rows"
    and "list_all (\<lambda>r. fst (key r) = i) rs" "\<And>r. key (stamp r) = key r" "\<And>r. specOf (stamp r) = specOf r"
    and "min_i64 \<le> v" "v + int (length rs) \<le> max_i64"
    and "spec0 = (case getRow key (i, v) rows of Some r \<Rightarrow> specOf r | None \<Rightarrow> z)"
  shows "insertAll key stamp what rs rows = Inr (rows @ map stamp rs) \<and>
    versionsUpTo key i ver (rows @ map stamp rs) \<and>
    (case getRow key (i, ver) (rows @ map stamp rs) of Some r \<Rightarrow> specOf r | None \<Rightarrow> z) = spec"
proof -
  have flush: "versionChain v (map (\<lambda>r. snd (key r)) rs)" "ver = last (v # map (\<lambda>r. snd (key r)) rs)"
    "spec = last (spec0 # map specOf rs)"
    using assms(1) by (simp_all add: flushOK_def comp_def)
  have sorted: "sorted_wrt (<) (v # map (\<lambda>r. snd (key r)) rs)"
    by (rule versionChain_sorted) (use flush assms in auto)
  show ?thesis
    using insertAll_new [OF sorted assms(2,3,4)] getRow_newest [OF sorted assms(2,3,4)] flush assms(5,8)
    by (simp add: last_map split: if_splits)
qed

lemma stamped_fields [simp]:
  "mr_FulfillmentID (stampManifest r) = mr_FulfillmentID r" "mr_Version (stampManifest r) = mr_Version r"
  "mr_Spec (stampManifest r) = mr_Spec r"
  "prr_FulfillmentID (stampPlacement p) = prr_FulfillmentID p" "prr_Version (stampPlacement p) = prr_Version p"
  "prr_Spec (stampPlacement p) = prr_Spec p"
  "ror_FulfillmentID (stampRollout q) = ror_FulfillmentID q" "ror_Version (stampRollout q) = ror_Version q"
  "ror_Spec (stampRollout q) = ror_Spec q"
  by (simp_all add: stampManifest_def stampPlacement_def stampRollout_def)

text \<open>No strategy version of fulfillment \<open>i\<close> is newer than the one its row names.\<close>

definition strategiesOK :: "FulfillmentID \<Rightarrow> store \<Rightarrow> bool" where
  "strategiesOK i s \<longleftrightarrow>
     (case fulfillmentRow i s of
        None \<Rightarrow> True
      | Some row \<Rightarrow>
          versionsUpTo manifestKey i (fs_ManifestStrategyVersion row) (t_manifestStrategies s) \<and>
          versionsUpTo placementKey i (fs_PlacementStrategyVersion row) (t_placementStrategies s) \<and>
          versionsUpTo rolloutKey i (fs_RolloutStrategyVersion row) (t_rolloutStrategies s))"

text \<open>The version counters do not overflow while \<open>f\<close> is saved over \<open>f0\<close>.\<close>

definition versionsFit :: "Fulfillment \<Rightarrow> Fulfillment \<Rightarrow> bool" where
  "versionsFit f0 f \<longleftrightarrow>
     min_i64 \<le> f_manifestStrategyVersion f0 \<and>
     f_manifestStrategyVersion f0 + int (length (f_pendingManifest f)) \<le> max_i64 \<and>
     min_i64 \<le> f_placementStrategyVersion f0 \<and>
     f_placementStrategyVersion f0 + int (length (f_pendingPlacement f)) \<le> max_i64 \<and>
     min_i64 \<le> f_rolloutStrategyVersion f0 \<and>
     f_rolloutStrategyVersion f0 + int (length (f_pendingRollout f)) \<le> max_i64"

lemma fulfillmentsGet_Inr:
  assumes "fulfillmentsGet i s = Inr f"
  obtains row where "fulfillmentRow i s = Some row" "f = FulfillmentFromSnapshot (joinedSnapshot s row)"
    "fs_ID row = i"
  using assms by (auto simp: fulfillmentsGet_def notFound_def fulfillmentRow_def dest: getRow_Some split: option.splits)

lemma loaded_facts:
  assumes "fulfillmentsGet i s = Inr f"
  shows "txOK f f" "ownRecords i (f_createdAt f) f" "reloaded f = f" "f_id f = i"
  using assms
  by (auto elim!: fulfillmentsGet_Inr simp: FulfillmentFromSnapshot_def txOK_def flush_defs flushOK_def
      ownRecords_def reloaded_def joinedSnapshot_def)

lemma fulfillmentRow_update:
  assumes "fulfillmentRow i s = Some row" "f_id f = i"
    and "s' = s\<lparr>t_fulfillments := map (\<lambda>row. if fs_ID row = f_id f then storedFulfillment (fs_CreatedAt row) f else row)
                    (t_fulfillments s)\<rparr>"
  shows "fulfillmentRow i s' = Some (storedFulfillment (fs_CreatedAt row) f)"
proof -
  let ?f = "\<lambda>row. if fs_ID row = f_id f then storedFulfillment (fs_CreatedAt row) f else row"
  have "getRow fs_ID i (map ?f (t_fulfillments s)) = map_option ?f (getRow fs_ID i (t_fulfillments s))"
    by (rule getRow_map) (simp add: storedFulfillment_def fulfillmentSnapshot_def)
  with assms show ?thesis by (auto simp: fulfillmentRow_def dest: getRow_Some)
qed

lemma saved_specs:
  assumes "fulfillmentRow i s = Some row" "f0 = FulfillmentFromSnapshot (joinedSnapshot s row)" "fs_ID row = i"
    and "strategiesOK i s" "txOK f0 f" "ownRecords i c f" "versionsFit f0 f"
  shows "insertAll manifestKey stampManifest w1 (f_pendingManifest f) (t_manifestStrategies s) =
      Inr (t_manifestStrategies s @ map stampManifest (f_pendingManifest f)) \<and>
    versionsUpTo manifestKey i (f_manifestStrategyVersion f)
      (t_manifestStrategies s @ map stampManifest (f_pendingManifest f)) \<and>
    (case getRow manifestKey (i, f_manifestStrategyVersion f)
        (t_manifestStrategies s @ map stampManifest (f_pendingManifest f)) of
       Some r \<Rightarrow> mr_Spec r | None \<Rightarrow> zeroManifestStrategy) = f_manifestStrategy f"
    and "insertAll placementKey stampPlacement w2 (f_pendingPlacement f) (t_placementStrategies s) =
      Inr (t_placementStrategies s @ map stampPlacement (f_pendingPlacement f)) \<and>
    versionsUpTo placementKey i (f_placementStrategyVersion f)
      (t_placementStrategies s @ map stampPlacement (f_pendingPlacement f)) \<and>
    (case getRow placementKey (i, f_placementStrategyVersion f)
        (t_placementStrategies s @ map stampPlacement (f_pendingPlacement f)) of
       Some r \<Rightarrow> prr_Spec r | None \<Rightarrow> zeroPlacementStrategy) = f_placementStrategy f"
    and "insertAll rolloutKey stampRollout w3 (f_pendingRollout f) (t_rolloutStrategies s) =
      Inr (t_rolloutStrategies s @ map stampRollout (f_pendingRollout f)) \<and>
    versionsUpTo rolloutKey i (f_rolloutStrategyVersion f)
      (t_rolloutStrategies s @ map stampRollout (f_pendingRollout f)) \<and>
    (case getRow rolloutKey (i, f_rolloutStrategyVersion f)
        (t_rolloutStrategies s @ map stampRollout (f_pendingRollout f)) of
       Some r \<Rightarrow> ror_Spec r | None \<Rightarrow> None) = f_rolloutStrategy f"
proof -
  note facts = assms(4-7) [unfolded strategiesOK_def txOK_def flush_defs ownRecords_def versionsFit_def
      assms(1) option.case]
  show "insertAll manifestKey stampManifest w1 (f_pendingManifest f) (t_manifestStrategies s) =
      Inr (t_manifestStrategies s @ map stampManifest (f_pendingManifest f)) \<and>
    versionsUpTo manifestKey i (f_manifestStrategyVersion f)
      (t_manifestStrategies s @ map stampManifest (f_pendingManifest f)) \<and>
    (case getRow manifestKey (i, f_manifestStrategyVersion f)
        (t_manifestStrategies s @ map stampManifest (f_pendingManifest f)) of
       Some r \<Rightarrow> mr_Spec r | None \<Rightarrow> zeroManifestStrategy) = f_manifestStrategy f"
    by (rule saved_spec [where v = "f_manifestStrategyVersion f0" and ?spec0.0 = "f_manifestStrategy f0"])
      (use facts assms(2,3) in \<open>simp_all add: manifestKey_def FulfillmentFromSnapshot_def joinedSnapshot_def\<close>)
  show "insertAll placementKey stampPlacement w2 (f_pendingPlacement f) (t_placementStrategies s) =
      Inr (t_placementStrategies s @ map stampPlacement (f_pendingPlacement f)) \<and>
    versionsUpTo placementKey i (f_placementStrategyVersion f)
      (t_placementStrategies s @ map stampPlacement (f_pendingPlacement f)) \<and>
    (case getRow placementKey (i, f_placementStrategyVersion f)
        (t_placementStrategies s @ map stampPlacement (f_pendingPlacement f)) of
       Some r \<Rightarrow> prr_Spec r | None \<Rightarrow> zeroPlacementStrategy) = f_placementStrategy f"
    by (rule saved_spec [where v = "f_placementStrategyVersion f0" and ?spec0.0 = "f_placementStrategy f0"])
      (use facts assms(2,3) in \<open>simp_all add: placementKey_def FulfillmentFromSnapshot_def joinedSnapshot_def\<close>)
  show "insertAll rolloutKey stampRollout w3 (f_pendingRollout f) (t_rolloutStrategies s) =
      Inr (t_rolloutStrategies s @ map stampRollout (f_pendingRollout f)) \<and>
    versionsUpTo rolloutKey i (f_rolloutStrategyVersion f)
      (t_rolloutStrategies s @ map stampRollout (f_pendingRollout f)) \<and>
    (case getRow rolloutKey (i, f_rolloutStrategyVersion f)
        (t_rolloutStrategies s @ map stampRollout (f_pendingRollout f)) of
       Some r \<Rightarrow> ror_Spec r | None \<Rightarrow> None) = f_rolloutStrategy f"
    by (rule saved_spec [where v = "f_rolloutStrategyVersion f0" and ?spec0.0 = "f_rolloutStrategy f0"])
      (use facts assms(2,3) in \<open>simp_all add: rolloutKey_def FulfillmentFromSnapshot_def joinedSnapshot_def\<close>)
qed

lemma fulfillmentsUpdate_get:
  assumes "fulfillmentsGet i s = Inr f0" "strategiesOK i s" "txOK f0 f" "ownRecords i (f_createdAt f0) f"
    and "versionsFit f0 f"
  obtains s' where "fulfillmentsUpdate f s = Inr s'"
    "fulfillmentsGet i s' = Inr ((reloaded f)\<lparr>f_updatedAt := storedTime (f_updatedAt f)\<rparr>)" "strategiesOK i s'"
    "t_deliveries s' = t_deliveries s" "t_targets s' = t_targets s" "t_inventory s' = t_inventory s"
proof -
  obtain row where row: "fulfillmentRow i s = Some row" "f0 = FulfillmentFromSnapshot (joinedSnapshot s row)"
    "fs_ID row = i" using assms(1) by (rule fulfillmentsGet_Inr)
  have f: "f_id f = i" "f_createdAt f = fs_CreatedAt row"
    using assms(4) row(2) by (simp_all add: ownRecords_def FulfillmentFromSnapshot_def joinedSnapshot_def)
  define s1 where "s1 = s\<lparr>t_fulfillments :=
    map (\<lambda>row. if fs_ID row = f_id f then storedFulfillment (fs_CreatedAt row) f else row) (t_fulfillments s)\<rparr>"
  define s' where "s' = s1\<lparr>t_manifestStrategies := t_manifestStrategies s @ map stampManifest (f_pendingManifest f),
    t_placementStrategies := t_placementStrategies s @ map stampPlacement (f_pendingPlacement f),
    t_rolloutStrategies := t_rolloutStrategies s @ map stampRollout (f_pendingRollout f)\<rparr>"
  note saved = saved_specs [OF row assms(2,3,4,5)]
  have upd: "fulfillmentsUpdate f s = Inr s'"
    using saved row(1) f(1)
    by (simp add: fulfillmentsUpdate_def flushPendingStrategyRecords_def fulfillmentSnapshot_def s'_def s1_def)
  have "fulfillmentRow i s1 = Some (storedFulfillment (fs_CreatedAt row) f)"
    by (rule fulfillmentRow_update [OF row(1) f(1) s1_def])
  then have row': "fulfillmentRow i s' = Some (storedFulfillment (fs_CreatedAt row) f)"
    by (simp add: fulfillmentRow_def s'_def)
  have tables: "t_manifestStrategies s' = t_manifestStrategies s @ map stampManifest (f_pendingManifest f)"
    "t_placementStrategies s' = t_placementStrategies s @ map stampPlacement (f_pendingPlacement f)"
    "t_rolloutStrategies s' = t_rolloutStrategies s @ map stampRollout (f_pendingRollout f)"
    by (simp_all add: s'_def)
  have "FulfillmentFromSnapshot (joinedSnapshot s' (storedFulfillment (fs_CreatedAt row) f)) =
      (reloaded f)\<lparr>f_updatedAt := storedTime (f_updatedAt f)\<rparr>"
    by (rule Fulfillment.equality)
      (use saved f in \<open>simp_all add: joinedSnapshot_def storedFulfillment_def fulfillmentSnapshot_def
        FulfillmentFromSnapshot_def reloaded_def tables\<close>)
  then have get: "fulfillmentsGet i s' = Inr ((reloaded f)\<lparr>f_updatedAt := storedTime (f_updatedAt f)\<rparr>)"
    by (simp add: fulfillmentsGet_def row')
  have "strategiesOK i s'"
    using saved by (simp add: strategiesOK_def row' storedFulfillment_def fulfillmentSnapshot_def tables)
  with upd get that show ?thesis by (simp add: s'_def s1_def)
qed



end
