(* ===== verification/FS_World.thy ===== *)
theory FS_World
  imports FS_Store
begin

text \<open>
  The effects of the server. A computation takes a world and returns a result or an error with
  the new world. The world holds the committed database, the working copy of the open
  transaction, the vault, the signals waiting for the workflow, the calls made to delivery
  agents, and what the environment will do: which infrastructure calls fail, what the agents
  answer, and which transactions other processes commit in between. A transaction sees the
  database as of its \<^verbatim>\<open>Begin\<close>; only \<^verbatim>\<open>Commit\<close> changes the committed
  database (\<^verbatim>\<open>server/internal/infrastructure/sqlite/store.go\<close>, where
  \<^verbatim>\<open>BEGIN IMMEDIATE\<close> serialises the writers). Activities are run with the retry policy of
  the in-memory engine (\<^verbatim>\<open>server/internal/infrastructure/memworkflow/mem.go\<close>).
\<close>

section \<open>Worlds\<close>

datatype dispatch =
    DispatchDeliver TargetInfo DeliveryID "Manifest list" DeliveryAuth "Attestation option" Generation
  | DispatchRemove TargetInfo DeliveryID "Manifest list" DeliveryAuth "Attestation option" Generation

text \<open>
  What the next wait of a workflow brings: an event, the expiry of the wait, or a failure of the
  engine. A wait without timeout skips expiries; when nothing is left the workflow stays blocked.
\<close>

datatype awaited = Signalled FulfillmentEvent | TimedOut | AwaitError string

text \<open>A workflow handed to the engine.\<close>

datatype workflow_start =
    OrchestrationStarted FulfillmentID
  | CleanupStarted ResourceName FulfillmentID
  | CreateStarted ResourceName
  | DeleteStarted ResourceName Generation
  | ResumeStarted ResourceName Generation
  | ManagedCreateStarted ResourceType ResourceName
  | ManagedDeleteStarted ResourceType ResourceName
  | ManagedResumeStarted ResourceType ResourceName Generation
  | ManagedCleanupStarted ResourceType ResourceName FulfillmentID
  | ProvisionStarted string

text \<open>
  \<open>w_faults n\<close> is the error of the \<open>n\<close>-th infrastructure call, if it fails; \<open>w_agent n\<close> is
  the error an agent call returns when it is the \<open>n\<close>-th call; \<open>w_engine n\<close> and \<open>w_uuid n\<close>
  are, for that call, the error of starting a workflow and the identifier drawn. \<open>w_others\<close> are the
  transactions of other processes, one of them committed before each \<^verbatim>\<open>Begin\<close>.
\<close>

record world =
  w_db :: store
  w_tx :: store
  w_vault :: vault
  w_step :: nat
  w_faults :: "nat \<Rightarrow> string option"
  w_agent :: "nat \<Rightarrow> error option"
  w_engine :: "nat \<Rightarrow> error option"
  w_uuid :: "nat \<Rightarrow> string"
  w_others :: "(store \<Rightarrow> store) list"
  w_inbox :: "awaited list"
  w_dispatched :: "dispatch list"
  w_signals :: "(FulfillmentID \<times> FulfillmentEvent) list"
  w_cleanups :: "FulfillmentID list"
  w_started :: "workflow_start list"

definition calmWorld :: "store \<Rightarrow> world" where
  "calmWorld db =
     \<lparr>w_db = db, w_tx = db, w_vault = fmempty, w_step = 0, w_faults = (\<lambda>_. None), w_agent = (\<lambda>_. None),
      w_engine = (\<lambda>_. None), w_uuid = (\<lambda>n. ''uuid-'' @ itoa (int n)), w_others = [], w_inbox = [], w_dispatched = [],
      w_signals = [], w_cleanups = [], w_started = []\<rparr>"

section \<open>Fallible effects\<close>

type_synonym 'a io = "world \<Rightarrow> 'a result \<times> world"

definition ret :: "'a \<Rightarrow> 'a io" where
  "ret x w = (Inr x, w)"

definition throw :: "error \<Rightarrow> 'a io" where
  "throw e w = (Inl e, w)"

definition andThen :: "'a io \<Rightarrow> ('a \<Rightarrow> 'b io) \<Rightarrow> 'b io" where
  "andThen m k w = (case m w of (Inl e, w') \<Rightarrow> (Inl e, w') | (Inr x, w') \<Rightarrow> k x w')"

text \<open>\<^verbatim>\<open>x, err := m\<close> without an early return.\<close>

definition caught :: "'a io \<Rightarrow> 'a result io" where
  "caught m w = (case m w of (r, w') \<Rightarrow> (Inr r, w'))"

text \<open>\<^verbatim>\<open>if err != nil { return fmt.Errorf(p + "%w", err) }\<close>\<close>

definition wrap :: "string \<Rightarrow> 'a io \<Rightarrow> 'a io" where
  "wrap p m w = (case m w of (Inl e, w') \<Rightarrow> (Inl (Wrapped p e ''''), w') | (Inr x, w') \<Rightarrow> (Inr x, w'))"

fun forEach :: "'a list \<Rightarrow> ('a \<Rightarrow> unit io) \<Rightarrow> unit io" where
  "forEach [] body = ret ()"
| "forEach (x # xs) body = andThen (body x) (\<lambda>_. forEach xs body)"

text \<open>A call to infrastructure, which may fail with an error of its own.\<close>

definition infra :: "'a io \<Rightarrow> 'a io" where
  "infra m w =
     (case w_faults w (w_step w) of
        Some msg \<Rightarrow> (Inl (Plain msg), w\<lparr>w_step := Suc (w_step w)\<rparr>)
      | None \<Rightarrow> m (w\<lparr>w_step := Suc (w_step w)\<rparr>))"

section \<open>Transactions\<close>

definition dbAtBegin :: "world \<Rightarrow> store" where
  "dbAtBegin w = (case w_others w of [] \<Rightarrow> w_db w | other # _ \<Rightarrow> other (w_db w))"

definition beginTx :: "string \<Rightarrow> unit io" where
  "beginTx what =
     wrap what (infra (\<lambda>w. (Inr (), w\<lparr>w_db := dbAtBegin w, w_tx := dbAtBegin w, w_others := tl (w_others w)\<rparr>)))"

definition Begin :: "unit io" where
  "Begin = beginTx ''begin tx: ''"

definition BeginReadOnly :: "unit io" where
  "BeginReadOnly = beginTx ''begin read-only tx: ''"

definition Commit :: "unit io" where
  "Commit = infra (\<lambda>w. (Inr (), w\<lparr>w_db := w_tx w\<rparr>))"

text \<open>Ending a read-only transaction, by commit or rollback, changes nothing.\<close>

definition EndReadOnly :: "unit io" where
  "EndReadOnly = infra (ret ())"

definition reads :: "(store \<Rightarrow> 'a result) \<Rightarrow> 'a io" where
  "reads r = infra (\<lambda>w. (r (w_tx w), w))"

definition writes :: "(store \<Rightarrow> store result) \<Rightarrow> unit io" where
  "writes u = infra (\<lambda>w. case u (w_tx w) of Inl e \<Rightarrow> (Inl e, w) | Inr s \<Rightarrow> (Inr (), w\<lparr>w_tx := s\<rparr>))"

section \<open>Agents, vault and signals\<close>

definition dispatchToAgent :: "dispatch \<Rightarrow> unit io" where
  "dispatchToAgent d w =
     (let w' = w\<lparr>w_step := Suc (w_step w), w_dispatched := w_dispatched w @ [d]\<rparr>
      in case w_agent w (w_step w) of Some e \<Rightarrow> (Inl e, w') | None \<Rightarrow> (Inr (), w'))"

definition putSecret :: "ProducedSecret \<Rightarrow> unit io" where
  "putSecret p = infra (\<lambda>w. (Inr (), w\<lparr>w_vault := vaultPut p (w_vault w)\<rparr>))"

definition deleteSecret :: "SecretRef \<Rightarrow> unit io" where
  "deleteSecret ref =
     infra (\<lambda>w. case vaultDelete ref (w_vault w) of
                  Inl e \<Rightarrow> (Inl e, w) | Inr v \<Rightarrow> (Inr (), w\<lparr>w_vault := v\<rparr>))"

definition SignalFulfillmentEvent :: "FulfillmentID \<Rightarrow> FulfillmentEvent \<Rightarrow> unit io" where
  "SignalFulfillmentEvent f ev = infra (\<lambda>w. (Inr (), w\<lparr>w_signals := w_signals w @ [(f, ev)]\<rparr>))"

definition SignalDeleteCleanupComplete :: "FulfillmentID \<Rightarrow> unit io" where
  "SignalDeleteCleanupComplete f = infra (\<lambda>w. (Inr (), w\<lparr>w_cleanups := w_cleanups w @ [f]\<rparr>))"

text \<open>
  Starting a workflow (\<^verbatim>\<open>OrchestrationWorkflow.Start\<close> and the like), drawing an
  identifier (\<^verbatim>\<open>uuid.New\<close>) and a durable pause (\<^verbatim>\<open>Record.Sleep\<close>).
\<close>

definition startWorkflow :: "workflow_start \<Rightarrow> unit io" where
  "startWorkflow st w =
     (case w_engine w (w_step w) of
        Some e \<Rightarrow> (Inl e, w\<lparr>w_step := Suc (w_step w)\<rparr>)
      | None \<Rightarrow> (Inr (), w\<lparr>w_step := Suc (w_step w), w_started := w_started w @ [st]\<rparr>))"

definition newUUID :: "string io" where
  "newUUID w = (Inr (w_uuid w (w_step w)), w\<lparr>w_step := Suc (w_step w)\<rparr>)"

definition Sleep :: "unit io" where
  "Sleep = infra (ret ())"

section \<open>Activities\<close>

definition activityMaxAttempts :: nat where
  "activityMaxAttempts = 10"

fun attempts :: "nat \<Rightarrow> 'a io \<Rightarrow> 'a io" where
  "attempts 0 act w = act w"
| "attempts (Suc n) act w =
     (case act w of
        (Inr x, w') \<Rightarrow> (Inr x, w')
      | (Inl e, w') \<Rightarrow> if IsTerminal (Some e) then (Inl e, w') else attempts n act w')"

text \<open>
  \<^verbatim>\<open>baseRecord.Run\<close>: up to ten attempts, none after a terminal error. The JSON round trip of
  input and output keeps every value passed here (a fulfillment comes back \<open>reloaded\<close>; raw
  documents lose insignificant space), and the cancellation of the engine is not modelled.
\<close>

definition RunActivity :: "'a io \<Rightarrow> 'a io" where
  "RunActivity act = attempts (activityMaxAttempts - 1) act"

section \<open>Reasoning about effects\<close>

text \<open>
  \<open>triple P m Q R\<close>: started in a world satisfying \<open>P\<close>, \<open>m\<close> ends with a value and a world
  satisfying \<open>Q\<close> or with an error and a world satisfying \<open>R\<close>.
\<close>

definition triple :: "(world \<Rightarrow> bool) \<Rightarrow> 'a io \<Rightarrow> ('a \<Rightarrow> world \<Rightarrow> bool) \<Rightarrow> (error \<Rightarrow> world \<Rightarrow> bool) \<Rightarrow> bool" where
  "triple P m Q R \<longleftrightarrow>
     (\<forall>w. P w \<longrightarrow> (case m w of (Inr x, w') \<Rightarrow> Q x w' | (Inl e, w') \<Rightarrow> R e w'))"

lemma tripleI: "(\<And>w. P w \<Longrightarrow> case m w of (Inr x, w') \<Rightarrow> Q x w' | (Inl e, w') \<Rightarrow> R e w') \<Longrightarrow> triple P m Q R"
  by (simp add: triple_def)

lemma tripleD_Inr: "triple P m Q R \<Longrightarrow> P w \<Longrightarrow> m w = (Inr x, w') \<Longrightarrow> Q x w'"
  by (fastforce simp: triple_def)

lemma tripleD_Inl: "triple P m Q R \<Longrightarrow> P w \<Longrightarrow> m w = (Inl e, w') \<Longrightarrow> R e w'"
  by (fastforce simp: triple_def)

lemma triple_weaken:
  "triple P' m Q' R' \<Longrightarrow> (\<And>w. P w \<Longrightarrow> P' w) \<Longrightarrow> (\<And>x w. Q' x w \<Longrightarrow> Q x w) \<Longrightarrow> (\<And>e w. R' e w \<Longrightarrow> R e w) \<Longrightarrow>
   triple P m Q R"
  by (auto simp: triple_def split: prod.splits sum.splits) blast+

lemma triple_ret: "(\<And>w. P w \<Longrightarrow> Q x w) \<Longrightarrow> triple P (ret x) Q R"
  by (simp add: triple_def ret_def)

lemma triple_throw: "(\<And>w. P w \<Longrightarrow> R e w) \<Longrightarrow> triple P (throw e) Q R"
  by (simp add: triple_def throw_def)

lemma triple_andThen:
  "triple P m B R \<Longrightarrow> (\<And>x. triple (B x) (k x) Q R) \<Longrightarrow> triple P (andThen m k) Q R"
  unfolding triple_def andThen_def by (fastforce split: prod.splits sum.splits)

lemma triple_caught:
  "triple P m (\<lambda>x. Q (Inr x)) (\<lambda>e. Q (Inl e)) \<Longrightarrow> triple P (caught m) Q R"
  unfolding triple_def caught_def by (fastforce split: prod.splits sum.splits)

lemma triple_wrap:
  "triple P m Q (\<lambda>e. R (Wrapped p e '''')) \<Longrightarrow> triple P (wrap p m) Q R"
  unfolding triple_def wrap_def by (fastforce split: prod.splits sum.splits)

lemma triple_forEach:
  "(\<And>x. x \<in> set xs \<Longrightarrow> triple I (body x) (\<lambda>_. I) R) \<Longrightarrow> triple I (forEach xs body) (\<lambda>_. I) R"
  by (induction xs) (auto intro!: triple_ret triple_andThen)

lemma triple_attempts:
  assumes "triple I act Q (\<lambda>e w. I w \<and> R e w)"
  shows "triple I (attempts n act) Q (\<lambda>e w. I w \<and> R e w)"
proof (induction n)
  case 0
  then show ?case using assms by (simp add: triple_def)
next
  case (Suc n)
  show ?case
  proof (rule tripleI)
    fix w assume I: "I w"
    obtain r w' where act: "act w = (r, w')" by (cases "act w")
    show "case attempts (Suc n) act w of (Inr x, w') \<Rightarrow> Q x w' | (Inl e, w') \<Rightarrow> I w' \<and> R e w'"
    proof (cases r)
      case (Inr x)
      with act tripleD_Inr [OF assms I] show ?thesis by simp
    next
      case (Inl e)
      with act have IR: "I w' \<and> R e w'" using tripleD_Inl [OF assms I] by blast
      show ?thesis
      proof (cases "IsTerminal (Some e)")
        case True
        with act Inl IR show ?thesis by simp
      next
        case False
        with act Inl have "attempts (Suc n) act w = attempts n act w'" by simp
        then show ?thesis using Suc IR unfolding triple_def by simp
      qed
    qed
  qed
qed

lemma triple_RunActivity:
  "triple I act Q (\<lambda>e w. I w \<and> R e w) \<Longrightarrow> triple I (RunActivity act) Q (\<lambda>e w. I w \<and> R e w)"
  unfolding RunActivity_def by (rule triple_attempts)

section \<open>Stepping through an operation\<close>

text \<open>
  \<open>at w v\<close>: the world is \<open>w\<close> up to the number of infrastructure calls made. \<open>steps w m S\<close>:
  one primitive call \<open>m\<close> made in world \<open>w\<close> either fails and leaves the world as it is, or
  returns a value and moves to a world related to it by \<open>S\<close>.
\<close>

definition at :: "world \<Rightarrow> world \<Rightarrow> bool" where
  "at w v \<longleftrightarrow>
     w_db v = w_db w \<and> w_tx v = w_tx w \<and> w_vault v = w_vault w \<and> w_faults v = w_faults w \<and>
     w_agent v = w_agent w \<and> w_others v = w_others w \<and> w_inbox v = w_inbox w \<and>
     w_engine v = w_engine w \<and> w_uuid v = w_uuid w \<and> w_started v = w_started w \<and>
     w_dispatched v = w_dispatched w \<and> w_signals v = w_signals w \<and> w_cleanups v = w_cleanups w"

definition steps :: "world \<Rightarrow> 'a io \<Rightarrow> ('a \<Rightarrow> world \<Rightarrow> bool) \<Rightarrow> bool" where
  "steps w m S \<longleftrightarrow> triple (at w) m (\<lambda>x v. \<exists>w'. S x w' \<and> at w' v) (\<lambda>_. at w)"

lemma at_refl [simp]: "at w w"
  by (simp add: at_def)

lemma at_step: "at w v \<Longrightarrow> at w (v\<lparr>w_step := n\<rparr>)"
  by (simp add: at_def)

lemma triple_at_some:
  assumes "\<And>w'. S w' \<Longrightarrow> triple (at w') m Q R"
  shows "triple (\<lambda>v. \<exists>w'. S w' \<and> at w' v) m Q R"
proof (rule tripleI)
  fix v assume "\<exists>w'. S w' \<and> at w' v"
  then obtain w' where "S w'" "at w' v" by blast
  with assms [of w'] show "case m v of (Inr x, w') \<Rightarrow> Q x w' | (Inl e, w') \<Rightarrow> R e w'"
    by (simp add: triple_def)
qed

lemma then_steps:
  assumes "steps w m S" "\<And>x w'. S x w' \<Longrightarrow> triple (at w') (k x) Q R" "\<And>e v. at w v \<Longrightarrow> R e v"
  shows "triple (at w) (andThen m k) Q R"
proof (rule triple_andThen)
  show "triple (at w) m (\<lambda>x v. \<exists>w'. S x w' \<and> at w' v) R"
    by (rule triple_weaken [OF assms(1) [unfolded steps_def]]) (auto intro: assms(3))
  show "triple (\<lambda>v. \<exists>w'. S x w' \<and> at w' v) (k x) Q R" for x
    by (rule triple_at_some) (rule assms(2))
qed

lemma last_steps:
  assumes "steps w m S" "\<And>x w' v. S x w' \<Longrightarrow> at w' v \<Longrightarrow> Q x v" "\<And>e v. at w v \<Longrightarrow> R e v"
  shows "triple (at w) m Q R"
  by (rule triple_weaken [OF assms(1) [unfolded steps_def]]) (auto intro: assms(2,3))

lemma at_ret: "(\<And>v. at w v \<Longrightarrow> Q x v) \<Longrightarrow> triple (at w) (ret x) Q R"
  by (rule triple_ret)

lemma at_throw: "(\<And>v. at w v \<Longrightarrow> R e v) \<Longrightarrow> triple (at w) (throw e) Q R"
  by (rule triple_throw)

lemma at_caught:
  assumes "steps w m S" "\<And>x w'. S x w' \<Longrightarrow> triple (at w') (k (Inr x)) Q R" "\<And>e. triple (at w) (k (Inl e)) Q R"
  shows "triple (at w) (andThen (caught m) k) Q R"
proof (rule triple_andThen)
  let ?B = "\<lambda>r v. case r of Inr x \<Rightarrow> \<exists>w'. S x w' \<and> at w' v | Inl e \<Rightarrow> at w v"
  show "triple (at w) (caught m) ?B R"
    by (rule triple_caught) (use assms(1) in \<open>simp add: steps_def\<close>)
  show "triple (?B r) (k r) Q R" for r
    by (cases r) (use assms(2,3) in \<open>auto intro: triple_at_some\<close>)
qed

lemma steps_wrap: "steps w m S \<Longrightarrow> steps w (wrap p m) S"
  unfolding steps_def by (rule triple_wrap)

lemma steps_throw: "steps w (throw e) S"
  unfolding steps_def by (rule triple_throw)

lemma steps_infra:
  assumes "\<And>v. at w v \<Longrightarrow> case m v of (Inr x, v') \<Rightarrow> \<exists>w'. S x w' \<and> at w' v' | (Inl e, v') \<Rightarrow> at w v'"
  shows "steps w (infra m) S"
  unfolding steps_def
proof (rule tripleI)
  fix v assume "at w v"
  then have "at w (v\<lparr>w_step := Suc (w_step v)\<rparr>)" by (rule at_step)
  with assms show "case infra m v of (Inr x, w') \<Rightarrow> \<exists>w'a. S x w'a \<and> at w'a w' | (Inl e, w') \<Rightarrow> at w w'"
    by (simp add: infra_def split: option.split)
qed

definition begun :: "world \<Rightarrow> world" where
  "begun w = w\<lparr>w_db := dbAtBegin w, w_tx := dbAtBegin w, w_others := tl (w_others w)\<rparr>"

lemma steps_beginTx: "steps w (beginTx what) (\<lambda>_ w'. w' = begun w)"
  unfolding beginTx_def
  by (intro steps_wrap steps_infra) (auto simp: at_def begun_def dbAtBegin_def split: list.split)

lemma steps_Begin: "steps w Begin (\<lambda>_ w'. w' = begun w)"
  unfolding Begin_def by (rule steps_beginTx)

lemma steps_BeginReadOnly: "steps w BeginReadOnly (\<lambda>_ w'. w' = begun w)"
  unfolding BeginReadOnly_def by (rule steps_beginTx)

lemma steps_Commit: "steps w Commit (\<lambda>_ w'. w' = w\<lparr>w_db := w_tx w\<rparr>)"
  unfolding Commit_def by (rule steps_infra) (auto simp: at_def)

lemma steps_EndReadOnly: "steps w EndReadOnly (\<lambda>_ w'. w' = w)"
  unfolding EndReadOnly_def by (rule steps_infra) (auto simp: at_def ret_def)

lemma steps_reads: "steps w (reads r) (\<lambda>x w'. r (w_tx w) = Inr x \<and> w' = w)"
  unfolding reads_def by (rule steps_infra) (auto simp: at_def split: sum.split)

lemma steps_writes: "steps w (writes u) (\<lambda>_ w'. \<exists>s. u (w_tx w) = Inr s \<and> w' = w\<lparr>w_tx := s\<rparr>)"
  unfolding writes_def by (rule steps_infra) (auto simp: at_def split: sum.split)

lemma steps_Signal:
  "steps w (SignalFulfillmentEvent f ev) (\<lambda>_ w'. w' = w\<lparr>w_signals := w_signals w @ [(f, ev)]\<rparr>)"
  unfolding SignalFulfillmentEvent_def by (rule steps_infra) (auto simp: at_def)

lemma steps_Cleanup:
  "steps w (SignalDeleteCleanupComplete f) (\<lambda>_ w'. w' = w\<lparr>w_cleanups := w_cleanups w @ [f]\<rparr>)"
  unfolding SignalDeleteCleanupComplete_def by (rule steps_infra) (auto simp: at_def)

lemma steps_putSecret: "steps w (putSecret p) (\<lambda>_ w'. w' = w\<lparr>w_vault := vaultPut p (w_vault w)\<rparr>)"
  unfolding putSecret_def by (rule steps_infra) (auto simp: at_def)

lemma steps_deleteSecret:
  "steps w (deleteSecret ref) (\<lambda>_ w'. \<exists>v. vaultDelete ref (w_vault w) = Inr v \<and> w' = w\<lparr>w_vault := v\<rparr>)"
  unfolding deleteSecret_def by (rule steps_infra) (auto simp: at_def split: sum.split)

lemma steps_startWorkflow:
  "steps w (startWorkflow st) (\<lambda>_ w'. w' = w\<lparr>w_started := w_started w @ [st]\<rparr>)"
  unfolding steps_def
  by (rule tripleI) (auto simp: startWorkflow_def at_def split: option.split)

lemma steps_newUUID: "steps w newUUID (\<lambda>_ w'. w' = w)"
  unfolding steps_def by (rule tripleI) (auto simp: newUUID_def at_def)

lemma steps_Sleep: "steps w Sleep (\<lambda>_ w'. w' = w)"
  unfolding Sleep_def by (rule steps_infra) (auto simp: at_def ret_def)

lemmas steps_rules = steps_startWorkflow steps_newUUID steps_Sleep steps_wrap steps_Begin steps_BeginReadOnly steps_Commit steps_EndReadOnly steps_reads
  steps_writes steps_Signal steps_Cleanup steps_putSecret steps_deleteSecret

text \<open>A call to an agent is recorded whether it succeeds or not.\<close>

lemma at_dispatch:
  assumes "\<And>v. at (w\<lparr>w_dispatched := w_dispatched w @ [d]\<rparr>) v \<Longrightarrow> Q () v"
    and "\<And>e v. at (w\<lparr>w_dispatched := w_dispatched w @ [d]\<rparr>) v \<Longrightarrow> R e v"
  shows "triple (at w) (dispatchToAgent d) Q R"
proof (rule tripleI)
  fix v assume "at w v"
  then have "at (w\<lparr>w_dispatched := w_dispatched w @ [d]\<rparr>)
      (v\<lparr>w_step := Suc (w_step v), w_dispatched := w_dispatched v @ [d]\<rparr>)"
    by (auto simp: at_def)
  with assms show "case dispatchToAgent d v of (Inr x, w') \<Rightarrow> Q x w' | (Inl e, w') \<Rightarrow> R e w'"
    by (simp add: dispatchToAgent_def Let_def split: option.split)
qed

text \<open>
  The rules that walk through the body of an operation call by call: one for each primitive, plain
  or with its error wrapped, and for branching.
\<close>

lemma begun_simps [simp]:
  "w_db (begun w) = dbAtBegin w" "w_tx (begun w) = dbAtBegin w" "w_others (begun w) = tl (w_others w)"
  "w_vault (begun w) = w_vault w" "w_inbox (begun w) = w_inbox w" "w_dispatched (begun w) = w_dispatched w"
  "w_signals (begun w) = w_signals w" "w_cleanups (begun w) = w_cleanups w"
  "w_faults (begun w) = w_faults w" "w_agent (begun w) = w_agent w" "w_engine (begun w) = w_engine w"
  "w_uuid (begun w) = w_uuid w" "w_started (begun w) = w_started w"
  by (simp_all add: begun_def)

lemma triple_if:
  "(b \<Longrightarrow> triple P m Q R) \<Longrightarrow> (\<not> b \<Longrightarrow> triple P n Q R) \<Longrightarrow> triple P (if b then m else n) Q R"
  by simp

lemma triple_sum:
  "(\<And>e. r = Inl e \<Longrightarrow> triple P (f e) Q R) \<Longrightarrow> (\<And>x. r = Inr x \<Longrightarrow> triple P (g x) Q R) \<Longrightarrow>
   triple P (case r of Inl e \<Rightarrow> f e | Inr x \<Rightarrow> g x) Q R"
  by (cases r) simp_all

lemma triple_option:
  "(r = None \<Longrightarrow> triple P f Q R) \<Longrightarrow> (\<And>x. r = Some x \<Longrightarrow> triple P (g x) Q R) \<Longrightarrow>
   triple P (case r of None \<Rightarrow> f | Some x \<Rightarrow> g x) Q R"
  by (cases r) simp_all

lemma triple_prod:
  "(\<And>a b. p = (a, b) \<Longrightarrow> triple P (f a b) Q R) \<Longrightarrow> triple P (case p of (a, b) \<Rightarrow> f a b) Q R"
  by (cases p) simp

lemma triple_list:
  "(xs = [] \<Longrightarrow> triple P f Q R) \<Longrightarrow> (\<And>y ys. xs = y # ys \<Longrightarrow> triple P (g y ys) Q R) \<Longrightarrow>
   triple P (case xs of [] \<Rightarrow> f | y # ys \<Rightarrow> g y ys) Q R"
  by (cases xs) simp_all

lemma triple_then_if:
  "(b \<Longrightarrow> triple P (andThen m k) Q R) \<Longrightarrow> (\<not> b \<Longrightarrow> triple P (andThen n k) Q R) \<Longrightarrow>
   triple P (andThen (if b then m else n) k) Q R"
  by simp

lemma then_ret: "triple P (k x) Q R \<Longrightarrow> triple P (andThen (ret x) k) Q R"
  by (simp add: triple_def andThen_def ret_def)

lemma andThen_assoc: "andThen (andThen m k) l = andThen m (\<lambda>x. andThen (k x) l)"
  by (rule ext) (simp add: andThen_def split: prod.split sum.split)

lemma triple_then_assoc:
  "triple P (andThen m (\<lambda>x. andThen (k x) l)) Q R \<Longrightarrow> triple P (andThen (andThen m k) l) Q R"
  by (simp add: andThen_assoc)

lemma at_dispatch_wrap:
  assumes "\<And>v. at (w\<lparr>w_dispatched := w_dispatched w @ [d]\<rparr>) v \<Longrightarrow> Q () v"
    and "\<And>e v. at (w\<lparr>w_dispatched := w_dispatched w @ [d]\<rparr>) v \<Longrightarrow> R e v"
  shows "triple (at w) (wrap p (dispatchToAgent d)) Q R"
  by (rule triple_wrap, rule at_dispatch) (rule assms, assumption)+

lemma then_dispatch_wrap:
  assumes "triple (at (w\<lparr>w_dispatched := w_dispatched w @ [d]\<rparr>)) (k ()) Q R"
    and "\<And>e v. at (w\<lparr>w_dispatched := w_dispatched w @ [d]\<rparr>) v \<Longrightarrow> R e v"
  shows "triple (at w) (andThen (wrap p (dispatchToAgent d)) k) Q R"
  by (rule triple_andThen, rule at_dispatch_wrap [where Q = "\<lambda>_. at (w\<lparr>w_dispatched := w_dispatched w @ [d]\<rparr>)"])
    (use assms in auto)

lemmas then_rules =
  then_steps [OF steps_wrap [OF steps_Begin], simplified]
  then_steps [OF steps_wrap [OF steps_BeginReadOnly], simplified]
  then_steps [OF steps_wrap [OF steps_Commit], simplified]
  then_steps [OF steps_wrap [OF steps_EndReadOnly], simplified]
  then_steps [OF steps_wrap [OF steps_reads], simplified]
  then_steps [OF steps_wrap [OF steps_writes], simplified]
  then_steps [OF steps_wrap [OF steps_Signal], simplified]
  then_steps [OF steps_wrap [OF steps_Cleanup], simplified]
  then_steps [OF steps_wrap [OF steps_putSecret], simplified]
  then_steps [OF steps_wrap [OF steps_deleteSecret], simplified]
  then_steps [OF steps_Begin, simplified]
  then_steps [OF steps_BeginReadOnly, simplified]
  then_steps [OF steps_Commit, simplified]
  then_steps [OF steps_EndReadOnly, simplified]
  then_steps [OF steps_reads, simplified]
  then_steps [OF steps_writes, simplified]
  then_steps [OF steps_startWorkflow, simplified]
  then_steps [OF steps_newUUID, simplified]
  then_steps [OF steps_Sleep, simplified]
  then_dispatch_wrap then_ret triple_then_if triple_then_assoc

lemmas last_rules =
  last_steps [OF steps_wrap [OF steps_Begin], simplified]
  last_steps [OF steps_wrap [OF steps_Commit], simplified]
  last_steps [OF steps_wrap [OF steps_Signal], simplified]
  last_steps [OF steps_wrap [OF steps_Cleanup], simplified]
  last_steps [OF steps_Commit, simplified]
  last_steps [OF steps_EndReadOnly, simplified]
  last_steps [OF steps_startWorkflow, simplified]
  at_dispatch_wrap at_ret at_throw

lemmas run_rules = then_rules last_rules triple_if triple_sum triple_option triple_list

lemma outcome_of_triple:
  assumes "triple (at w) m (\<lambda>_. Q) (\<lambda>_. Q)"
  shows "Q (snd (m w))"
  using assms at_refl [of w] unfolding triple_def by (fastforce split: prod.splits sum.splits)

section \<open>Running without faults\<close>

lemma andThen_Inr: "m w = (Inr x, v) \<Longrightarrow> andThen m k w = k x v"
  by (simp add: andThen_def)

lemma andThen_Inl: "m w = (Inl e, v) \<Longrightarrow> andThen m k w = (Inl e, v)"
  by (simp add: andThen_def)

lemma wrap_Inr: "m w = (Inr x, v) \<Longrightarrow> wrap p m w = (Inr x, v)"
  by (simp add: wrap_def)

lemma calm_primitives:
  assumes "w_faults w = (\<lambda>_. None)"
  shows "Begin w = (Inr (), (begun w)\<lparr>w_step := Suc (w_step w)\<rparr>)"
    and "BeginReadOnly w = (Inr (), (begun w)\<lparr>w_step := Suc (w_step w)\<rparr>)"
    and "Commit w = (Inr (), w\<lparr>w_db := w_tx w, w_step := Suc (w_step w)\<rparr>)"
    and "EndReadOnly w = (Inr (), w\<lparr>w_step := Suc (w_step w)\<rparr>)"
    and "reads r w = (r (w_tx w), w\<lparr>w_step := Suc (w_step w)\<rparr>)"
    and "writes u w = (case u (w_tx w) of Inl e \<Rightarrow> (Inl e, w\<lparr>w_step := Suc (w_step w)\<rparr>)
                                       | Inr s \<Rightarrow> (Inr (), w\<lparr>w_tx := s, w_step := Suc (w_step w)\<rparr>))"
    and "putSecret p w = (Inr (), w\<lparr>w_vault := vaultPut p (w_vault w), w_step := Suc (w_step w)\<rparr>)"
    and "SignalDeleteCleanupComplete f w =
      (Inr (), w\<lparr>w_cleanups := w_cleanups w @ [f], w_step := Suc (w_step w)\<rparr>)"
  using assms
  by (simp_all add: Begin_def BeginReadOnly_def beginTx_def Commit_def EndReadOnly_def reads_def writes_def putSecret_def
      SignalDeleteCleanupComplete_def infra_def ret_def wrap_def begun_def dbAtBegin_def split: list.split sum.split)

lemmas calm_rules = calm_primitives andThen_Inr wrap_Inr

section \<open>Relations that every step keeps\<close>

text \<open>
  \<open>keeps R m\<close>: whatever \<open>m\<close> returns, the world it ends in is related by \<open>R\<close> to the world it
  started in. For a reflexive and transitive \<open>R\<close> this is closed under all the ways in which
  computations are composed.
\<close>

definition keeps :: "(world \<Rightarrow> world \<Rightarrow> bool) \<Rightarrow> (world \<Rightarrow> 'x \<times> world) \<Rightarrow> bool" where
  "keeps R m \<longleftrightarrow> (\<forall>w. R w (snd (m w)))"

lemma keepsI: "(\<And>w r v. m w = (r, v) \<Longrightarrow> R w v) \<Longrightarrow> keeps R m"
  unfolding keeps_def by (metis prod.collapse)

lemma keepsD: "keeps R m \<Longrightarrow> m w = (r, v) \<Longrightarrow> R w v"
  unfolding keeps_def by (metis snd_conv)

lemma keeps_if: "keeps R m \<Longrightarrow> keeps R n \<Longrightarrow> keeps R (if b then m else n)"
  by simp

lemma keeps_sum:
  "(\<And>e. keeps R (f e)) \<Longrightarrow> (\<And>x. keeps R (g x)) \<Longrightarrow> keeps R (case r of Inl e \<Rightarrow> f e | Inr x \<Rightarrow> g x)"
  by (cases r) simp_all

lemma keeps_option:
  "keeps R f \<Longrightarrow> (\<And>x. keeps R (g x)) \<Longrightarrow> keeps R (case r of None \<Rightarrow> f | Some x \<Rightarrow> g x)"
  by (cases r) simp_all

lemma keeps_list:
  "keeps R f \<Longrightarrow> (\<And>y ys. keeps R (g y ys)) \<Longrightarrow> keeps R (case xs of [] \<Rightarrow> f | y # ys \<Rightarrow> g y ys)"
  by (cases xs) simp_all

lemma keeps_triple:
  assumes "\<And>w. triple (at w) m (\<lambda>_. R w) (\<lambda>_. R w)"
  shows "keeps R m"
  unfolding keeps_def using outcome_of_triple [OF assms] by blast

locale world_relation =
  fixes R :: "world \<Rightarrow> world \<Rightarrow> bool"
  assumes refl: "R w w"
    and trans: "R u v \<Longrightarrow> R v w \<Longrightarrow> R u w"
begin

lemma keeps_ret: "keeps R (ret x)"
  by (simp add: keeps_def ret_def refl)

lemma keeps_throw: "keeps R (throw e)"
  by (simp add: keeps_def throw_def refl)

lemma keeps_andThen: "keeps R m \<Longrightarrow> (\<And>x. keeps R (k x)) \<Longrightarrow> keeps R (andThen m k)"
  by (rule keepsI) (auto simp: andThen_def split: prod.splits sum.splits dest!: keepsD intro: trans)

lemma keeps_wrap: "keeps R m \<Longrightarrow> keeps R (wrap p m)"
  by (rule keepsI) (auto simp: wrap_def split: prod.splits sum.splits dest!: keepsD)

lemma keeps_caught: "keeps R m \<Longrightarrow> keeps R (caught m)"
  by (rule keepsI) (auto simp: caught_def split: prod.splits dest!: keepsD)

lemma keeps_forEach: "(\<And>x. keeps R (body x)) \<Longrightarrow> keeps R (forEach xs body)"
  by (induction xs) (simp_all add: keeps_ret keeps_andThen)

lemma keeps_attempts: "keeps R act \<Longrightarrow> keeps R (attempts n act)"
proof (induction n)
  case 0
  then show ?case by (simp add: keeps_def)
next
  case (Suc n)
  show ?case
  proof (rule keepsI)
    fix w r v
    assume run: "attempts (Suc n) act w = (r, v)"
    obtain q u where act: "act w = (q, u)" by (cases "act w")
    have "v = u \<or> attempts n act u = (r, v)"
      using run act by (auto split: sum.splits if_splits)
    then show "R w v"
      using keepsD [OF Suc.prems act] keepsD [OF Suc.IH [OF Suc.prems]] by (blast intro: trans)
  qed
qed

lemma keeps_RunActivity: "keeps R act \<Longrightarrow> keeps R (RunActivity act)"
  unfolding RunActivity_def by (rule keeps_attempts)

lemma keeps_infra:
  assumes "keeps R m" "\<And>w. R w (w\<lparr>w_step := Suc (w_step w)\<rparr>)"
  shows "keeps R (infra m)"
  by (rule keepsI) (use assms in \<open>auto simp: infra_def split: option.splits dest!: keepsD intro: trans\<close>)

lemmas rules = keeps_ret keeps_throw keeps_andThen keeps_wrap keeps_caught keeps_forEach
  keeps_if keeps_sum keeps_option keeps_list

end

lemma attempts_Inr: "attempts n act w = (Inr x, v) \<Longrightarrow> \<exists>u. act u = (Inr x, v)"
  by (induction n arbitrary: w) (auto split: prod.splits sum.splits if_splits)

lemma RunActivity_Inr: "RunActivity act w = (Inr x, v) \<Longrightarrow> \<exists>u. act u = (Inr x, v)"
  unfolding RunActivity_def by (rule attempts_Inr)

end
