(* ===== verification/FS_Evidence.thy ===== *)
theory FS_Evidence
  imports FS_World
begin

text \<open>
  Attestation evidence: the assembler that resolves it from the store
  (\<^verbatim>\<open>AttestationAssembler.Resolve\<close> in \<^verbatim>\<open>server/internal/domain/attestation.go\<close>) and the
  pure functions that compose the bundle sent along with a delivery or a removal
  (\<^verbatim>\<open>AssembleDeliverAttestation\<close>, \<^verbatim>\<open>assembleRemoveAttestation\<close> in
  \<^verbatim>\<open>orchestration.go\<close>); and the manifest strategies (\<^verbatim>\<open>inline_manifest.go\<close>,
  \<^verbatim>\<open>managed_resource_manifest.go\<close>, \<^verbatim>\<open>strategy_factory.go\<close>).
\<close>

section \<open>Resolving evidence\<close>

definition assertionOf :: "SignerEnrollment \<Rightarrow> SignerAssertion" where
  "assertionOf e =
     \<lparr>sa_IdentityToken = en_identityToken e, sa_RegistryID = en_registryID e,
      sa_RegistrySubject = en_registrySubject e\<rparr>"

definition Resolve :: "Fulfillment \<Rightarrow> ResolvedEvidence option io" where
  "Resolve f =
     (case f_provenance f of
        None \<Rightarrow> ret None
      | Some prov \<Rightarrow>
          andThen (wrap ''list signer enrollments: ''
                    (reads (\<lambda>s. Inr (enrollmentsListBySubject (sg_Signer (pr_Sig prov)) s))))
            (\<lambda>found.
               case found of
                 [] \<Rightarrow> throw (Plain (''no signer enrollment found for '' @ fi_Subject (sg_Signer (pr_Sig prov)) @
                         '' / '' @ fi_Issuer (sg_Signer (pr_Sig prov))))
               | enrollment # _ \<Rightarrow>
                   (case f_attestationRef f of
                      None \<Rightarrow>
                        ret (Some \<lparr>ev_SignerAssertion = Some (assertionOf enrollment), ev_SignedRelation = None\<rparr>)
                    | Some ref \<Rightarrow>
                        (case ar_RelationRef ref of
                           None \<Rightarrow>
                             ret (Some \<lparr>ev_SignerAssertion = Some (assertionOf enrollment),
                                        ev_SignedRelation = None\<rparr>)
                         | Some rt \<Rightarrow>
                             andThen (wrap (''get extension resource type '' @ quote rt @ '': '') (reads (extGetType rt)))
                               (\<lambda>et.
                                  case et_management et of
                                    None \<Rightarrow> throw (Plain (''extension resource type '' @ quote rt @
                                              '' has no management metadata''))
                                  | Some m \<Rightarrow>
                                      ret (Some
                                        \<lparr>ev_SignerAssertion = Some (assertionOf enrollment),
                                         ev_SignedRelation =
                                           Some \<lparr>sr_ResourceType = rt, sr_Relation = Some (mt_relation m),
                                                 sr_Signature = mt_signature m\<rparr>\<rparr>))))))"

section \<open>Composing attestations\<close>

text \<open>
  Both functions dereference the provenance and the signer assertion; the evidence is only
  resolved for a fulfillment with provenance and always holds an assertion, so the result is an
  option only because the model has no dereference of nil.
\<close>

definition signedInputOf :: "Fulfillment \<Rightarrow> ResolvedEvidence \<Rightarrow> SignedInput option" where
  "signedInputOf f ev =
     (case (f_provenance f, ev_SignerAssertion ev) of
        (Some p, Some a) \<Rightarrow> Some \<lparr>si_Provenance = p, si_Signer = a\<rparr>
      | _ \<Rightarrow> None)"

definition AssembleDeliverAttestation :: "Fulfillment \<Rightarrow> Manifest list \<Rightarrow> ResolvedEvidence \<Rightarrow> Attestation option" where
  "AssembleDeliverAttestation f manifests ev =
     (case signedInputOf f ev of
        None \<Rightarrow> None
      | Some input \<Rightarrow>
          Some \<lparr>at_Input = input, at_SignedRelation = ev_SignedRelation ev,
                at_Output = Some (PutManifests (Some manifests))\<rparr>)"

definition assembleRemoveAttestation :: "Fulfillment \<Rightarrow> ResolvedEvidence \<Rightarrow> Attestation option" where
  "assembleRemoveAttestation f ev =
     (case signedInputOf f ev of
        None \<Rightarrow> None
      | Some input \<Rightarrow>
          (case pr_Content (si_Provenance input) of
             None \<Rightarrow> None
           | Some content \<Rightarrow>
               Some \<lparr>at_Input = input, at_SignedRelation = ev_SignedRelation ev,
                     at_Output = Some (RemoveByDeploymentName (Some (ContentID content)))\<rparr>))"

section \<open>Generating manifests\<close>

datatype ManifestStrategy =
    InlineManifestStrategy "Manifest list"
  | ManagedResourceManifestStrategy IntentRef

definition factoryManifestStrategy :: "ManifestStrategySpec \<Rightarrow> ManifestStrategy result" where
  "factoryManifestStrategy ms =
     (if ms_Type ms = ManifestStrategyInline then Inr (InlineManifestStrategy (ms_Manifests ms))
      else if ms_Type ms = ManifestStrategyManagedResource
      then Inr (ManagedResourceManifestStrategy (ms_IntentRef ms))
      else Inl (Wrapped '''' (Sentinel ErrInvalidArgument)
             ('': unsupported manifest strategy type '' @ quote (ms_Type ms))))"

definition WrapManagedResourceSpec :: "ResourceName \<Rightarrow> ExtensionResourceUID \<Rightarrow> bytes \<Rightarrow> bytes result" where
  "WrapManagedResourceSpec name uid body =
     (case encodeRaw body of
        Inl e \<Rightarrow> Inl e
      | Inr raw \<Rightarrow>
          Inr (''{'' @ encodeString ''name'' @ '':'' @ encodeString name @ '','' @
               encodeString ''uid'' @ '':'' @ encodeString uid @ '','' @
               encodeString ''spec'' @ '':'' @ raw @ ''}''))"

fun Generate :: "ManifestStrategy \<Rightarrow> Manifest list io" where
  "Generate (InlineManifestStrategy ms) = ret ms"
| "Generate (ManagedResourceManifestStrategy ref) =
     andThen BeginReadOnly (\<lambda>_.
     andThen (reads (extGetIntent (ir_ExtensionResourceUID ref) (ir_Version ref))) (\<lambda>intent.
     andThen (reads (extGetByUID (ir_ExtensionResourceUID ref))) (\<lambda>resource.
     case WrapManagedResourceSpec (er_name resource) (ir_ExtensionResourceUID ref) (ri_Spec intent) of
       Inl e \<Rightarrow> throw (Wrapped ''wrap managed resource spec: '' e '''')
     | Inr raw \<Rightarrow>
         ret [\<lparr>mf_type = ir_ManifestType ref, mf_id = ir_ExtensionResourceUID ref, mf_raw = raw\<rparr>])))"

text \<open>The \<^verbatim>\<open>generate-manifests\<close> activity.\<close>

definition GenerateManifests :: "ManifestStrategySpec \<Rightarrow> Manifest list io" where
  "GenerateManifests ms =
     (case factoryManifestStrategy ms of
        Inl e \<Rightarrow> throw e
      | Inr strategy \<Rightarrow> Generate strategy)"

end
