(* ===== verification/FS_Reporting.thy ===== *)
theory FS_Reporting
  imports FS_Evidence
begin

text \<open>
  The delivery report service (\<^verbatim>\<open>server/internal/application/delivery_report_service.go\<close>):
  the operations through which add-ons report progress and results and recover their work after
  a restart. The properties: a report for another generation than the stored one changes nothing
  and signals nothing; a signal is only ever sent after the transition it announces is committed;
  reports never move a delivery's generation, manifests or operation; and the recovery list is
  exactly the set of active, current deliveries.
\<close>

section \<open>Reports\<close>

text \<open>
  \<open>signaler\<close> tells whether the service was built with a signaler, \<open>now\<close> is the clock reading.
  The event itself only goes to the observer.
\<close>

definition ReportEvent ::
  "bool \<Rightarrow> go_time \<Rightarrow> DeliveryID \<Rightarrow> Generation \<Rightarrow> DeliveryEvent \<Rightarrow> unit io" where
  "ReportEvent signaler now did gen event =
     andThen (wrap ''begin tx: '' Begin) (\<lambda>_.
     andThen (wrap ''get delivery: '' (reads (deliveriesGet did))) (\<lambda>d.
     if d_generation d \<noteq> gen then ret ()
     else
       case TransitionTo DeliveryStateProgressing now d of
         Inl e \<Rightarrow>
           if errorsIs e ErrIllegalStateTransition then ret ()
           else throw (Wrapped ''transition delivery state: '' e '''')
       | Inr d' \<Rightarrow>
           andThen (wrap ''update delivery state: '' (writes (\<lambda>s. Inr (deliveriesPut d' s)))) (\<lambda>_.
           andThen (wrap ''commit: '' Commit) (\<lambda>_.
           if d_state d = DeliveryStatePending \<and> signaler
           then wrap ''signal ack: ''
                  (SignalFulfillmentEvent (d_fulfillmentID d')
                     (DeliveryAcked \<lparr>ae_DeliveryID = did, ae_Generation = gen\<rparr>))
           else ret ()))))"

definition ReportResult ::
  "bool \<Rightarrow> go_time \<Rightarrow> DeliveryID \<Rightarrow> Generation \<Rightarrow> DeliveryResult \<Rightarrow> unit io" where
  "ReportResult signaler now did gen result =
     andThen (wrap ''begin tx: '' Begin) (\<lambda>_.
     andThen (wrap ''get delivery: '' (reads (deliveriesGet did))) (\<lambda>d.
     if d_generation d \<noteq> gen then ret ()
     else
       case TransitionTo (dr_State result) now d of
         Inl e \<Rightarrow>
           if errorsIs e ErrIllegalStateTransition then ret ()
           else throw (Wrapped ''transition delivery state: '' e '''')
       | Inr d' \<Rightarrow>
           andThen (wrap ''update delivery state: '' (writes (\<lambda>s. Inr (deliveriesPut d' s)))) (\<lambda>_.
           andThen (wrap ''commit: '' Commit) (\<lambda>_.
           if signaler then
             andThen (if d_state d = DeliveryStatePending \<and> \<not> stateIsTerminal (dr_State result)
                      then wrap ''signal ack: ''
                             (SignalFulfillmentEvent (d_fulfillmentID d')
                                (DeliveryAcked \<lparr>ae_DeliveryID = did, ae_Generation = gen\<rparr>))
                      else ret ()) (\<lambda>_.
             if stateIsTerminal (dr_State result)
             then wrap ''signal workflow: ''
                    (SignalFulfillmentEvent (d_fulfillmentID d')
                       (DeliveryCompleted \<lparr>ce_DeliveryID = did, ce_Generation = gen, ce_Result = result\<rparr>))
             else ret ())
           else ret ()))))"

section \<open>Recovering active deliveries\<close>

record ActiveDelivery =
  ad_Delivery :: Delivery
  ad_Target :: TargetInfo
  ad_Auth :: DeliveryAuth
  ad_Attestation :: "Attestation option"

text \<open>Look up each key; a missing row is skipped, any other error is returned.\<close>

fun lookups :: "string \<Rightarrow> (string \<Rightarrow> 'v io) \<Rightarrow> string list \<Rightarrow> (string \<rightharpoonup> 'v) io" where
  "lookups what get [] = ret Map.empty"
| "lookups what get (k # ks) =
     andThen (caught (get k)) (\<lambda>r.
     case r of
       Inl e \<Rightarrow>
         if errorsIs e ErrNotFound then lookups what get ks
         else throw (Wrapped (what @ k @ '': '') e '''')
     | Inr v \<Rightarrow> andThen (lookups what get ks) (\<lambda>m. ret (m(k \<mapsto> v))))"

text \<open>Evidence per fulfillment, best effort: an unsigned or unresolvable one gets none.\<close>

fun evidenceFor :: "(FulfillmentID \<rightharpoonup> Fulfillment) \<Rightarrow> FulfillmentID list \<Rightarrow> (FulfillmentID \<rightharpoonup> ResolvedEvidence) io" where
  "evidenceFor fs [] = ret Map.empty"
| "evidenceFor fs (i # ids) =
     (case fs i of
        None \<Rightarrow> evidenceFor fs ids
      | Some f \<Rightarrow>
          if f_provenance f = None then evidenceFor fs ids
          else andThen (caught (Resolve f)) (\<lambda>r.
               andThen (evidenceFor fs ids) (\<lambda>m.
               ret (case r of Inr (Some ev) \<Rightarrow> m(i \<mapsto> ev) | _ \<Rightarrow> m))))"

definition activeDelivery ::
  "(FulfillmentID \<rightharpoonup> Fulfillment) \<Rightarrow> (TargetID \<rightharpoonup> TargetInfo) \<Rightarrow> (FulfillmentID \<rightharpoonup> ResolvedEvidence) \<Rightarrow>
   Delivery \<Rightarrow> ActiveDelivery option" where
  "activeDelivery fs ts evs d =
     (case fs (d_fulfillmentID d) of
        None \<Rightarrow> None
      | Some f \<Rightarrow>
          if d_generation d < f_generation f then None
          else
            (case ts (d_targetID d) of
               None \<Rightarrow> None
             | Some t \<Rightarrow>
                 if ti_id t = '''' then None
                 else Some
                   \<lparr>ad_Delivery = d, ad_Target = t, ad_Auth = f_auth f,
                    ad_Attestation =
                      (case evs (d_fulfillmentID d) of
                         None \<Rightarrow> None
                       | Some ev \<Rightarrow> AssembleDeliverAttestation f (d_manifests d) ev)\<rparr>))"

definition ListActiveDeliveries :: "TargetID list \<Rightarrow> ActiveDelivery list io" where
  "ListActiveDeliveries targetIDs =
     andThen (wrap ''begin tx: '' BeginReadOnly) (\<lambda>_.
     andThen (wrap ''list active deliveries: '' (reads (\<lambda>s. Inr (deliveriesListActive targetIDs s)))) (\<lambda>ds.
     if ds = [] then ret []
     else
       andThen (lookups ''get fulfillment '' (\<lambda>i. reads (fulfillmentsGet i)) (remdups (map d_fulfillmentID ds))) (\<lambda>fs.
       andThen (lookups ''get target '' (\<lambda>i. reads (targetsGet i)) (remdups (map d_targetID ds))) (\<lambda>ts.
       andThen (evidenceFor fs (remdups (map d_fulfillmentID ds))) (\<lambda>evs.
       ret (List.map_filter (activeDelivery fs ts evs) ds))))))"

section \<open>Lemmas\<close>

lemmas io_defs = andThen_def wrap_def infra_def ret_def throw_def caught_def Begin_def BeginReadOnly_def
  beginTx_def Commit_def reads_def writes_def SignalFulfillmentEvent_def

text \<open>What one report does to the committed database, row by row.\<close>

definition reportStep :: "DeliveryID \<Rightarrow> Generation \<Rightarrow> Delivery \<Rightarrow> Delivery \<Rightarrow> bool" where
  "reportStep did gen d d' \<longleftrightarrow>
     d' = d \<or>
     d_id d = did \<and> d_generation d = gen \<and>
     (d_state d' = d_state d \<or> lifecycle_step (d_state d) (d_state d')) \<and>
     d_id d' = d_id d \<and> d_generation d' = d_generation d \<and> d_manifests d' = d_manifests d \<and>
     d_operation d' = d_operation d \<and> d_createdAt d' = d_createdAt d"

lemma TransitionTo_Inr:
  assumes "TransitionTo st now d = Inr d'"
  shows "(d' = d \<and> st = d_state d \<or> d' = d\<lparr>d_state := st, d_updatedAt := now\<rparr> \<and>
      (knownDeliveryStates (d_state d) \<longrightarrow> lifecycle_step (d_state d) st)) \<and> d_state d' = st"
  using assms TransitionTo_effective [of d st now]
  by (auto simp: TransitionTo_def isl_def split: if_splits)

text \<open>
  The rows of the delivery table are well formed: the primary key is unique and the states are
  declared ones.
\<close>

definition deliveriesOK :: "store \<Rightarrow> bool" where
  "deliveriesOK s \<longleftrightarrow> distinct (map deliveryKey (t_deliveries s)) \<and> list_all deliveryOK (t_deliveries s)"

lemma row_of_member:
  "distinct (map deliveryKey (t_deliveries s)) \<Longrightarrow> d \<in> set (t_deliveries s) \<Longrightarrow>
   deliveryRow (deliveryKey d) s = Some d"
  unfolding deliveryRow_def by (rule getRow_member)

lemma deliveriesGet_row:
  assumes "deliveriesGet did s = Inr d" "deliveriesOK s"
  shows "deliveryRow (deliveryKey d) s = Some d" "d_id d = did" "knownDeliveryStates (d_state d)"
proof -
  have mem: "d \<in> set (t_deliveries s)" "d_id d = did"
    using assms(1) by (auto simp: deliveriesGet_def dest: getRow_Some)
  then show "deliveryRow (deliveryKey d) s = Some d" "d_id d = did" "knownDeliveryStates (d_state d)"
    using assms(2) by (auto simp: deliveriesOK_def row_of_member list_all_iff deliveryOK_def)
qed

text \<open>
  The three ways a report can end: before the transaction started, without a change, or with the
  transition committed and at most one signal sent after that.
\<close>

definition reportOutcome ::
  "DeliveryID \<Rightarrow> Generation \<Rightarrow> DeliveryState \<Rightarrow> go_time \<Rightarrow> FulfillmentEvent \<Rightarrow> world \<Rightarrow> world \<Rightarrow> bool" where
  "reportOutcome did gen st now ev w w' \<longleftrightarrow>
     w_db w' \<in> {w_db w, dbAtBegin w} \<and> w_signals w' = w_signals w \<or>
     (\<exists>d d'. deliveriesGet did (dbAtBegin w) = Inr d \<and> d_generation d = gen \<and>
        TransitionTo st now d = Inr d' \<and> w_db w' = deliveriesPut d' (dbAtBegin w) \<and>
        w_signals w' \<in> {w_signals w, w_signals w @ [(d_fulfillmentID d', ev)]})"

definition resultSignal :: "DeliveryID \<Rightarrow> Generation \<Rightarrow> DeliveryResult \<Rightarrow> FulfillmentEvent" where
  "resultSignal did gen result =
     (if stateIsTerminal (dr_State result)
      then DeliveryCompleted \<lparr>ce_DeliveryID = did, ce_Generation = gen, ce_Result = result\<rparr>
      else DeliveryAcked \<lparr>ae_DeliveryID = did, ae_Generation = gen\<rparr>)"

lemma reportOutcome_unchanged:
  "w_db v = w_db w \<or> w_db v = dbAtBegin w \<Longrightarrow> w_signals v = w_signals w \<Longrightarrow>
   reportOutcome did gen st now ev w v"
  by (auto simp: reportOutcome_def)

lemma reportOutcome_changed:
  assumes "deliveriesGet did (dbAtBegin w) = Inr d" "d_generation d = gen" "TransitionTo st now d = Inr d'"
    and "w_db v = deliveriesPut d' (dbAtBegin w)"
    and "w_signals v = w_signals w \<or> w_signals v = w_signals w @ [(d_fulfillmentID d', ev)]"
  shows "reportOutcome did gen st now ev w v"
  using assms unfolding reportOutcome_def by blast

lemma ReportResult_outcome:
  "reportOutcome did gen (dr_State result) now (resultSignal did gen result) w
     (snd (ReportResult sg now did gen result w))"
proof (rule outcome_of_triple)
  let ?O = "reportOutcome did gen (dr_State result) now (resultSignal did gen result) w"
  show "triple (at w) (ReportResult sg now did gen result) (\<lambda>_. ?O) (\<lambda>_. ?O)"
    unfolding ReportResult_def
    by (intro run_rules)
      (auto simp: at_def resultSignal_def intro: reportOutcome_changed reportOutcome_unchanged)
qed

lemma ReportEvent_outcome:
  "reportOutcome did gen DeliveryStateProgressing now
     (DeliveryAcked \<lparr>ae_DeliveryID = did, ae_Generation = gen\<rparr>) w
     (snd (ReportEvent sg now did gen event w))"
proof (rule outcome_of_triple)
  let ?O = "reportOutcome did gen DeliveryStateProgressing now
     (DeliveryAcked \<lparr>ae_DeliveryID = did, ae_Generation = gen\<rparr>) w"
  show "triple (at w) (ReportEvent sg now did gen event) (\<lambda>_. ?O) (\<lambda>_. ?O)"
    unfolding ReportEvent_def
    by (intro run_rules) (auto simp: at_def intro: reportOutcome_changed reportOutcome_unchanged)
qed

section \<open>Properties\<close>

text \<open>
  C24: a stale report is discarded. If the delivery has another generation than the reported one
  when the report's transaction begins, then neither a progress event nor a result changes the
  committed database or sends a signal, whatever infrastructure calls fail.
\<close>

theorem stale_report_discarded:
  assumes "deliveriesGet did (dbAtBegin w) = Inr d" "d_generation d \<noteq> gen"
  shows "w_db (snd (ReportResult sg now did gen result w)) \<in> {w_db w, dbAtBegin w} \<and>
         w_signals (snd (ReportResult sg now did gen result w)) = w_signals w \<and>
         w_db (snd (ReportEvent sg now did gen event w)) \<in> {w_db w, dbAtBegin w} \<and>
         w_signals (snd (ReportEvent sg now did gen event w)) = w_signals w"
  using assms ReportResult_outcome [of did gen result now w sg] ReportEvent_outcome [of did gen now w sg event]
  by (auto simp: reportOutcome_def)

text \<open>
  C23: a signal never runs ahead of the database. If reporting a result sends anything to the
  workflow, it sends exactly one event, addressed to the fulfillment of the delivery: a completion
  for a terminal state and an acknowledgement otherwise, carrying the reported delivery and
  generation; and at that moment the committed row of the delivery is in the reported state at the
  reported generation.
\<close>

theorem signal_after_commit:
  assumes "deliveriesOK (dbAtBegin w)"
    and "w_signals (snd (ReportResult sg now did gen result w)) \<noteq> w_signals w"
  shows "\<exists>d. deliveryRow (deliveryKey d) (w_db (snd (ReportResult sg now did gen result w))) = Some d \<and>
           d_id d = did \<and> d_generation d = gen \<and> d_state d = dr_State result \<and>
           w_signals (snd (ReportResult sg now did gen result w)) =
             w_signals w @ [(d_fulfillmentID d, resultSignal did gen result)]"
proof -
  let ?w = "snd (ReportResult sg now did gen result w)"
  obtain d d' where d: "deliveriesGet did (dbAtBegin w) = Inr d" "d_generation d = gen"
    "TransitionTo (dr_State result) now d = Inr d'" "w_db ?w = deliveriesPut d' (dbAtBegin w)"
    "w_signals ?w = w_signals w @ [(d_fulfillmentID d', resultSignal did gen result)]"
    using assms(2) ReportResult_outcome [of did gen result now w sg] by (auto simp: reportOutcome_def)
  let ?s = "storedDelivery (deliveryRow (deliveryKey d') (dbAtBegin w)) d'"
  have "d_id d = did" using deliveriesGet_row [OF d(1) assms(1)] by simp
  moreover have "d_state d' = dr_State result" "d_id d' = d_id d" "d_generation d' = d_generation d"
    using TransitionTo_Inr [OF d(3)] by auto
  moreover have "deliveryRow (deliveryKey ?s) (w_db ?w) = Some ?s"
    using deliveries.get_put_same [of d' "dbAtBegin w"] by (simp add: d(4))
  ultimately show ?thesis using d(2,5) by (intro exI [of _ ?s]) simp
qed


section \<open>Witnesses and recovery\<close>

definition oneDelivery :: store where
  "oneDelivery = emptyStore\<lparr>t_deliveries := [NewDelivery ''f:t'' ''f'' ''t'' [] 1 0]\<rparr>"

definition doneResult :: DeliveryResult where
  "doneResult = \<lparr>dr_State = DeliveryStateDelivered, dr_Message = '''', dr_ProvisionedTargets = [],
     dr_ProducedSecrets = []\<rparr>"

lemma oneDelivery_get: "deliveriesGet ''f:t'' oneDelivery = Inr (NewDelivery ''f:t'' ''f'' ''t'' [] 1 0)"
  by (simp add: deliveriesGet_def oneDelivery_def NewDelivery_def)

lemma oneDelivery_ok: "deliveriesOK oneDelivery"
  by (simp add: deliveriesOK_def oneDelivery_def deliveryOK_def NewDelivery_def)

lemma calm_begin [simp]: "dbAtBegin (calmWorld s) = s" "w_db (calmWorld s) = s" "w_signals (calmWorld s) = []"
  by (simp_all add: dbAtBegin_def calmWorld_def)

theorem stale_report_discarded_witness:
  "w_signals (snd (ReportResult True 5 ''f:t'' 2 doneResult (calmWorld oneDelivery))) = []"
  using stale_report_discarded [of "''f:t''" "calmWorld oneDelivery" "NewDelivery ''f:t'' ''f'' ''t'' [] 1 0" 2
      True 5 doneResult] oneDelivery_get
  by (simp add: NewDelivery_def)

lemma report_result_signals:
  "w_signals (snd (ReportResult True 5 ''f:t'' 1 doneResult (calmWorld oneDelivery))) \<noteq> w_signals (calmWorld oneDelivery)"
  by (simp add: ReportResult_def io_defs calmWorld_def dbAtBegin_def oneDelivery_get)
    (simp add: NewDelivery_def TransitionTo_def doneResult_def io_defs)

theorem signal_after_commit_witness:
  "\<exists>d. deliveryRow (deliveryKey d)
         (w_db (snd (ReportResult True 5 ''f:t'' 1 doneResult (calmWorld oneDelivery)))) = Some d \<and>
       d_state d = DeliveryStateDelivered"
  using signal_after_commit [OF _ report_result_signals] oneDelivery_ok by (auto simp: doneResult_def)


lemma lookups_calm:
  assumes "w_faults w = (\<lambda>_. None)" "\<And>k e. get k (w_tx w) = Inl e \<Longrightarrow> errorsIs e ErrNotFound"
  shows "\<exists>w'. lookups what (\<lambda>k. reads (get k)) ks w =
      (Inr (\<lambda>k. if k \<in> set ks then (case get k (w_tx w) of Inr v \<Rightarrow> Some v | Inl _ \<Rightarrow> None) else None), w') \<and>
    w_tx w' = w_tx w \<and> w_faults w' = w_faults w"
  using assms
proof (induction ks arbitrary: w)
  case Nil
  then show ?case by (simp add: ret_def fun_eq_iff)
next
  case (Cons k ks)
  let ?w = "w\<lparr>w_step := Suc (w_step w)\<rparr>"
  have tx: "w_tx ?w = w_tx w" by simp
  have read: "reads (get k) w = (get k (w_tx w), ?w)"
    using Cons.prems(1) by (simp add: reads_def infra_def)
  obtain w' where w': "lookups what (\<lambda>k. reads (get k)) ks ?w =
      (Inr (\<lambda>k. if k \<in> set ks then (case get k (w_tx w) of Inr v \<Rightarrow> Some v | Inl _ \<Rightarrow> None) else None), w')"
    "w_tx w' = w_tx w" "w_faults w' = w_faults w"
    using Cons.IH [of ?w, unfolded tx] Cons.prems by auto
  show ?case
  proof (cases "get k (w_tx w)")
    case (Inl e)
    then show ?thesis using Cons.prems(2) [OF Inl] w'
      by (auto simp: andThen_def caught_def read fun_eq_iff)
  next
    case (Inr v)
    then show ?thesis using w' by (auto simp: andThen_def caught_def read ret_def fun_eq_iff)
  qed
qed

lemma evidenceFor_total: "\<exists>m w'. evidenceFor fs ids w = (Inr m, w')"
proof (induction ids arbitrary: w)
  case (Cons i ids)
  show ?case
  proof (cases "fs i")
    case (Some f)
    obtain r w1 where r: "caught (Resolve f) w = (Inr r, w1)" by (cases "Resolve f w") (simp add: caught_def)
    obtain m w2 where m: "evidenceFor fs ids w1 = (Inr m, w2)" using Cons.IH by blast
    show ?thesis using Some r m Cons.IH [of w] by (simp add: andThen_def ret_def)
  qed (use Cons.IH in simp)
qed (simp add: ret_def)

text \<open>A delivery that is current: its fulfillment exists and has not advanced, its target exists.\<close>

definition currentDelivery :: "store \<Rightarrow> Delivery \<Rightarrow> bool" where
  "currentDelivery s d \<longleftrightarrow>
     (case fulfillmentsGet (d_fulfillmentID d) s of
        Inl _ \<Rightarrow> False
      | Inr f \<Rightarrow> f_generation f \<le> d_generation d) \<and>
     targetRow (d_targetID d) s \<noteq> None \<and> d_targetID d \<noteq> ''''"

text \<open>The attestation of a recovered delivery is always the one for a delivery of its manifests.\<close>

definition deliverAttested :: "ActiveDelivery \<Rightarrow> bool" where
  "deliverAttested a \<longleftrightarrow>
     (case ad_Attestation a of
        None \<Rightarrow> True
      | Some att \<Rightarrow> at_Output att = Some (PutManifests (Some (d_manifests (ad_Delivery a)))))"

lemma activeDelivery_exact:
  assumes "fs (d_fulfillmentID d) = (case fulfillmentsGet (d_fulfillmentID d) s of Inr f \<Rightarrow> Some f | Inl _ \<Rightarrow> None)"
    and "ts (d_targetID d) = targetRow (d_targetID d) s"
  shows "case activeDelivery fs ts evs d of
      None \<Rightarrow> \<not> currentDelivery s d
    | Some a \<Rightarrow> currentDelivery s d \<and> ad_Delivery a = d \<and> targetRow (d_targetID d) s = Some (ad_Target a) \<and> deliverAttested a"
proof -
  have "ti_id t = d_targetID d" if "targetRow (d_targetID d) s = Some t" for t
    using that by (auto simp: targetRow_def dest: getRow_Some)
  with assms show ?thesis
    by (auto simp: activeDelivery_def currentDelivery_def deliverAttested_def AssembleDeliverAttestation_def
        split: sum.splits option.splits)
qed

lemma map_filter_exact:
  assumes "\<And>x. x \<in> set xs \<Longrightarrow> case f x of None \<Rightarrow> \<not> P x | Some y \<Rightarrow> P x \<and> g y = x \<and> Q y"
  shows "map g (List.map_filter f xs) = filter P xs \<and> list_all Q (List.map_filter f xs)"
  using assms
proof (induction xs)
  case (Cons x xs)
  have IH: "map g (List.map_filter f xs) = filter P xs \<and> list_all Q (List.map_filter f xs)"
    by (rule Cons.IH) (rule Cons.prems, simp)
  have "case f x of None \<Rightarrow> \<not> P x | Some y \<Rightarrow> P x \<and> g y = x \<and> Q y"
    by (rule Cons.prems) simp
  with IH show ?case by (cases "f x") (auto simp: List.map_filter_simps)
qed (simp add: List.map_filter_simps)

text \<open>
  recovering the active deliveries. When no infrastructure call fails, the list is exactly the
  stored deliveries that are not terminal, match the requested targets and are current (their
  fulfillment exists and has not advanced past them, their target exists), in table order, each
  with its target; and the attestation attached to an entry, if any, always authorises putting the
  delivery's manifests, whichever operation the delivery is for.
\<close>

theorem list_active_exact:
  assumes "w_faults w = (\<lambda>_. None)"
  shows "\<exists>xs. fst (ListActiveDeliveries targetIDs w) = Inr xs \<and>
           map ad_Delivery xs = filter (currentDelivery (dbAtBegin w)) (deliveriesListActive targetIDs (dbAtBegin w)) \<and>
           list_all deliverAttested xs"
proof -
  let ?s = "dbAtBegin w"
  let ?ds = "deliveriesListActive targetIDs ?s"
  define w0 where "w0 = w\<lparr>w_step := Suc (w_step w), w_db := ?s, w_tx := ?s, w_others := tl (w_others w)\<rparr>"
  define w1 where "w1 = w0\<lparr>w_step := Suc (w_step w0)\<rparr>"
  have w1: "w_faults w1 = (\<lambda>_. None)" "w_tx w1 = ?s" by (simp_all add: w1_def w0_def assms)
  have db: "dbAtBegin (w\<lparr>w_step := n\<rparr>) = ?s" for n by (simp add: dbAtBegin_def split: list.split)
  have b: "wrap ''begin tx: '' BeginReadOnly w = (Inr (), w0)"
    by (simp add: wrap_def BeginReadOnly_def beginTx_def infra_def assms db w0_def)
  have r: "wrap ''list active deliveries: '' (reads (\<lambda>s. Inr (deliveriesListActive targetIDs s))) w0 = (Inr ?ds, w1)"
    by (simp add: wrap_def reads_def infra_def w1_def w0_def assms)
  have start: "ListActiveDeliveries targetIDs w =
      (if ?ds = [] then ret [] else
       andThen (lookups ''get fulfillment '' (\<lambda>i. reads (fulfillmentsGet i)) (remdups (map d_fulfillmentID ?ds))) (\<lambda>fs.
       andThen (lookups ''get target '' (\<lambda>i. reads (targetsGet i)) (remdups (map d_targetID ?ds))) (\<lambda>ts.
       andThen (evidenceFor fs (remdups (map d_fulfillmentID ?ds))) (\<lambda>evs.
       ret (List.map_filter (activeDelivery fs ts evs) ?ds))))) w1"
    unfolding ListActiveDeliveries_def by (subst andThen_Inr, rule b, subst andThen_Inr, rule r, rule refl)
  obtain fs w2 where fs: "lookups ''get fulfillment '' (\<lambda>i. reads (fulfillmentsGet i)) (remdups (map d_fulfillmentID ?ds)) w1 = (Inr fs, w2)"
    "fs = (\<lambda>k. if k \<in> set (remdups (map d_fulfillmentID ?ds)) then (case fulfillmentsGet k ?s of Inr v \<Rightarrow> Some v | Inl _ \<Rightarrow> None) else None)"
    "w_tx w2 = ?s" "w_faults w2 = (\<lambda>_. None)"
    using lookups_calm [of w1 fulfillmentsGet "''get fulfillment ''" "remdups (map d_fulfillmentID ?ds)"] w1
    by (fastforce simp: fulfillmentsGet_def notFound_def split: option.splits)
  obtain ts w3 where ts: "lookups ''get target '' (\<lambda>i. reads (targetsGet i)) (remdups (map d_targetID ?ds)) w2 = (Inr ts, w3)"
    "ts = (\<lambda>k. if k \<in> set (remdups (map d_targetID ?ds)) then (case targetsGet k ?s of Inr v \<Rightarrow> Some v | Inl _ \<Rightarrow> None) else None)"
    using lookups_calm [of w2 targetsGet "''get target ''" "remdups (map d_targetID ?ds)"] fs(3,4)
    by (fastforce simp: targetsGet_def notFound_def orNotFound_def split: option.splits)
  obtain evs w4 where evs: "evidenceFor fs (remdups (map d_fulfillmentID ?ds)) w3 = (Inr evs, w4)"
    using evidenceFor_total by blast
  have "map ad_Delivery (List.map_filter (activeDelivery fs ts evs) ?ds) = filter (currentDelivery ?s) ?ds \<and>
      list_all deliverAttested (List.map_filter (activeDelivery fs ts evs) ?ds)"
  proof (rule map_filter_exact)
    fix d assume d: "d \<in> set ?ds"
    have "fs (d_fulfillmentID d) = (case fulfillmentsGet (d_fulfillmentID d) ?s of Inr f \<Rightarrow> Some f | Inl _ \<Rightarrow> None)"
      using d by (simp add: fs(2))
    moreover have "ts (d_targetID d) = targetRow (d_targetID d) ?s"
      using d by (simp add: ts(2) targetsGet_def orNotFound_def notFound_def split: option.split)
    ultimately show "case activeDelivery fs ts evs d of None \<Rightarrow> \<not> currentDelivery ?s d
        | Some a \<Rightarrow> currentDelivery ?s d \<and> ad_Delivery a = d \<and> deliverAttested a"
      using activeDelivery_exact [of fs d ?s ts evs] by (auto split: option.splits)
  qed
  moreover have "fst (ListActiveDeliveries targetIDs w) = Inr (List.map_filter (activeDelivery fs ts evs) ?ds)"
    unfolding start by (simp add: andThen_def fs(1) ts(1) evs ret_def List.map_filter_simps)
  ultimately show ?thesis by blast
qed

theorem list_active_exact_witness:
  "\<exists>xs. fst (ListActiveDeliveries [''t''] (calmWorld oneDelivery)) = Inr xs \<and>
     map ad_Delivery xs = filter (currentDelivery oneDelivery) (deliveriesListActive [''t''] oneDelivery)"
  using list_active_exact [of "calmWorld oneDelivery" "[''t'']"] by (auto simp: calmWorld_def dbAtBegin_def)

end
