(* ===== verification/FS_Activities.thy ===== *)
theory FS_Activities
  imports FS_Reporting
begin

text \<open>
  The activities of the orchestration workflow
  (\<^verbatim>\<open>server/internal/domain/orchestration.go\<close>): loading a fulfillment under its lock,
  delivering to and removing from a target, processing the outputs of deliveries and cleaning
  them up, persisting the outcome, releasing the lock and checking the generation. Each is the
  whole transaction with every early return. The properties describe what each activity may do to
  the committed database and to the agents, under any failure of the infrastructure.
\<close>

section \<open>Loading under the lock\<close>

record ReconciliationSnapshot =
  rn_Fulfillment :: Fulfillment
  rn_Pool :: "TargetInfo list"
  rn_Evidence :: "ResolvedEvidence option"

definition AcquireLockAndLoad :: "FulfillmentID \<Rightarrow> ReconciliationSnapshot io" where
  "AcquireLockAndLoad i =
     andThen (wrap ''begin tx: '' Begin) (\<lambda>_.
     andThen (caught (reads (fulfillmentsGet i))) (\<lambda>r.
     case r of
       Inl e \<Rightarrow> if errorsIs e ErrNotFound then throw (TerminalErr e) else throw e
     | Inr f0 \<Rightarrow>
         (let (acquired, f) = AcquireOrchestrationLock f0 in
          andThen (if acquired then writes (fulfillmentsUpdate f) else ret ()) (\<lambda>_.
          andThen (reads (\<lambda>s. Inr (targetsList s))) (\<lambda>pool.
          andThen (Resolve f) (\<lambda>evidence.
          andThen (wrap ''commit: '' Commit) (\<lambda>_.
          ret \<lparr>rn_Fulfillment = f, rn_Pool = pool, rn_Evidence = evidence\<rparr>)))))))"

section \<open>Delivering and removing\<close>

record DeliverInput =
  in_Target :: TargetInfo
  in_DeliveryID :: DeliveryID
  in_FulfillmentID :: FulfillmentID
  in_Manifests :: "Manifest list"
  in_Auth :: DeliveryAuth
  in_Attestation :: "Attestation option"
  in_Generation :: Generation

text \<open>\<^verbatim>\<open>RemoveInput\<close> has the same fields.\<close>

type_synonym RemoveInput = DeliverInput

definition persistAndDeliver :: "DeliverInput \<Rightarrow> Delivery \<Rightarrow> unit io" where
  "persistAndDeliver i d =
     andThen (wrap ''persist delivery record: '' (writes (\<lambda>s. Inr (deliveriesPut d s)))) (\<lambda>_.
     andThen (wrap ''commit: '' Commit) (\<lambda>_.
     wrap (''dispatch delivery '' @ in_DeliveryID i @ '': '')
       (dispatchToAgent (DispatchDeliver (in_Target i) (in_DeliveryID i) (in_Manifests i) (in_Auth i)
          (in_Attestation i) (in_Generation i)))))"

definition DeliverToTarget :: "go_time \<Rightarrow> DeliverInput \<Rightarrow> unit io" where
  "DeliverToTarget now i =
     andThen (wrap ''begin tx: '' Begin) (\<lambda>_.
     andThen (caught (reads (deliveriesGetByFulfillmentTarget (in_FulfillmentID i) (ti_id (in_Target i))))) (\<lambda>r.
     case r of
       Inl e \<Rightarrow>
         if errorsIs e ErrNotFound
         then persistAndDeliver i
                (NewDelivery (in_DeliveryID i) (in_FulfillmentID i) (ti_id (in_Target i)) (in_Manifests i)
                   (in_Generation i) now)
         else throw (Wrapped ''load delivery record: '' e '''')
     | Inr d \<Rightarrow>
         if in_Generation i > d_generation d then
           (case Redispatch (in_Manifests i) (in_Generation i) now d of
              Inl e \<Rightarrow> throw (Wrapped (''redispatch delivery '' @ d_id d @ '': '') e '''')
            | Inr d' \<Rightarrow> persistAndDeliver i d')
         else
           (let (again, d') = Retry (in_Generation i) now d in
            if again then persistAndDeliver i d'
            else if d_generation d' = in_Generation i \<and> stateIsTerminal (d_state d') then
              (case ResetForRetry now d' of
                 Inl e \<Rightarrow> throw (Wrapped (''reset delivery '' @ d_id d' @ '' for retry: '') e '''')
               | Inr d'' \<Rightarrow> persistAndDeliver i d'')
            else ret ())))"

definition persistAndRemove :: "RemoveInput \<Rightarrow> Delivery \<Rightarrow> bool io" where
  "persistAndRemove i d =
     andThen (wrap ''persist delivery: '' (writes (\<lambda>s. Inr (deliveriesPut d s)))) (\<lambda>_.
     andThen (wrap ''commit: '' Commit) (\<lambda>_.
     andThen (wrap (''dispatch removal '' @ in_DeliveryID i @ '': '')
       (dispatchToAgent (DispatchRemove (in_Target i) (in_DeliveryID i) (d_manifests d) (in_Auth i)
          (in_Attestation i) (in_Generation i)))) (\<lambda>_.
     ret True)))"

text \<open>The value is \<^verbatim>\<open>RemoveOutput.Dispatched\<close>.\<close>

definition RemoveFromTarget :: "go_time \<Rightarrow> RemoveInput \<Rightarrow> bool io" where
  "RemoveFromTarget now i =
     andThen (wrap ''begin tx: '' Begin) (\<lambda>_.
     andThen (caught (reads (deliveriesGetByFulfillmentTarget (in_FulfillmentID i) (ti_id (in_Target i))))) (\<lambda>r.
     case r of
       Inl e \<Rightarrow>
         if errorsIs e ErrNotFound then ret False
         else throw (Wrapped (''load delivery record for target '' @ ti_id (in_Target i) @ '': '') e '''')
     | Inr d \<Rightarrow>
         (case Withdraw (in_Generation i) now d of
            Inl e \<Rightarrow> throw (Wrapped (''withdraw delivery '' @ d_id d @ '': '') e '''')
          | Inr (modified, d') \<Rightarrow>
              if modified then persistAndRemove i d'
              else
                (let (again, d'') = Retry (in_Generation i) now d' in
                 if \<not> again then ret True else persistAndRemove i d''))))"

section \<open>Outputs of deliveries\<close>

definition outputTarget :: "ProvisionedTarget \<Rightarrow> TargetInfo" where
  "outputTarget pt =
     NewTargetInfo (pv_ID pt) (pv_Type pt) (pv_Name pt) '''' (pv_Labels pt) (pv_Properties pt)
       (pv_AcceptedManifestTypes pt)"

definition outputItem :: "go_time \<Rightarrow> DeliveryID \<Rightarrow> ProvisionedTarget \<Rightarrow> InventoryItem" where
  "outputItem now did pt =
     NewInventoryItem (''target:'' @ pv_ID pt) (pv_Type pt) (pv_Name pt) (encodeStringMap (pv_Properties pt))
       (pv_Labels pt) (Some did) now"

text \<open>\<open>vaulted\<close> tells whether the workflow was built with a vault.\<close>

definition ProcessDeliveryOutputs :: "bool \<Rightarrow> go_time \<Rightarrow> DeliveryID \<Rightarrow> DeliveryResult \<Rightarrow> unit io" where
  "ProcessDeliveryOutputs vaulted now did result =
     (if dr_ProducedSecrets result = [] \<and> dr_ProvisionedTargets result = [] then ret ()
      else
        andThen (if vaulted
                 then forEach (dr_ProducedSecrets result)
                        (\<lambda>p. wrap (''store secret '' @ quote (se_Ref p) @ '': '') (putSecret p))
                 else ret ()) (\<lambda>_.
        andThen (wrap ''begin tx: '' Begin) (\<lambda>_.
        andThen (forEach (dr_ProvisionedTargets result)
          (\<lambda>pt.
             andThen (wrap (''upsert inventory item for target '' @ quote (pv_ID pt) @ '': '')
                        (writes (\<lambda>s. Inr (inventoryCreateOrUpdate (outputItem now did pt) s)))) (\<lambda>_.
             wrap (''upsert target '' @ quote (pv_ID pt) @ '': '')
               (writes (targetsCreateOrUpdate (outputTarget pt)))))) (\<lambda>_.
        Commit))))"

record outputCleanupPlan =
  cp_targetIDs :: "TargetID list"
  cp_inventoryIDs :: "string list"
  cp_secretRefs :: "SecretRef list"

definition sortedKeys :: "string list \<Rightarrow> string list" where
  "sortedKeys ks = sort (remdups ks)"

definition targetPrefix :: string where
  "targetPrefix = ''target:''"

definition targetIDFromInventoryItem :: "string \<Rightarrow> TargetID option" where
  "targetIDFromInventoryItem i =
     (if prefix targetPrefix i then Some (drop (length targetPrefix) i) else None)"

definition secretRefsFromProperties :: "string \<Rightarrow> bytes \<Rightarrow> SecretRef list result" where
  "secretRefsFromProperties i raw =
     (if raw = [] then Inr []
      else
        case decodeStringMap raw of
          Inl e \<Rightarrow> Inl (Wrapped (''parse properties for inventory item '' @ quote i @ '': '') e '''')
        | Inr props \<Rightarrow>
            Inr (filter (\<lambda>v. v \<noteq> '''')
                   (map (\<lambda>k. case fmlookup props k of Some v \<Rightarrow> v | None \<Rightarrow> '''')
                      (filter (\<lambda>k. suffix ''_ref'' k) (sorted_list_of_fset (fmdom props))))))"

fun collectOutputs ::
  "DeliveryID list \<Rightarrow> InventoryItem list \<Rightarrow> (string list \<times> TargetID list \<times> SecretRef list) result" where
  "collectOutputs dids [] = Inr ([], [], [])"
| "collectOutputs dids (item # items) =
     (case ii_sourceDeliveryID item of
        None \<Rightarrow> collectOutputs dids items
      | Some src \<Rightarrow>
          if src \<notin> set dids then collectOutputs dids items
          else
            (case secretRefsFromProperties (ii_id item) (ii_properties item) of
               Inl e \<Rightarrow> Inl e
             | Inr refs \<Rightarrow>
                 (case collectOutputs dids items of
                    Inl e \<Rightarrow> Inl e
                  | Inr (invs, tgts, secs) \<Rightarrow>
                      Inr (ii_id item # invs,
                           (case targetIDFromInventoryItem (ii_id item) of
                              Some t \<Rightarrow> t # tgts | None \<Rightarrow> tgts),
                           refs @ secs))))"

definition buildOutputCleanupPlan :: "Delivery list \<Rightarrow> InventoryItem list \<Rightarrow> outputCleanupPlan result" where
  "buildOutputCleanupPlan deliveries items =
     (case collectOutputs (map d_id deliveries) items of
        Inl e \<Rightarrow> Inl e
      | Inr (invs, tgts, secs) \<Rightarrow>
          Inr \<lparr>cp_targetIDs = sortedKeys tgts, cp_inventoryIDs = sortedKeys invs,
               cp_secretRefs = sortedKeys secs\<rparr>)"

text \<open>\<^verbatim>\<open>if err := m; err != nil && !errors.Is(err, ErrNotFound) { return wrap(err) }\<close>\<close>

definition unlessMissing :: "string \<Rightarrow> unit io \<Rightarrow> unit io" where
  "unlessMissing what m =
     andThen (caught m) (\<lambda>r.
     case r of
       Inl e \<Rightarrow> if errorsIs e ErrNotFound then ret () else throw (Wrapped what e '''')
     | Inr _ \<Rightarrow> ret ())"

definition CleanupDeliveryData :: "bool \<Rightarrow> FulfillmentID \<Rightarrow> unit io" where
  "CleanupDeliveryData vaulted i =
     andThen (wrap ''begin tx: '' BeginReadOnly) (\<lambda>_.
     andThen (wrap ''list deliveries: '' (reads (\<lambda>s. Inr (deliveriesListByFulfillment i s)))) (\<lambda>deliveries.
     andThen (wrap ''list inventory items: '' (reads (\<lambda>s. Inr (inventoryList s)))) (\<lambda>items.
     case buildOutputCleanupPlan deliveries items of
       Inl e \<Rightarrow> throw e
     | Inr plan \<Rightarrow>
         andThen (wrap ''close read tx: '' EndReadOnly) (\<lambda>_.
         andThen (if vaulted
                  then forEach (cp_secretRefs plan)
                         (\<lambda>ref. unlessMissing (''delete secret '' @ quote ref @ '': '') (deleteSecret ref))
                  else ret ()) (\<lambda>_.
         andThen (wrap ''begin tx: '' Begin) (\<lambda>_.
         andThen (forEach (cp_targetIDs plan)
                    (\<lambda>t. unlessMissing (''delete provisioned target '' @ t @ '': '') (writes (targetsDelete t)))) (\<lambda>_.
         andThen (forEach (cp_inventoryIDs plan)
                    (\<lambda>t. unlessMissing (''delete inventory item '' @ t @ '': '') (writes (inventoryDelete t)))) (\<lambda>_.
         andThen (wrap ''delete delivery records: '' (writes (\<lambda>s. Inr (deliveriesDeleteByFulfillment i s)))) (\<lambda>_.
         Commit)))))))))"

section \<open>Finishing a reconciliation\<close>

record PersistAndCompleteInput =
  pc_Result :: ReconciliationResult
  pc_ReconciledGen :: Generation

definition PersistAndCompleteReconciliation :: "go_time \<Rightarrow> PersistAndCompleteInput \<Rightarrow> bool io" where
  "PersistAndCompleteReconciliation now i =
     andThen (wrap ''begin tx: '' Begin) (\<lambda>_.
     andThen (wrap ''get fulfillment: '' (reads (fulfillmentsGet (rr_FulfillmentID (pc_Result i))))) (\<lambda>f.
     let (needsRestart, fresh) =
           CompleteReconciliation (pc_ReconciledGen i) now (ApplyReconciliationResult (pc_Result i) f)
     in andThen (writes (fulfillmentsUpdate fresh)) (\<lambda>_.
        andThen Commit (\<lambda>_.
        if rr_State (pc_Result i) = FulfillmentStateDeleting
        then andThen (wrap ''signal delete cleanup: ''
                        (SignalDeleteCleanupComplete (rr_FulfillmentID (pc_Result i)))) (\<lambda>_.
             ret needsRestart)
        else ret needsRestart))))"

definition ReleaseLock :: "FulfillmentID \<Rightarrow> unit io" where
  "ReleaseLock i =
     andThen (wrap ''begin tx: '' Begin) (\<lambda>_.
     andThen (reads (fulfillmentsGet i)) (\<lambda>f.
     andThen (writes (fulfillmentsUpdate (ReleaseOrchestrationLock f))) (\<lambda>_.
     Commit)))"

definition CheckGeneration :: "FulfillmentID \<Rightarrow> Generation io" where
  "CheckGeneration i =
     andThen (wrap ''begin tx: '' BeginReadOnly) (\<lambda>_.
     andThen (reads (fulfillmentsGet i)) (\<lambda>f.
     andThen EndReadOnly (\<lambda>_.
     ret (f_generation f))))"

section \<open>What deliveries and removals may do\<close>

lemma caught_reads:
  assumes "\<And>x. r (w_tx w) = Inr x \<Longrightarrow> triple (at w) (k (Inr x)) Q R"
    and "\<And>e. r (w_tx w) = Inl e \<or> (\<exists>msg. e = Plain msg) \<Longrightarrow> triple (at w) (k (Inl e)) Q R"
  shows "triple (at w) (andThen (caught (reads r)) k) Q R"
proof (rule triple_andThen)
  let ?B = "\<lambda>x v. at w v \<and> (case x of Inr y \<Rightarrow> r (w_tx w) = Inr y | Inl e \<Rightarrow> r (w_tx w) = Inl e \<or> (\<exists>msg. e = Plain msg))"
  show "triple (at w) (caught (reads r)) ?B R"
    by (rule tripleI) (auto simp: caught_def reads_def infra_def at_def split: option.split sum.split)
  show "triple (?B x) (k x) Q R" for x
    using assms by (cases x) (auto simp: triple_def)
qed

lemma get_delivery_Inr:
  "deliveriesGetByFulfillmentTarget f t s = Inr d \<longleftrightarrow> deliveryRow (f, t) s = Some d"
  by (simp add: deliveriesGetByFulfillmentTarget_def)

lemma get_delivery_missing:
  "deliveriesGetByFulfillmentTarget f t s = Inl e \<or> (\<exists>msg. e = Plain msg) \<Longrightarrow> errorsIs e ErrNotFound \<Longrightarrow>
   deliveryRow (f, t) s = None"
  by (auto simp: deliveriesGetByFulfillmentTarget_def orNotFound_def split: option.splits)

lemma deliveryRow_key: "deliveryRow k s = Some d \<Longrightarrow> deliveryKey d = k"
  by (auto simp: deliveryRow_def dest: getRow_Some)

text \<open>
  The outcomes of \<^verbatim>\<open>DeliverToTarget\<close>: nothing was written and the agent was not called, or one
  record was written and committed and the agent was called at most once after that.
\<close>

definition deliverOutcome :: "DeliverInput \<Rightarrow> world \<Rightarrow> world \<Rightarrow> bool" where
  "deliverOutcome i w v \<longleftrightarrow>
     (let k = (in_FulfillmentID i, ti_id (in_Target i)); s = dbAtBegin w in
      w_db v \<in> {w_db w, s} \<and> w_dispatched v = w_dispatched w \<or>
      (\<exists>d. w_db v = deliveriesPut d s \<and> deliveryKey d = k \<and> d_state d = DeliveryStatePending \<and>
         d_generation d = in_Generation i \<and>
         (case deliveryRow k s of
            None \<Rightarrow> d_manifests d = in_Manifests i \<and> d_operation d = DeliveryOperationDeliver
          | Some old \<Rightarrow>
              if d_generation old < in_Generation i
              then d_manifests d = in_Manifests i \<and> d_operation d = DeliveryOperationDeliver
              else d_generation old = in_Generation i \<and> d_manifests d = d_manifests old \<and>
                   d_operation d = d_operation old \<and>
                   (d_state old = DeliveryStatePending \<or> stateIsTerminal (d_state old))) \<and>
         w_dispatched v \<in> {w_dispatched w, w_dispatched w @ [DispatchDeliver (in_Target i) (in_DeliveryID i)
            (in_Manifests i) (in_Auth i) (in_Attestation i) (in_Generation i)]}))"

lemma deliverOutcome_none:
  "w_db v = w_db w \<or> w_db v = dbAtBegin w \<Longrightarrow> w_dispatched v = w_dispatched w \<Longrightarrow> deliverOutcome i w v"
  by (auto simp: deliverOutcome_def Let_def)

lemma persistAndDeliver_outcome:
  assumes "deliveryKey d = (in_FulfillmentID i, ti_id (in_Target i))" "d_state d = DeliveryStatePending"
    "d_generation d = in_Generation i"
    "case deliveryRow (in_FulfillmentID i, ti_id (in_Target i)) (dbAtBegin w) of
       None \<Rightarrow> d_manifests d = in_Manifests i \<and> d_operation d = DeliveryOperationDeliver
     | Some old \<Rightarrow>
         if d_generation old < in_Generation i
         then d_manifests d = in_Manifests i \<and> d_operation d = DeliveryOperationDeliver
         else d_generation old = in_Generation i \<and> d_manifests d = d_manifests old \<and>
              d_operation d = d_operation old \<and>
              (d_state old = DeliveryStatePending \<or> stateIsTerminal (d_state old))"
  shows "triple (at (begun w)) (persistAndDeliver i d) (\<lambda>_. deliverOutcome i w) (\<lambda>_. deliverOutcome i w)"
proof -
  have "deliverOutcome i w v" if "w_db v = deliveriesPut d (dbAtBegin w)"
    "w_dispatched v = w_dispatched w \<or> w_dispatched v = w_dispatched w @ [DispatchDeliver (in_Target i)
       (in_DeliveryID i) (in_Manifests i) (in_Auth i) (in_Attestation i) (in_Generation i)]" for v
    unfolding deliverOutcome_def Let_def
    by (rule disjI2, rule exI [of _ d]) (use that assms in auto)
  then show ?thesis
    unfolding persistAndDeliver_def by (intro run_rules) (auto simp: at_def intro: deliverOutcome_none)
qed

lemma DeliverToTarget_outcome: "deliverOutcome i w (snd (DeliverToTarget now i w))"
proof (rule outcome_of_triple)
  let ?k = "(in_FulfillmentID i, ti_id (in_Target i))"
  have quiet: "triple (at (begun w)) (ret ()) (\<lambda>_. deliverOutcome i w) (\<lambda>_. deliverOutcome i w)"
    "triple (at (begun w)) (throw e) (\<lambda>_. deliverOutcome i w) (\<lambda>_. deliverOutcome i w)" for e
    by (auto intro!: at_ret at_throw deliverOutcome_none simp: at_def)
  have fresh: "triple (at (begun w)) (persistAndDeliver i (NewDelivery (in_DeliveryID i) (in_FulfillmentID i)
      (ti_id (in_Target i)) (in_Manifests i) (in_Generation i) now)) (\<lambda>_. deliverOutcome i w) (\<lambda>_. deliverOutcome i w)"
    if "deliveryRow ?k (dbAtBegin w) = None"
    by (rule persistAndDeliver_outcome) (simp_all add: that NewDelivery_def deliveryKey_def)
  have again: "triple (at (begun w)) (persistAndDeliver i d') (\<lambda>_. deliverOutcome i w) (\<lambda>_. deliverOutcome i w)"
    if "deliveryRow ?k (dbAtBegin w) = Some d"
      "d_generation d < in_Generation i \<and> Redispatch (in_Manifests i) (in_Generation i) now d = Inr d' \<or>
       \<not> d_generation d < in_Generation i \<and> Retry (in_Generation i) now d = (True, d') \<or>
       \<not> d_generation d < in_Generation i \<and> d_generation d = in_Generation i \<and> ResetForRetry now d = Inr d'" for d d'
    by (rule persistAndDeliver_outcome)
      (use that deliveryRow_key [OF that(1)] in \<open>auto simp: delivery_ops deliveryKey_def split: if_splits\<close>)
  have retry: "snd (Retry g now d) = d" if "\<not> fst (Retry g now d)" for g d
    using that by (simp add: Retry_def split: if_splits)
  show "triple (at w) (DeliverToTarget now i) (\<lambda>_. deliverOutcome i w) (\<lambda>_. deliverOutcome i w)"
    unfolding DeliverToTarget_def Let_def split_beta
  proof (intro then_rules caught_reads, goal_cases)
    case (1 d)
    then have row: "deliveryRow ?k (dbAtBegin w) = Some d" by (simp add: get_delivery_Inr)
    show ?case
      unfolding sum.case
      by (intro triple_if triple_sum quiet; rule again [OF row]) (auto simp: retry prod_eq_iff)
  next
    case (2 e)
    then show ?case using fresh get_delivery_missing [of _ _ "dbAtBegin w" e]
      by (auto intro!: quiet triple_if)
  qed (auto simp: at_def intro: deliverOutcome_none)
qed

text \<open>
  The outcomes of \<^verbatim>\<open>RemoveFromTarget\<close> with its result: nothing written and the agent not
  called, or the withdrawn record committed and the agent called at most once after that.
\<close>

definition removeOutcome :: "RemoveInput \<Rightarrow> world \<Rightarrow> bool result \<Rightarrow> world \<Rightarrow> bool" where
  "removeOutcome i w r v \<longleftrightarrow>
     (let k = (in_FulfillmentID i, ti_id (in_Target i)); s = dbAtBegin w in
      w_db v \<in> {w_db w, s} \<and> w_dispatched v = w_dispatched w \<and>
        (r = Inr False \<longrightarrow> deliveryRow k s = None) \<and>
        (r = Inr True \<longrightarrow> (\<exists>d. deliveryRow k s = Some d \<and> d_generation d = in_Generation i \<and>
           d_state d \<noteq> DeliveryStatePending \<and> \<not> stateIsTerminal (d_state d))) \<or>
      (\<exists>old d. deliveryRow k s = Some old \<and> d_generation old \<le> in_Generation i \<and>
         w_db v = deliveriesPut d s \<and> deliveryKey d = k \<and> d_state d = DeliveryStatePending \<and>
         d_generation d = in_Generation i \<and> d_manifests d = d_manifests old \<and>
         (d_operation d = DeliveryOperationRemove \<or>
          d_operation d = d_operation old \<and> d_generation old = in_Generation i \<and> d_state old = DeliveryStatePending) \<and>
         (let sent = w_dispatched w @ [DispatchRemove (in_Target i) (in_DeliveryID i) (d_manifests old)
                       (in_Auth i) (in_Attestation i) (in_Generation i)]
          in w_dispatched v = sent \<and> r \<noteq> Inr False \<or> w_dispatched v = w_dispatched w \<and> isl r)))"

lemma triple_result:
  assumes "triple (at w) m (\<lambda>x. Q (Inr x)) (\<lambda>e. Q (Inl e))"
  shows "Q (fst (m w)) (snd (m w))"
  using assms at_refl [of w] unfolding triple_def by (fastforce split: prod.splits sum.splits)

lemma removeOutcome_none:
  "w_db v = w_db w \<or> w_db v = dbAtBegin w \<Longrightarrow> w_dispatched v = w_dispatched w \<Longrightarrow> isl r \<Longrightarrow> removeOutcome i w r v"
  unfolding removeOutcome_def Let_def by (rule disjI1) (auto simp: isl_def)

lemma persistAndRemove_outcome:
  assumes "deliveryRow (in_FulfillmentID i, ti_id (in_Target i)) (dbAtBegin w) = Some old"
    and "d_generation old \<le> in_Generation i" "deliveryKey d = (in_FulfillmentID i, ti_id (in_Target i))"
    and "d_state d = DeliveryStatePending" "d_generation d = in_Generation i" "d_manifests d = d_manifests old"
    and "d_operation d = DeliveryOperationRemove \<or>
      d_operation d = d_operation old \<and> d_generation old = in_Generation i \<and> d_state old = DeliveryStatePending"
  shows "triple (at (begun w)) (persistAndRemove i d) (\<lambda>x. removeOutcome i w (Inr x)) (\<lambda>e. removeOutcome i w (Inl e))"
proof -
  have wrote: "removeOutcome i w r v" if "w_db v = deliveriesPut d (dbAtBegin w)"
    "w_dispatched v = w_dispatched w @ [DispatchRemove (in_Target i)
       (in_DeliveryID i) (d_manifests old) (in_Auth i) (in_Attestation i) (in_Generation i)] \<and> r \<noteq> Inr False \<or>
     w_dispatched v = w_dispatched w \<and> isl r" for r v
    unfolding removeOutcome_def Let_def
    by (rule disjI2, rule exI [of _ old], rule exI [of _ d]) (use that assms in auto)
  show ?thesis
    unfolding persistAndRemove_def
    by (intro run_rules)
      (auto simp: at_def assms(6) intro: removeOutcome_none wrote)
qed

lemma RemoveFromTarget_outcome:
  "removeOutcome i w (fst (RemoveFromTarget now i w)) (snd (RemoveFromTarget now i w))"
proof (rule triple_result)
  let ?k = "(in_FulfillmentID i, ti_id (in_Target i))"
  let ?T = "\<lambda>m. triple (at (begun w)) m (\<lambda>x. removeOutcome i w (Inr x)) (\<lambda>e. removeOutcome i w (Inl e))"
  have quiet: "?T (throw e)" for e
    by (auto intro!: at_throw removeOutcome_none simp: at_def)
  show "triple (at w) (RemoveFromTarget now i) (\<lambda>x. removeOutcome i w (Inr x)) (\<lambda>e. removeOutcome i w (Inl e))"
    unfolding RemoveFromTarget_def Let_def split_beta
  proof (intro then_rules caught_reads, goal_cases)
    case (1 d)
    then have row: "deliveryRow ?k (dbAtBegin w) = Some d" by (simp add: get_delivery_Inr)
    have key: "deliveryKey d = ?k" by (rule deliveryRow_key [OF row])
    have modified: "?T (persistAndRemove i d')" if "Withdraw (in_Generation i) now d = Inr (True, d')" for d'
      by (rule persistAndRemove_outcome [OF row])
        (use that key in \<open>auto simp: Withdraw_def deliveryKey_def split: if_splits\<close>)
    have again: "?T (persistAndRemove i (snd (Retry (in_Generation i) now d)))"
      if "Withdraw (in_Generation i) now d = Inr (False, d')" "fst (Retry (in_Generation i) now d)" for d'
      by (rule persistAndRemove_outcome [OF row])
        (use that key in \<open>auto simp: Withdraw_def Retry_def deliveryKey_def split: if_splits\<close>)
    have inProgress: "?T (ret True)"
      if "Withdraw (in_Generation i) now d = Inr (False, d')" "\<not> fst (Retry (in_Generation i) now d)" for d'
    proof (rule at_ret)
      fix v assume v: "at (begun w) v"
      have "d_generation d = in_Generation i \<and> d_state d \<noteq> DeliveryStatePending \<and> \<not> stateIsTerminal (d_state d)"
        using that by (auto simp: Withdraw_def Retry_def split: if_splits)
      with v row show "removeOutcome i w (Inr True) v"
        unfolding removeOutcome_def Let_def by (intro disjI1) (auto simp: at_def)
    qed
    have same: "d' = d" if "Withdraw (in_Generation i) now d = Inr (False, d')" for d'
      using that by (simp add: Withdraw_def split: if_splits)
    show ?case
      unfolding sum.case using modified again inProgress same quiet
      by (cases "Withdraw (in_Generation i) now d") (auto simp: split_beta)
  next
    case (2 e)
    have "?T (ret False)" if "deliveryRow ?k (dbAtBegin w) = None"
    proof (rule at_ret)
      fix v assume "at (begun w) v"
      with that show "removeOutcome i w (Inr False) v"
        unfolding removeOutcome_def Let_def by (intro disjI1) (auto simp: at_def)
    qed
    with 2 show ?case using get_delivery_missing [of _ _ "dbAtBegin w" e]
      by (auto intro!: quiet triple_if)
  qed (auto simp: at_def intro!: removeOutcome_none)
qed

section \<open>Generations during an activity\<close>

text \<open>
  \<open>genOf i s\<close>: the stored generation of fulfillment \<open>i\<close>. \<open>follows w v\<close>: between \<open>w\<close> and
  \<open>v\<close> the environment committed some of its transactions, and if it committed none then no
  generation changed. Every activity follows.
\<close>

definition genOf :: "FulfillmentID \<Rightarrow> store \<Rightarrow> Generation option" where
  "genOf i s = map_option fs_Generation (fulfillmentRow i s)"

definition follows :: "world \<Rightarrow> world \<Rightarrow> bool" where
  "follows w v \<longleftrightarrow>
     (\<exists>n. w_others v = drop n (w_others w)) \<and>
     (length (w_others v) = length (w_others w) \<longrightarrow> (\<forall>i. genOf i (w_db v) = genOf i (w_db w)))"

lemma follows_refl [simp]: "follows w w"
  unfolding follows_def by (metis drop0)

lemma follows_trans:
  assumes "follows u v" "follows v w"
  shows "follows u w"
proof -
  obtain m n where mn: "w_others v = drop m (w_others u)" "w_others w = drop n (w_others v)"
    using assms by (auto simp: follows_def)
  then have "w_others w = drop (n + m) (w_others u)" by simp
  moreover have "length (w_others w) \<le> length (w_others v)" "length (w_others v) \<le> length (w_others u)"
    using mn by simp_all
  ultimately show ?thesis using assms unfolding follows_def by (metis le_antisym)
qed

lemma follows_same:
  "w_others v = w_others w \<Longrightarrow> (\<And>i. genOf i (w_db v) = genOf i (w_db w)) \<Longrightarrow> follows w v"
  unfolding follows_def by (metis drop0)

lemma follows_begun:
  assumes "w_others v = tl (w_others w)" "\<And>i. genOf i (w_db v) = genOf i (dbAtBegin w)"
  shows "follows w v"
proof (cases "w_others w")
  case Nil
  with assms show ?thesis by (intro follows_same) (simp_all add: dbAtBegin_def)
next
  case (Cons a as)
  with assms have "w_others v = drop 1 (w_others w)" "length (w_others v) \<noteq> length (w_others w)"
    by simp_all
  then show ?thesis unfolding follows_def by blast
qed

lemma genOf_frame [simp]:
  "genOf i (deliveriesPut d s) = genOf i s" "genOf i (putTarget t s) = genOf i s"
  "genOf i (dropTarget k s) = genOf i s" "genOf i (inventoryCreateOrUpdate it s) = genOf i s"
  "genOf i (dropItem k s) = genOf i s" "genOf i (deliveriesDeleteByFulfillment f s) = genOf i s"
  by (simp_all add: genOf_def fulfillmentRow_def deliveriesPut_def putTarget_def dropTarget_def
      inventoryCreateOrUpdate_def dropItem_def deliveriesDeleteByFulfillment_def)

lemma fulfillmentsUpdate_rows:
  assumes "fulfillmentsUpdate f s = Inr s'"
  shows "t_fulfillments s' = map (\<lambda>row. if fs_ID row = f_id f then storedFulfillment (fs_CreatedAt row) f else row)
      (t_fulfillments s)" "fulfillmentRow (f_id f) s \<noteq> None"
  using assms by (auto simp: fulfillmentsUpdate_def flushPendingStrategyRecords_def split: if_splits sum.splits)

lemma fulfillmentRow_after_update:
  assumes "fulfillmentsUpdate f s = Inr s'"
  shows "fulfillmentRow i s' = map_option (\<lambda>row. if fs_ID row = f_id f then storedFulfillment (fs_CreatedAt row) f else row)
      (fulfillmentRow i s)"
  unfolding fulfillmentRow_def fulfillmentsUpdate_rows(1) [OF assms]
  by (rule getRow_map) (simp add: storedFulfillment_def fulfillmentSnapshot_def)

lemma genOf_update:
  assumes "fulfillmentsUpdate f s = Inr s'" "genOf (f_id f) s = Some (f_generation f)"
  shows "genOf i s' = genOf i s"
proof (cases "fulfillmentRow i s")
  case None
  then show ?thesis by (simp add: genOf_def fulfillmentRow_after_update [OF assms(1)])
next
  case (Some row)
  then have "fs_ID row = i" by (auto simp: fulfillmentRow_def dest: getRow_Some)
  with Some assms(2) show ?thesis
    by (auto simp: genOf_def fulfillmentRow_after_update [OF assms(1)] storedFulfillment_def fulfillmentSnapshot_def)
qed

lemma loaded_generation:
  assumes "fulfillmentsGet i s = Inr f"
  shows "f_id f = i" "genOf i s = Some (f_generation f)"
  using assms by (auto elim!: fulfillmentsGet_Inr simp: genOf_def FulfillmentFromSnapshot_def joinedSnapshot_def)

lemma steps_Resolve:
  "steps w (Resolve f) (\<lambda>ev w'. w' = w \<and> (ev = None \<longleftrightarrow> f_provenance f = None))"
proof -
  have "triple (at w) (Resolve f) (\<lambda>ev v. at w v \<and> (ev = None \<longleftrightarrow> f_provenance f = None)) (\<lambda>_. at w)"
    unfolding Resolve_def by (intro run_rules) auto
  then show ?thesis
    unfolding steps_def by (rule triple_weaken) auto
qed

lemmas activity_rules = run_rules caught_reads then_steps [OF steps_Resolve, simplified]

text \<open>
  The same for whole computations, loops included. \<open>synced w\<close>: the working copy has the
  generations of the committed database. \<open>live m\<close>: from such a world \<open>m\<close> follows and ends in
  such a world again.
\<close>

definition synced :: "world \<Rightarrow> bool" where
  "synced w \<longleftrightarrow> (\<forall>i. genOf i (w_tx w) = genOf i (w_db w))"

definition liveStep :: "world \<Rightarrow> world \<Rightarrow> bool" where
  "liveStep w v \<longleftrightarrow> (synced w \<longrightarrow> follows w v \<and> synced v)"

abbreviation live :: "(world \<Rightarrow> 'x \<times> world) \<Rightarrow> bool" where
  "live m \<equiv> keeps liveStep m"

interpretation generations: world_relation liveStep
  by unfold_locales (auto simp: liveStep_def intro: follows_trans)

lemma live_aside:
  assumes "\<And>w r v. m w = (r, v) \<Longrightarrow> w_db v = w_db w \<and> w_tx v = w_tx w \<and> w_others v = w_others w"
  shows "live m"
  by (rule keepsI) (use assms in \<open>fastforce simp: liveStep_def synced_def intro: follows_same\<close>)

lemma liveStep_step: "liveStep w (w\<lparr>w_step := Suc (w_step w)\<rparr>)"
  by (auto simp: liveStep_def synced_def intro: follows_same)

lemmas live_infra = generations.keeps_infra [OF _ liveStep_step]

lemma live_beginTx: "live (beginTx p)"
  unfolding beginTx_def
  by (intro generations.keeps_wrap live_infra keepsI) (auto simp: liveStep_def synced_def intro: follows_begun)

lemma live_Commit: "live Commit"
  unfolding Commit_def
  by (intro live_infra keepsI) (auto simp: liveStep_def synced_def intro: follows_same)

lemma live_reads: "live (reads r)"
  unfolding reads_def by (intro live_infra live_aside) auto

lemma live_writes:
  "(\<And>s s' i. u s = Inr s' \<Longrightarrow> genOf i s' = genOf i s) \<Longrightarrow> live (writes u)"
  unfolding writes_def
  by (intro live_infra keepsI) (auto simp: liveStep_def synced_def split: sum.splits intro: follows_same)

lemma live_effects:
  "live Begin" "live BeginReadOnly" "live EndReadOnly" "live (putSecret p)" "live (deleteSecret ref)"
  "live (SignalFulfillmentEvent f ev)" "live (SignalDeleteCleanupComplete f)" "live (dispatchToAgent d)"
  unfolding Begin_def BeginReadOnly_def EndReadOnly_def putSecret_def deleteSecret_def
    SignalFulfillmentEvent_def SignalDeleteCleanupComplete_def
  by (intro live_beginTx live_infra live_aside;
      auto simp: ret_def dispatchToAgent_def Let_def split: sum.splits option.splits)+

lemmas live_rules = generations.rules live_Commit live_reads live_effects

lemma live_Resolve: "live (Resolve f)"
  unfolding Resolve_def by (intro live_rules)

lemma live_persist:
  "live (persistAndDeliver i d)" "live (persistAndRemove i d)"
  unfolding persistAndDeliver_def persistAndRemove_def
  by (intro live_rules live_writes, auto)+

lemma live_DeliverToTarget: "live (DeliverToTarget now i)"
  unfolding DeliverToTarget_def Let_def split_beta by (intro live_rules live_persist)

lemma live_RemoveFromTarget: "live (RemoveFromTarget now i)"
  unfolding RemoveFromTarget_def Let_def split_beta by (intro live_rules live_persist)

lemma live_GenerateManifests: "live (GenerateManifests ms)"
proof -
  have "live (Generate st)" for st
    by (cases st) (auto intro!: live_rules)
  then show ?thesis unfolding GenerateManifests_def by (intro live_rules)
qed

lemma live_ProcessDeliveryOutputs: "live (ProcessDeliveryOutputs vaulted now did res)"
  unfolding ProcessDeliveryOutputs_def
  by (intro live_rules live_writes) (auto simp: targetsCreateOrUpdate_def split: if_splits)

lemma live_CleanupDeliveryData: "live (CleanupDeliveryData vaulted i)"
  unfolding CleanupDeliveryData_def unlessMissing_def
  by (intro live_rules live_writes) (auto simp: targetsDelete_def inventoryDelete_def split: if_splits)

lemma live_CheckGeneration: "live (CheckGeneration i)"
  unfolding CheckGeneration_def by (intro live_rules)

lemma genOf_saved:
  assumes "fulfillmentsGet i s = Inr f" "fulfillmentsUpdate f' s = Inr s'"
    and "f_id f' = f_id f" "f_generation f' = f_generation f"
  shows "genOf j s' = genOf j s"
  using genOf_update [OF assms(2)] loaded_generation [OF assms(1)] assms(3,4) by simp

lemma acquired_fields [simp]:
  "f_id (snd (AcquireOrchestrationLock f)) = f_id f" "f_generation (snd (AcquireOrchestrationLock f)) = f_generation f"
  "f_id (ReleaseOrchestrationLock f) = f_id f" "f_generation (ReleaseOrchestrationLock f) = f_generation f"
  "f_id (snd (CompleteReconciliation g now f)) = f_id f"
  "f_generation (snd (CompleteReconciliation g now f)) = f_generation f"
  "f_id (ApplyReconciliationResult r f) = f_id f" "f_generation (ApplyReconciliationResult r f) = f_generation f"
  by (simp_all add: AcquireOrchestrationLock_def ReleaseOrchestrationLock_def CompleteReconciliation_def
      ApplyReconciliationResult_def Let_def)

lemma Acquire_triple:
  "triple (at w) (AcquireLockAndLoad i)
     (\<lambda>r v. liveStep w v \<and> genOf i (w_db v) = Some (f_generation (rn_Fulfillment r)))
     (\<lambda>_ v. liveStep w v)"
  unfolding AcquireLockAndLoad_def Let_def split_beta liveStep_def
  by (intro activity_rules)
    (auto simp: at_def synced_def loaded_generation genOf_saved intro!: activity_rules
       intro: follows_same follows_begun)

lemma live_Acquire: "live (AcquireLockAndLoad i)"
  by (rule keeps_triple, rule triple_weaken [OF Acquire_triple]) auto

text \<open>
  What \<^verbatim>\<open>PersistAndCompleteReconciliation\<close> commits: the row of the fulfillment as its
  transaction found it, with the result applied and the reconciliation completed.
\<close>

definition completedRow :: "go_time \<Rightarrow> PersistAndCompleteInput \<Rightarrow> world \<Rightarrow> world \<Rightarrow> bool" where
  "completedRow now i w v \<longleftrightarrow>
     (\<exists>f. fulfillmentsGet (rr_FulfillmentID (pc_Result i)) (dbAtBegin w) = Inr f \<and>
        fulfillmentsUpdate (snd (CompleteReconciliation (pc_ReconciledGen i) now
          (ApplyReconciliationResult (pc_Result i) f))) (dbAtBegin w) = Inr (w_db v))"

lemma needsRestart_iff [simp]: "fst (CompleteReconciliation g now f) \<longleftrightarrow> g < f_generation f"
  by (simp add: CompleteReconciliation_def Let_def)

lemma Persist_triple:
  "triple (at w) (PersistAndCompleteReconciliation now i)
     (\<lambda>r v. completedRow now i w v \<and> w_others v = tl (w_others w) \<and> liveStep w v \<and>
        (\<exists>g. genOf (rr_FulfillmentID (pc_Result i)) (w_db v) = Some g \<and> r = (pc_ReconciledGen i < g)) \<and>
        w_cleanups v = w_cleanups w @
          (if rr_State (pc_Result i) = FulfillmentStateDeleting then [rr_FulfillmentID (pc_Result i)] else []))
     (\<lambda>_ v. (w_db v = w_db w \<or> w_db v = dbAtBegin w \<or> completedRow now i w v) \<and>
        liveStep w v \<and> w_cleanups v = w_cleanups w)"
  unfolding PersistAndCompleteReconciliation_def Let_def split_beta completedRow_def liveStep_def
  by (intro activity_rules)
    (auto simp: at_def synced_def loaded_generation intro!: activity_rules
       intro: follows_same follows_begun simp: genOf_saved)

lemma live_Persist: "live (PersistAndCompleteReconciliation now i)"
  by (rule keeps_triple, rule triple_weaken [OF Persist_triple]) auto

lemma live_ReleaseLock: "live (ReleaseLock i)"
proof (rule keeps_triple)
  show "triple (at w) (ReleaseLock i) (\<lambda>_. liveStep w) (\<lambda>_. liveStep w)" for w
    unfolding ReleaseLock_def
    by (intro activity_rules)
      (auto simp: at_def liveStep_def synced_def genOf_saved intro: follows_same follows_begun)
qed

section \<open>Properties of the activities\<close>

text \<open>
  C20: delivering to a target, whatever fails. Either nothing is written and the agent is not called,
  or exactly one delivery record is committed, the one of the fulfillment and target, in state
  pending at the generation of the input, and the agent is called at most once, after the
  commit. An older or unknown record gets the new manifests and operation deliver; a record that
  is already at the input's generation keeps its manifests and its operation, and is sent again
  only when it was pending or finished. A record of a newer generation is never touched.
\<close>

theorem deliver_to_target_exact: "deliverOutcome i w (snd (DeliverToTarget now i w))"
  by (rule DeliverToTarget_outcome)


text \<open>When nothing fails, every delivery that is due is sent.\<close>

definition deliveryDue :: "DeliverInput \<Rightarrow> store \<Rightarrow> bool" where
  "deliveryDue i s \<longleftrightarrow>
     (case deliveryRow (in_FulfillmentID i, ti_id (in_Target i)) s of
        None \<Rightarrow> True
      | Some d \<Rightarrow> d_generation d < in_Generation i \<or>
          d_generation d = in_Generation i \<and> (d_state d = DeliveryStatePending \<or> stateIsTerminal (d_state d)))"

lemma dbAtBegin_step [simp]: "dbAtBegin (w\<lparr>w_step := n\<rparr>) = dbAtBegin w"
  by (simp add: dbAtBegin_def split: list.split)

lemma persistAndDeliver_calm:
  assumes "w_faults w = (\<lambda>_. None)" "w_agent w = (\<lambda>_. None)"
  shows "fst (persistAndDeliver i d w) = Inr ()"
    "w_dispatched (snd (persistAndDeliver i d w)) = w_dispatched w @ [DispatchDeliver (in_Target i) (in_DeliveryID i)
      (in_Manifests i) (in_Auth i) (in_Attestation i) (in_Generation i)]"
  using assms by (simp_all add: persistAndDeliver_def io_defs dispatchToAgent_def)

lemma DeliverToTarget_calm:
  assumes "w_faults w = (\<lambda>_. None)" "w_agent w = (\<lambda>_. None)"
  shows "fst (DeliverToTarget now i w) = Inr () \<and>
    w_dispatched (snd (DeliverToTarget now i w)) = w_dispatched w @
      (if deliveryDue i (dbAtBegin w)
       then [DispatchDeliver (in_Target i) (in_DeliveryID i) (in_Manifests i) (in_Auth i) (in_Attestation i)
               (in_Generation i)]
       else [])"
proof (cases "deliveryRow (in_FulfillmentID i, ti_id (in_Target i)) (dbAtBegin w)")
  case None
  then show ?thesis
    using assms
    by (simp add: DeliverToTarget_def io_defs deliveryDue_def deliveriesGetByFulfillmentTarget_def
        orNotFound_def notFound_def persistAndDeliver_calm)
next
  case (Some d)
  then show ?thesis
    using assms
    by (simp add: DeliverToTarget_def io_defs deliveryDue_def deliveriesGetByFulfillmentTarget_def
        persistAndDeliver_calm Redispatch_def Retry_def ResetForRetry_def)
qed

text \<open>
  when the infrastructure and the agent work, delivering succeeds, and the agent is called
  exactly when the delivery is due: there is no record, or it is older, or it is at this
  generation and pending or finished. A delivery that is in progress is not sent twice.
\<close>

theorem deliver_to_target_sends_when_due:
  assumes "w_faults w = (\<lambda>_. None)" "w_agent w = (\<lambda>_. None)"
  shows "fst (DeliverToTarget now i w) = Inr () \<and>
    w_dispatched (snd (DeliverToTarget now i w)) = w_dispatched w @
      (if deliveryDue i (dbAtBegin w)
       then [DispatchDeliver (in_Target i) (in_DeliveryID i) (in_Manifests i) (in_Auth i) (in_Attestation i)
               (in_Generation i)]
       else [])"
  using assms by (rule DeliverToTarget_calm)

definition sampleTarget :: TargetInfo where
  "sampleTarget = NewTargetInfo ''t'' ''k8s'' ''cluster'' TargetStateReady fmempty fmempty []"

definition sampleInput :: DeliverInput where
  "sampleInput =
     \<lparr>in_Target = sampleTarget, in_DeliveryID = ''f:t'', in_FulfillmentID = ''f'',
      in_Manifests = [\<lparr>mf_type = ''k8s'', mf_id = ''m'', mf_raw = ''{}''\<rparr>], in_Auth = zeroAuth,
      in_Attestation = None, in_Generation = 1\<rparr>"

theorem deliver_to_target_sends_when_due_witness:
  "w_dispatched (snd (DeliverToTarget 7 sampleInput (calmWorld emptyStore))) =
     [DispatchDeliver sampleTarget ''f:t'' [\<lparr>mf_type = ''k8s'', mf_id = ''m'', mf_raw = ''{}''\<rparr>] zeroAuth None 1]"
  using deliver_to_target_sends_when_due [of "calmWorld emptyStore" 7 sampleInput]
  by (simp add: calmWorld_def deliveryDue_def dbAtBegin_def emptyStore_def deliveryRow_def sampleInput_def)

text \<open>
  delivering again what was withdrawn at the same generation. When the record says that the
  delivery was removed at this generation and the removal is finished (or was never acknowledged),
  the agent is told to deliver the new manifests, but the committed record goes on saying that the
  operation is a removal and keeps the old manifests.
\<close>

theorem redelivery_keeps_removal_record:
  assumes "w_faults w = (\<lambda>_. None)" "w_agent w = (\<lambda>_. None)"
    and "deliveryRow (in_FulfillmentID i, ti_id (in_Target i)) (dbAtBegin w) = Some d"
    and "d_operation d = DeliveryOperationRemove" "d_generation d = in_Generation i"
    and "d_state d = DeliveryStatePending \<or> stateIsTerminal (d_state d)"
  shows "\<exists>d'. deliveryRow (in_FulfillmentID i, ti_id (in_Target i)) (w_db (snd (DeliverToTarget now i w))) = Some d' \<and>
      d_operation d' = DeliveryOperationRemove \<and> d_manifests d' = d_manifests d \<and>
      d_state d' = DeliveryStatePending \<and>
      last (w_dispatched (snd (DeliverToTarget now i w))) =
        DispatchDeliver (in_Target i) (in_DeliveryID i) (in_Manifests i) (in_Auth i) (in_Attestation i) (in_Generation i)"
proof -
  let ?k = "(in_FulfillmentID i, ti_id (in_Target i))" and ?v = "snd (DeliverToTarget now i w)"
  have "deliveryDue i (dbAtBegin w)" using assms by (simp add: deliveryDue_def)
  then have sent: "w_dispatched ?v = w_dispatched w @ [DispatchDeliver (in_Target i) (in_DeliveryID i)
      (in_Manifests i) (in_Auth i) (in_Attestation i) (in_Generation i)]"
    using DeliverToTarget_calm [OF assms(1,2)] by simp
  then obtain d' where d': "w_db ?v = deliveriesPut d' (dbAtBegin w)" "deliveryKey d' = ?k"
    "d_manifests d' = d_manifests d" "d_operation d' = d_operation d" "d_state d' = DeliveryStatePending"
    using DeliverToTarget_outcome [of i w now] assms(3,5) by (auto simp: deliverOutcome_def Let_def)
  then show ?thesis
    using deliveries.get_put_same [of d' "dbAtBegin w"] sent assms(4) by auto
qed

definition withdrawnStore :: store where
  "withdrawnStore = deliveriesPut ((NewDelivery ''f:t'' ''f'' ''t'' [] 1 0)
     \<lparr>d_operation := DeliveryOperationRemove, d_state := DeliveryStateDelivered\<rparr>) emptyStore"

theorem redelivery_keeps_removal_record_witness:
  "\<exists>d'. deliveryRow (''f'', ''t'') (w_db (snd (DeliverToTarget 7 sampleInput (calmWorld withdrawnStore)))) = Some d' \<and>
     d_operation d' = DeliveryOperationRemove \<and> d_manifests d' = []"
proof -
  obtain d where d: "deliveryRow (''f'', ''t'') withdrawnStore = Some d"
    "d_operation d = DeliveryOperationRemove" "d_generation d = 1" "d_state d = DeliveryStateDelivered"
    "d_manifests d = []"
    using deliveries.get_put_same [of "(NewDelivery ''f:t'' ''f'' ''t'' [] 1 0)
        \<lparr>d_operation := DeliveryOperationRemove, d_state := DeliveryStateDelivered\<rparr>" emptyStore]
    by (simp add: withdrawnStore_def NewDelivery_def deliveryKey_def)
  then show ?thesis
    using redelivery_keeps_removal_record [of "calmWorld withdrawnStore" sampleInput d 7]
    by (auto simp: sampleInput_def sampleTarget_def NewTargetInfo_def calmWorld_def dbAtBegin_def)
qed

lemma Persist_row:
  "let (r, v) = PersistAndCompleteReconciliation now i w; k = rr_FulfillmentID (pc_Result i) in
   case r of
     Inl e \<Rightarrow> w_cleanups v = w_cleanups w
   | Inr restart \<Rightarrow>
       (\<exists>old row.
          (\<forall>j. fulfillmentRow j (w_db v) = (if j = k then Some row else fulfillmentRow j (dbAtBegin w))) \<and>
          fulfillmentRow k (dbAtBegin w) = Some old \<and>
          fs_Generation row = fs_Generation old \<and> fs_ObservedGeneration row = pc_ReconciledGen i \<and>
          restart = (pc_ReconciledGen i < fs_Generation row) \<and>
          fs_ActiveWorkflowGen row = (if restart then fs_ActiveWorkflowGen old else None) \<and>
          fs_State row = (if rr_PauseReason (pc_Result i) = '''' then rr_State (pc_Result i) else fs_State old)) \<and>
       w_cleanups v = w_cleanups w @ (if rr_State (pc_Result i) = FulfillmentStateDeleting then [k] else [])"
proof -
  let ?k = "rr_FulfillmentID (pc_Result i)"
  obtain r v where run: "PersistAndCompleteReconciliation now i w = (r, v)" by fastforce
  show ?thesis
  proof (cases r)
    case (Inl e)
    with run show ?thesis using tripleD_Inl [OF Persist_triple at_refl] by fastforce
  next
    case (Inr restart)
    then have post: "completedRow now i w v" "\<exists>g. genOf ?k (w_db v) = Some g \<and> restart = (pc_ReconciledGen i < g)"
      "w_cleanups v = w_cleanups w @ (if rr_State (pc_Result i) = FulfillmentStateDeleting then [?k] else [])"
      using run tripleD_Inr [OF Persist_triple at_refl] by fastforce+
    then obtain f where f: "fulfillmentsGet ?k (dbAtBegin w) = Inr f"
      "fulfillmentsUpdate (snd (CompleteReconciliation (pc_ReconciledGen i) now (ApplyReconciliationResult (pc_Result i) f)))
         (dbAtBegin w) = Inr (w_db v)" unfolding completedRow_def by blast
    from f(1) obtain old where old: "fulfillmentRow ?k (dbAtBegin w) = Some old" "fs_ID old = ?k"
      "f = FulfillmentFromSnapshot (joinedSnapshot (dbAtBegin w) old)" by (rule fulfillmentsGet_Inr)
    have other: "fulfillmentRow j (w_db v) = fulfillmentRow j (dbAtBegin w)" if "j \<noteq> ?k" for j
      using that fulfillmentRow_after_update [OF f(2), of j] loaded_generation(1) [OF f(1)]
      by (cases "fulfillmentRow j (dbAtBegin w)") (auto simp: fulfillmentRow_def dest!: getRow_Some)
    show ?thesis
      using post(2,3) other old fulfillmentRow_after_update [OF f(2), of ?k] loaded_generation(1) [OF f(1)]
      by (auto simp: run Inr genOf_def storedFulfillment_def fulfillmentSnapshot_def fulfillment_ops
          FulfillmentFromSnapshot_def joinedSnapshot_def)
  qed
qed

text \<open>
  C22: finishing a reconciliation in the store. On success the committed row of the fulfillment
  has the reconciled generation as observed, and the answer asks for a restart exactly when the
  row's generation is ahead; the lock is free exactly when no restart is asked for. The other
  fulfillments are as the transaction found them. Whoever waits for a deletion is signalled exactly
  when the result says deleting, and never unless the row was committed.
\<close>

theorem persist_completes:
  "let (r, v) = PersistAndCompleteReconciliation now i w; k = rr_FulfillmentID (pc_Result i) in
   case r of
     Inl e \<Rightarrow> w_cleanups v = w_cleanups w
   | Inr restart \<Rightarrow>
       (\<exists>old row.
          (\<forall>j. fulfillmentRow j (w_db v) = (if j = k then Some row else fulfillmentRow j (dbAtBegin w))) \<and>
          fulfillmentRow k (dbAtBegin w) = Some old \<and>
          fs_Generation row = fs_Generation old \<and> fs_ObservedGeneration row = pc_ReconciledGen i \<and>
          restart = (pc_ReconciledGen i < fs_Generation row) \<and>
          fs_ActiveWorkflowGen row = (if restart then fs_ActiveWorkflowGen old else None) \<and>
          fs_State row = (if rr_PauseReason (pc_Result i) = '''' then rr_State (pc_Result i) else fs_State old)) \<and>
       w_cleanups v = w_cleanups w @ (if rr_State (pc_Result i) = FulfillmentStateDeleting then [k] else [])"
  by (rule Persist_row)

section \<open>Cleaning up\<close>

lemma forEach_at:
  assumes "\<And>x w. x \<in> set xs \<Longrightarrow> I w \<Longrightarrow> triple (at w) (body x) (\<lambda>_. at (f x w)) R"
    and "\<And>x w. I w \<Longrightarrow> I (f x w)" "I w"
  shows "triple (at w) (forEach xs body) (\<lambda>_. at (fold f xs w)) R"
  using assms(1,3)
proof (induction xs arbitrary: w)
  case Nil
  then show ?case by (simp add: triple_ret)
next
  case (Cons x xs)
  show ?case
    unfolding forEach.simps fold_simps
  proof (rule triple_andThen)
    show "triple (at w) (body x) (\<lambda>_. at (f x w)) R" using Cons.prems by simp
    show "triple (at (f x w)) (forEach xs body) (\<lambda>_. at (fold f xs (f x w))) R"
      using Cons.prems assms(2) by (intro Cons.IH) auto
  qed
qed

lemma unlessMissing_writes:
  assumes "\<And>e. u (w_tx w) = Inl e \<Longrightarrow> s' = w_tx w" "\<And>s. u (w_tx w) = Inr s \<Longrightarrow> s' = s"
    and "\<And>e v. at w v \<Longrightarrow> R e v"
  shows "triple (at w) (unlessMissing p (writes u)) (\<lambda>_. at (w\<lparr>w_tx := s'\<rparr>)) R"
proof (rule tripleI)
  fix v assume v: "at w v"
  then have stop: "R e (v\<lparr>w_step := n\<rparr>)" for e n using assms(3) at_step by blast
  show "case unlessMissing p (writes u) v of (Inr x, w') \<Rightarrow> at (w\<lparr>w_tx := s'\<rparr>) w' | (Inl e, w') \<Rightarrow> R e w'"
    using v assms(1,2) stop
    by (auto simp: unlessMissing_def io_defs at_def split: sum.split option.split)
qed

lemma unlessMissing_deleteSecret:
  assumes "\<And>e v. at w v \<Longrightarrow> R e v"
  shows "triple (at w) (unlessMissing p (deleteSecret ref)) (\<lambda>_. at (w\<lparr>w_vault := fmdrop ref (w_vault w)\<rparr>)) R"
proof (rule tripleI)
  fix v assume v: "at w v"
  then have stop: "R e (v\<lparr>w_step := n\<rparr>)" for e n using assms at_step by blast
  have "fmdrop ref m = m" if "fmlookup m ref = None" for m :: vault
    using that by (intro fmap_ext) simp
  then show "case unlessMissing p (deleteSecret ref) v of
      (Inr x, w') \<Rightarrow> at (w\<lparr>w_vault := fmdrop ref (w_vault w)\<rparr>) w' | (Inl e, w') \<Rightarrow> R e w'"
    using v stop
    by (auto simp: unlessMissing_def deleteSecret_def vaultDelete_def io_defs at_def split: sum.split option.split)
qed

text \<open>The items that deliveries of \<open>i\<close> produced, and what cleaning up leaves of a database.\<close>

definition ownedItems :: "FulfillmentID \<Rightarrow> store \<Rightarrow> InventoryItem list" where
  "ownedItems i s =
     filter (\<lambda>item. \<exists>d \<in> set (t_deliveries s). d_fulfillmentID d = i \<and> ii_sourceDeliveryID item = Some (d_id d))
       (t_inventory s)"

definition cleanedStore :: "FulfillmentID \<Rightarrow> store \<Rightarrow> store" where
  "cleanedStore i s =
     s\<lparr>t_deliveries := filter (\<lambda>d. d_fulfillmentID d \<noteq> i) (t_deliveries s),
       t_inventory := filter (\<lambda>it. ii_id it \<notin> ii_id ` set (ownedItems i s)) (t_inventory s),
       t_targets := filter (\<lambda>t. targetPrefix @ ti_id t \<notin> ii_id ` set (ownedItems i s)) (t_targets s)\<rparr>"

definition ownedSecrets :: "FulfillmentID \<Rightarrow> store \<Rightarrow> SecretRef set" where
  "ownedSecrets i s =
     {ref. ref \<noteq> '''' \<and> (\<exists>it \<in> set (ownedItems i s). \<exists>props key.
        decodeStringMap (ii_properties it) = Inr props \<and> suffix ''_ref'' key \<and> fmlookup props key = Some ref)}"

lemma collectOutputs_Inr:
  "collectOutputs dids items = Inr (invs, tgts, secs) \<Longrightarrow>
   let own = filter (\<lambda>it. \<exists>d \<in> set dids. ii_sourceDeliveryID it = Some d) items in
   invs = map ii_id own \<and> tgts = List.map_filter (\<lambda>it. targetIDFromInventoryItem (ii_id it)) own \<and>
   (\<forall>it \<in> set own. \<not> isl (secretRefsFromProperties (ii_id it) (ii_properties it))) \<and>
   secs = concat (map (\<lambda>it. projr (secretRefsFromProperties (ii_id it) (ii_properties it))) own)"
proof (induction items arbitrary: invs tgts secs)
  case Nil
  then show ?case by simp
next
  case (Cons item items)
  show ?case
  proof (cases "\<exists>d \<in> set dids. ii_sourceDeliveryID item = Some d")
    case False
    then have "collectOutputs dids (item # items) = collectOutputs dids items"
      by (auto split: option.split)
    then have "collectOutputs dids items = Inr (invs, tgts, secs)" using Cons.prems by simp
    from Cons.IH [OF this] False show ?thesis by (simp add: Let_def)
  next
    case True
    with Cons.prems obtain refs invs' tgts' secs' where
      "secretRefsFromProperties (ii_id item) (ii_properties item) = Inr refs"
      "collectOutputs dids items = Inr (invs', tgts', secs')" "invs = ii_id item # invs'"
      "tgts = (case targetIDFromInventoryItem (ii_id item) of Some t \<Rightarrow> t # tgts' | None \<Rightarrow> tgts')"
      "secs = refs @ secs'"
      by (auto split: sum.splits)
    with Cons.IH True show ?thesis by (auto simp: Let_def List.map_filter_simps split: option.split)
  qed
qed

lemma fold_drops:
  "fold dropTarget ts s = s\<lparr>t_targets := filter (\<lambda>t. ti_id t \<notin> set ts) (t_targets s)\<rparr>"
  "fold dropItem ks s = s\<lparr>t_inventory := filter (\<lambda>it. ii_id it \<notin> set ks) (t_inventory s)\<rparr>"
  by (induction ts arbitrary: s; simp add: dropTarget_def deleteRow_def conj_commute)
    (induction ks arbitrary: s; simp add: dropItem_def deleteRow_def conj_commute)

lemma fold_worlds:
  "fold (\<lambda>x w. w\<lparr>w_tx := g x (w_tx w)\<rparr>) xs w = w\<lparr>w_tx := fold g xs (w_tx w)\<rparr>"
  "fold (\<lambda>x w. w\<lparr>w_vault := h x (w_vault w)\<rparr>) xs w = w\<lparr>w_vault := fold h xs (w_vault w)\<rparr>"
  by (induction xs arbitrary: w) simp_all

lemma fmlookup_drops: "fmlookup (fold fmdrop refs m) ref = (if ref \<in> set refs then None else fmlookup m ref)"
  by (induction refs arbitrary: m) auto

lemma cleanup_loops:
  assumes "\<And>e v. w_db v = w_db w \<Longrightarrow> R e v"
  shows "triple (at w) (forEach refs (\<lambda>ref. unlessMissing (p ref) (deleteSecret ref)))
      (\<lambda>_. at (w\<lparr>w_vault := fold fmdrop refs (w_vault w)\<rparr>)) R"
    and "triple (at w) (forEach ts (\<lambda>t. unlessMissing (p t) (writes (targetsDelete t))))
      (\<lambda>_. at (w\<lparr>w_tx := fold dropTarget ts (w_tx w)\<rparr>)) R"
    and "triple (at w) (forEach ks (\<lambda>k. unlessMissing (p k) (writes (inventoryDelete k))))
      (\<lambda>_. at (w\<lparr>w_tx := fold dropItem ks (w_tx w)\<rparr>)) R"
  unfolding fold_worlds [symmetric]
  by (rule forEach_at [where I = "\<lambda>u. w_db u = w_db w"];
      auto intro!: unlessMissing_deleteSecret unlessMissing_writes
        simp: targetsDelete_def inventoryDelete_def drop_missing at_def split: if_splits intro: assms)+

lemma set_picked: "y \<in> set (List.map_filter f xs) \<longleftrightarrow> (\<exists>x \<in> set xs. f x = Some y)"
  by (induction xs) (auto simp: List.map_filter_simps split: option.split)

lemma targetID_Some: "targetIDFromInventoryItem k = Some t \<longleftrightarrow> k = targetPrefix @ t"
  by (auto simp: targetIDFromInventoryItem_def prefix_def)

lemma decodeStringMap_empty: "isl (decodeStringMap [])"
  by (simp add: decodeStringMap_def decodeJSON_def numeral_2_eq_2 skipWS_def)

lemma secretRefs_Inr:
  assumes "\<not> isl (secretRefsFromProperties k raw)"
  shows "set (projr (secretRefsFromProperties k raw)) =
    {ref. ref \<noteq> '''' \<and> (\<exists>props key. decodeStringMap raw = Inr props \<and> suffix ''_ref'' key \<and> fmlookup props key = Some ref)}"
proof (cases "raw = []")
  case True
  then show ?thesis using decodeStringMap_empty by (auto simp: secretRefsFromProperties_def)
next
  case False
  with assms obtain props where props: "decodeStringMap raw = Inr props"
    by (auto simp: secretRefsFromProperties_def split: sum.splits)
  have "(\<exists>key. key \<in> set (sorted_list_of_fset (fmdom props)) \<and> suffix ''_ref'' key \<and>
      ref = (case fmlookup props key of Some v \<Rightarrow> v | None \<Rightarrow> '''')) \<longleftrightarrow>
    (\<exists>key. suffix ''_ref'' key \<and> fmlookup props key = Some ref)" if "ref \<noteq> ''''" for ref
    using that by (auto split: option.splits intro: fmdomI)
  with False props show ?thesis by (auto simp: secretRefsFromProperties_def image_iff)
qed

lemma planned_outputs:
  assumes "buildOutputCleanupPlan (deliveriesListByFulfillment i s) (inventoryList s) = Inr plan"
  shows "set (cp_inventoryIDs plan) = ii_id ` set (ownedItems i s)"
    and "ti_id t \<in> set (cp_targetIDs plan) \<longleftrightarrow> targetPrefix @ ti_id t \<in> ii_id ` set (ownedItems i s)"
    and "set (cp_secretRefs plan) = ownedSecrets i s"
proof -
  let ?own = "ownedItems i s"
  obtain invs tgts secs where c: "collectOutputs (map d_id (deliveriesListByFulfillment i s)) (inventoryList s) = Inr (invs, tgts, secs)"
    and plan: "plan = \<lparr>cp_targetIDs = sortedKeys tgts, cp_inventoryIDs = sortedKeys invs, cp_secretRefs = sortedKeys secs\<rparr>"
    using assms by (auto simp: buildOutputCleanupPlan_def split: sum.splits)
  have own: "filter (\<lambda>it. \<exists>d \<in> set (map d_id (deliveriesListByFulfillment i s)). ii_sourceDeliveryID it = Some d)
      (inventoryList s) = ?own"
    unfolding ownedItems_def inventoryList_def deliveriesListByFulfillment_def by (rule filter_cong) auto
  note facts = collectOutputs_Inr [OF c, unfolded own Let_def]
  show "set (cp_inventoryIDs plan) = ii_id ` set ?own"
    using facts by (simp add: plan sortedKeys_def)
  show "ti_id t \<in> set (cp_targetIDs plan) \<longleftrightarrow> targetPrefix @ ti_id t \<in> ii_id ` set ?own"
    using facts set_picked [where f = "\<lambda>it. targetIDFromInventoryItem (ii_id it)" and xs = ?own]
    by (force simp: plan sortedKeys_def targetID_Some image_iff)
  have refs: "set (projr (secretRefsFromProperties (ii_id it) (ii_properties it))) =
      {ref. ref \<noteq> '''' \<and> (\<exists>props key. decodeStringMap (ii_properties it) = Inr props \<and> suffix ''_ref'' key \<and>
         fmlookup props key = Some ref)}" if "it \<in> set ?own" for it
    using facts that by (auto simp: secretRefs_Inr)
  show "set (cp_secretRefs plan) = ownedSecrets i s"
    using facts refs by (auto simp: plan sortedKeys_def ownedSecrets_def)
qed

lemma cleanup_triple:
  assumes "w_others w = []"
  shows "triple (at w) (CleanupDeliveryData vaulted i)
    (\<lambda>_ v. w_db v = cleanedStore i (w_db w) \<and>
       (\<forall>ref. fmlookup (w_vault v) ref =
          (if vaulted \<and> ref \<in> ownedSecrets i (w_db w) then None else fmlookup (w_vault w) ref)))
    (\<lambda>_ v. w_db v = w_db w)"
proof -
  let ?Q = "\<lambda>_ v. w_db v = cleanedStore i (w_db w) \<and>
       (\<forall>ref. fmlookup (w_vault v) ref =
          (if vaulted \<and> ref \<in> ownedSecrets i (w_db w) then None else fmlookup (w_vault w) ref))"
  let ?R = "\<lambda>_ v. w_db v = w_db w"
  have start: "dbAtBegin u = w_db w" if "w_db u = w_db w" "w_others u = []" for u
    using that by (simp add: dbAtBegin_def)
  have step: "triple (at u) (andThen (forEach refs (\<lambda>ref. unlessMissing (p ref) (deleteSecret ref))) k) Q ?R"
    if "w_db u = w_db w" "triple (at (u\<lparr>w_vault := fold fmdrop refs (w_vault u)\<rparr>)) (k ()) Q ?R"
    for u refs p k and Q :: "unit \<Rightarrow> world \<Rightarrow> bool"
    by (rule triple_andThen, rule cleanup_loops(1)) (use that in auto)
  have tstep: "triple (at u) (andThen (forEach ts (\<lambda>t. unlessMissing (p t) (writes (targetsDelete t)))) k) Q ?R"
    if "w_db u = w_db w" "triple (at (u\<lparr>w_tx := fold dropTarget ts (w_tx u)\<rparr>)) (k ()) Q ?R"
    for u ts p k and Q :: "unit \<Rightarrow> world \<Rightarrow> bool"
    by (rule triple_andThen, rule cleanup_loops(2)) (use that in auto)
  have istep: "triple (at u) (andThen (forEach ts (\<lambda>t. unlessMissing (p t) (writes (inventoryDelete t)))) k) Q ?R"
    if "w_db u = w_db w" "triple (at (u\<lparr>w_tx := fold dropItem ts (w_tx u)\<rparr>)) (k ()) Q ?R"
    for u ts p k and Q :: "unit \<Rightarrow> world \<Rightarrow> bool"
    by (rule triple_andThen, rule cleanup_loops(3)) (use that in auto)
  show ?thesis
    unfolding CleanupDeliveryData_def
    by (intro run_rules step tstep istep)
      (auto simp: at_def assms start fold_drops fmlookup_drops planned_outputs cleanedStore_def
        deliveriesDeleteByFulfillment_def)
qed

text \<open>
  Cleaning up after a deletion. With no other transaction in between, a clean-up either fails
  and leaves the database as it was, or leaves it without the deliveries of the fulfillment, without
  the inventory items those deliveries produced and without the targets registered for those
  items, everything else untouched; and the vault has lost exactly the secrets that the
  properties of those items refer to.
\<close>

theorem cleanup_exact:
  assumes "w_others w = []"
  shows "case CleanupDeliveryData vaulted i w of
      (Inl _, v) \<Rightarrow> w_db v = w_db w
    | (Inr _, v) \<Rightarrow> w_db v = cleanedStore i (w_db w) \<and>
       (\<forall>ref. fmlookup (w_vault v) ref =
          (if vaulted \<and> ref \<in> ownedSecrets i (w_db w) then None else fmlookup (w_vault w) ref))"
  using cleanup_triple [OF assms, of vaulted i] at_refl [of w]
  unfolding triple_def by (fastforce split: prod.splits sum.splits)

text \<open>The rows that the outputs of a delivery become.\<close>

definition recordOutput :: "go_time \<Rightarrow> DeliveryID \<Rightarrow> ProvisionedTarget \<Rightarrow> store \<Rightarrow> store" where
  "recordOutput now did pt s = putTarget (outputTarget pt) (inventoryCreateOrUpdate (outputItem now did pt) s)"

lemma recordOutputs_item:
  assumes "distinct (map pv_ID pts)" "pt \<in> set pts"
  shows "\<exists>it. inventoryRow (targetPrefix @ pv_ID pt) (fold (recordOutput now did) pts s) = Some it \<and>
    ii_sourceDeliveryID it = Some did \<and> decodeStringMap (ii_properties it) = Inr (pv_Properties pt)"
  using assms
proof (induction pts arbitrary: s)
  case (Cons p pts)
  have frame: "inventoryRow k (putTarget t s) = inventoryRow k s" for k t s
    by (simp add: inventoryRow_def putTarget_def)
  have later: "inventoryRow (targetPrefix @ k) (fold (recordOutput now did) ps s) = inventoryRow (targetPrefix @ k) s"
    if "k \<notin> pv_ID ` set ps" for k ps s
    using that
    by (induction ps arbitrary: s)
      (auto simp: recordOutput_def frame inventory.get_put outputItem_def NewInventoryItem_def targetPrefix_def)
  have nonempty: "encodeStringMap m \<noteq> []" for m
    using decodeStringMap_encode [of m] decodeStringMap_empty by (metis Inr_Inl_False isl_def)
  have now: "\<exists>it. inventoryRow (targetPrefix @ pv_ID p) (recordOutput now did p s) = Some it \<and>
      ii_sourceDeliveryID it = Some did \<and> decodeStringMap (ii_properties it) = Inr (pv_Properties p)"
    using inventory.get_put_same [of "outputItem now did p" s] nonempty
    by (simp add: recordOutput_def frame outputItem_def NewInventoryItem_def targetPrefix_def storedItem_def
        marshalOrDefault_def)
  show ?case
  proof (cases "pt = p")
    case True
    then show ?thesis using now Cons.prems(1) later [of "pv_ID p" pts] by simp
  next
    case False
    then show ?thesis using Cons by simp
  qed
qed simp

lemma outputs_triple:
  "triple (at w) (ProcessDeliveryOutputs vaulted now did res)
    (\<lambda>_ v. w_others v = tl (w_others w) \<and> w_db v = fold (recordOutput now did) (dr_ProvisionedTargets res) (dbAtBegin w) \<or>
       dr_ProvisionedTargets res = [] \<and> at w v)
    (\<lambda>_ v. w_db v = w_db w \<or> w_db v = dbAtBegin w)"
proof -
  have secrets: "triple (at u) (forEach ps (\<lambda>p. wrap (q p) (putSecret p)))
      (\<lambda>_. at (fold (\<lambda>p w. w\<lparr>w_vault := vaultPut p (w_vault w)\<rparr>) ps u)) (\<lambda>_ v. w_db v = w_db u)" for u ps q
    by (rule forEach_at [where I = "\<lambda>v. w_db v = w_db u"])
      (auto intro!: last_steps [OF steps_wrap [OF steps_putSecret]] simp: at_def)
  have rows: "triple (at u) (forEach pts (\<lambda>pt. andThen (wrap (q pt)
          (writes (\<lambda>s. Inr (inventoryCreateOrUpdate (outputItem now did pt) s)))) (\<lambda>_.
        wrap (q' pt) (writes (targetsCreateOrUpdate (outputTarget pt))))))
      (\<lambda>_. at (fold (\<lambda>pt w. w\<lparr>w_tx := recordOutput now did pt (w_tx w)\<rparr>) pts u)) (\<lambda>_ v. w_db v = w_db u)" for u pts q q'
    by (rule forEach_at [where I = "\<lambda>v. w_db v = w_db u"])
      (auto intro!: then_rules last_steps [OF steps_wrap [OF steps_writes]]
        simp: at_def recordOutput_def targetsCreateOrUpdate_def split: if_splits)
  let ?R = "\<lambda>_ v. w_db v = w_db w \<or> w_db v = dbAtBegin w"
  have secretsStep: "triple (at u) (andThen (forEach ps (\<lambda>p. wrap (q p) (putSecret p))) k) Q ?R"
    if "w_db u = w_db w" "triple (at (u\<lparr>w_vault := fold vaultPut ps (w_vault u)\<rparr>)) (k ()) Q ?R"
    for u ps q k and Q :: "unit \<Rightarrow> world \<Rightarrow> bool"
    by (rule triple_andThen, rule triple_weaken [OF secrets]) (use that in \<open>auto simp: fold_worlds\<close>)
  have rowsStep: "triple (at u) (andThen (forEach pts (\<lambda>pt. andThen (wrap (q pt)
          (writes (\<lambda>s. Inr (inventoryCreateOrUpdate (outputItem now did pt) s)))) (\<lambda>_.
        wrap (q' pt) (writes (targetsCreateOrUpdate (outputTarget pt)))))) k) Q ?R"
    if "w_db u = dbAtBegin w" "triple (at (u\<lparr>w_tx := fold (recordOutput now did) pts (w_tx u)\<rparr>)) (k ()) Q ?R"
    for u pts q q' k and Q :: "unit \<Rightarrow> world \<Rightarrow> bool"
    by (rule triple_andThen, rule triple_weaken [OF rows]) (use that in \<open>auto simp: fold_worlds\<close>)
  have frame: "dbAtBegin (w\<lparr>w_vault := m\<rparr>) = dbAtBegin w" for m
    by (simp add: dbAtBegin_def split: list.split)
  show ?thesis
    unfolding ProcessDeliveryOutputs_def
    by (intro run_rules secretsStep rowsStep) (auto simp: at_def frame)
qed


text \<open>Without faults, the loops of the clean-up never stop early.\<close>

lemma forEach_calm:
  assumes "\<And>x v. w_faults v = (\<lambda>_. None) \<Longrightarrow> \<exists>u. body x v = (Inr (), u) \<and> w_faults u = (\<lambda>_. None)"
    and "w_faults w = (\<lambda>_. None)"
  shows "\<exists>u. forEach xs body w = (Inr (), u) \<and> w_faults u = (\<lambda>_. None)"
  using assms(2)
proof (induction xs arbitrary: w)
  case (Cons x xs)
  obtain v where "body x w = (Inr (), v)" "w_faults v = (\<lambda>_. None)" using assms(1) Cons.prems by blast
  with Cons.IH [of v] show ?case by (simp add: andThen_def)
qed (simp add: ret_def)

lemma unlessMissing_calm:
  assumes "w_faults v = (\<lambda>_. None)"
  shows "\<exists>u. unlessMissing p (deleteSecret ref) v = (Inr (), u) \<and> w_faults u = (\<lambda>_. None)"
    and "\<exists>u. unlessMissing p (writes (targetsDelete t)) v = (Inr (), u) \<and> w_faults u = (\<lambda>_. None)"
    and "\<exists>u. unlessMissing p (writes (inventoryDelete k)) v = (Inr (), u) \<and> w_faults u = (\<lambda>_. None)"
  using assms
  by (auto simp: unlessMissing_def deleteSecret_def vaultDelete_def targetsDelete_def inventoryDelete_def
      noRow_def io_defs split: sum.split)

lemma cleanup_loops_calm:
  assumes "w_faults v = (\<lambda>_. None)"
  shows "\<exists>u. forEach refs (\<lambda>ref. unlessMissing (p ref) (deleteSecret ref)) v = (Inr (), u) \<and> w_faults u = (\<lambda>_. None)"
    and "\<exists>u. forEach ts (\<lambda>t. unlessMissing (p t) (writes (targetsDelete t))) v = (Inr (), u) \<and> w_faults u = (\<lambda>_. None)"
    and "\<exists>u. forEach ks (\<lambda>k. unlessMissing (p k) (writes (inventoryDelete k))) v = (Inr (), u) \<and> w_faults u = (\<lambda>_. None)"
  by (rule forEach_calm [OF _ assms], erule unlessMissing_calm)+

lemma CleanupDeliveryData_calm:
  assumes "w_faults w = (\<lambda>_. None)"
    and "buildOutputCleanupPlan (deliveriesListByFulfillment i (dbAtBegin w)) (inventoryList (dbAtBegin w)) = Inr plan"
  shows "fst (CleanupDeliveryData vaulted i w) = Inr ()"
proof -
  let ?v1 = "(begun w)\<lparr>w_step := Suc (Suc (Suc (Suc (w_step w))))\<rparr>"
  have v1: "w_faults ?v1 = (\<lambda>_. None)" using assms(1) by simp
  obtain v2 where v2: "(if vaulted then forEach (cp_secretRefs plan)
      (\<lambda>ref. unlessMissing (''delete secret '' @ quote ref @ '': '') (deleteSecret ref)) else ret ()) ?v1 = (Inr (), v2)"
    "w_faults v2 = (\<lambda>_. None)"
  proof (cases vaulted)
    case True
    obtain u where "forEach (cp_secretRefs plan)
      (\<lambda>ref. unlessMissing (''delete secret '' @ quote ref @ '': '') (deleteSecret ref)) ?v1 = (Inr (), u)"
      "w_faults u = (\<lambda>_. None)" using cleanup_loops_calm(1) [OF v1, where p = "\<lambda>ref. ''delete secret '' @ quote ref @ '': ''"] by blast
    with True that show ?thesis by simp
  next
    case False
    with v1 that show ?thesis by (auto simp: ret_def)
  qed
  let ?v3 = "(begun v2)\<lparr>w_step := Suc (w_step v2)\<rparr>"
  have v3: "w_faults ?v3 = (\<lambda>_. None)" using v2(2) by simp
  obtain v4 where v4: "forEach (cp_targetIDs plan)
      (\<lambda>t. unlessMissing (''delete provisioned target '' @ t @ '': '') (writes (targetsDelete t))) ?v3 = (Inr (), v4)"
    "w_faults v4 = (\<lambda>_. None)" using cleanup_loops_calm(2) [OF v3, where p = "\<lambda>t. ''delete provisioned target '' @ t @ '': ''"] by blast
  obtain v5 where v5: "forEach (cp_inventoryIDs plan)
      (\<lambda>t. unlessMissing (''delete inventory item '' @ t @ '': '') (writes (inventoryDelete t))) v4 = (Inr (), v5)"
    "w_faults v5 = (\<lambda>_. None)" using cleanup_loops_calm(3) [OF v4(2), where p = "\<lambda>t. ''delete inventory item '' @ t @ '': ''"] by blast
  show ?thesis
    using assms v2 v4 v5 by (simp add: CleanupDeliveryData_def calm_rules)
qed

lemma encodeStringMap_nonempty [simp]: "encodeStringMap m \<noteq> []"
  using decodeStringMap_encode [of m] decodeStringMap_empty by (metis Inr_Inl_False isl_def)

definition sampleOutput :: ProvisionedTarget where
  "sampleOutput = \<lparr>pv_ID = ''c'', pv_Type = ''k8s'', pv_Name = ''new cluster'', pv_Labels = fmempty,
     pv_Properties = fmupd ''kubeconfig_ref'' ''secret'' fmempty, pv_AcceptedManifestTypes = []\<rparr>"

definition sampleResult :: DeliveryResult where
  "sampleResult = \<lparr>dr_State = DeliveryStateDelivered, dr_Message = '''', dr_ProvisionedTargets = [sampleOutput],
     dr_ProducedSecrets = [\<lparr>se_Ref = ''secret'', se_Value = ''value''\<rparr>]\<rparr>"

lemma sample_processed:
  "\<exists>v. ProcessDeliveryOutputs True 5 ''f:t'' sampleResult (calmWorld oneDelivery) = (Inr (), v) \<and>
     w_faults v = (\<lambda>_. None) \<and> w_others v = [] \<and> w_db v = recordOutput 5 ''f:t'' sampleOutput oneDelivery \<and>
     fmlookup (w_vault v) ''secret'' = Some ''value''"
  by (simp add: ProcessDeliveryOutputs_def sampleResult_def io_defs putSecret_def calmWorld_def dbAtBegin_def
      targetsCreateOrUpdate_def targetNameTaken_def oneDelivery_def emptyStore_def inventoryCreateOrUpdate_def
      recordOutput_def vaultPut_def)

lemma sample_plan:
  "\<exists>plan. buildOutputCleanupPlan (deliveriesListByFulfillment ''f'' (recordOutput 5 ''f:t'' sampleOutput oneDelivery))
     (inventoryList (recordOutput 5 ''f:t'' sampleOutput oneDelivery)) = Inr plan"
  by (simp add: buildOutputCleanupPlan_def deliveriesListByFulfillment_def inventoryList_def recordOutput_def
      inventoryCreateOrUpdate_def putTarget_def oneDelivery_def emptyStore_def upsertRow_def storedItem_def outputItem_def
      NewInventoryItem_def marshalOrDefault_def secretRefsFromProperties_def NewDelivery_def)

theorem cleanup_exact_witness:
  "case CleanupDeliveryData True ''f'' (calmWorld oneDelivery) of
     (Inl _, v) \<Rightarrow> False
   | (Inr _, v) \<Rightarrow> t_deliveries (w_db v) = []"
proof -
  have "fst (CleanupDeliveryData True ''f'' (calmWorld oneDelivery)) = Inr ()"
    by (rule CleanupDeliveryData_calm)
      (simp_all add: calmWorld_def dbAtBegin_def buildOutputCleanupPlan_def inventoryList_def oneDelivery_def emptyStore_def)
  then show ?thesis
    using cleanup_exact [of "calmWorld oneDelivery" "''f''" True]
    by (auto simp: calmWorld_def cleanedStore_def oneDelivery_def NewDelivery_def split: prod.splits sum.splits)
qed


end
