(* ===== verification/FS_Orchestration.thy ===== *)
theory FS_Orchestration
  imports FS_Activities
begin

text \<open>
  The body of the orchestration workflow (\<^verbatim>\<open>server/internal/domain/orchestration.go\<close>):
  the dispatch cycle that sends a batch of deliveries and waits for their reports, the execution
  of a rollout plan, the placement pipeline, the deletion, and \<^verbatim>\<open>Run\<close>, which loads a
  fulfillment under its lock, reconciles it and starts over while its generation is ahead.

  A workflow step returns a result, fails, or stays blocked in a wait for ever. The dispatch cycle
  recurses on the inbox of the workflow, the sequence of what its waits bring. The loop of
  \<^verbatim>\<open>Run\<close> has fuel; one unit more than there are transactions of other processes is enough,
  because each restart needs one of them to have advanced the generation.
\<close>

section \<open>Workflow steps\<close>

text \<open>\<open>None\<close>: the workflow waits for a signal that never comes.\<close>

type_synonym 'a wf = "world \<Rightarrow> 'a result option \<times> world"

definition activity :: "'a io \<Rightarrow> 'a wf" where
  "activity act w = (case RunActivity act w of (r, w') \<Rightarrow> (Some r, w'))"

definition bindW :: "'a wf \<Rightarrow> ('a \<Rightarrow> 'b wf) \<Rightarrow> 'b wf" where
  "bindW m k w =
     (case m w of
        (None, w') \<Rightarrow> (None, w')
      | (Some (Inl e), w') \<Rightarrow> (Some (Inl e), w')
      | (Some (Inr x), w') \<Rightarrow> k x w')"

definition wrapW :: "string \<Rightarrow> 'a wf \<Rightarrow> 'a wf" where
  "wrapW p m w =
     (case m w of
        (Some (Inl e), w') \<Rightarrow> (Some (Inl (Wrapped p e '''')), w')
      | (r, w') \<Rightarrow> (r, w'))"

definition retW :: "'a \<Rightarrow> 'a wf" where
  "retW x w = (Some (Inr x), w)"

fun forEachW :: "'a list \<Rightarrow> ('a \<Rightarrow> unit wf) \<Rightarrow> unit wf" where
  "forEachW [] body = retW ()"
| "forEachW (x # xs) body = bindW (body x) (\<lambda>_. forEachW xs body)"

text \<open>
  What the workflow was built with: its clock, whether it has a vault, and the order in which Go
  iterates over a map, which may be another one each time.
\<close>

record workflowSpec =
  wf_clock :: "nat \<Rightarrow> go_time"
  wf_vaulted :: bool
  wf_order :: "nat \<Rightarrow> DeliveryID list \<Rightarrow> DeliveryID list"

definition timed :: "workflowSpec \<Rightarrow> (go_time \<Rightarrow> 'a io) \<Rightarrow> 'a io" where
  "timed spec act w = act (wf_clock spec (w_step w)) w"

section \<open>The dispatch cycle\<close>

text \<open>The maps \<^verbatim>\<open>unacked\<close> and \<^verbatim>\<open>remaining\<close> as lists without duplicates.\<close>

record dispatchCycle =
  dc_unacked :: "DeliveryID list"
  dc_remaining :: "DeliveryID list"
  dc_results :: "DeliveryCompletionEvent list"

fun processDeliveryEvent :: "FulfillmentEvent \<Rightarrow> Generation \<Rightarrow> dispatchCycle \<Rightarrow> dispatchCycle result" where
  "processDeliveryEvent (DeliveryAcked a) expectedGen c =
     (if ae_Generation a \<noteq> expectedGen then Inr c
      else if ae_DeliveryID a \<in> set (dc_remaining c)
      then Inr (c\<lparr>dc_unacked := removeAll (ae_DeliveryID a) (dc_unacked c)\<rparr>)
      else Inr c)"
| "processDeliveryEvent (DeliveryCompleted ev) expectedGen c =
     (if ce_Generation ev \<noteq> expectedGen then Inr c
      else if ce_DeliveryID ev \<notin> set (dc_remaining c) then Inr c
      else if dr_State (ce_Result ev) = DeliveryStateFailed
      then Inl (Plain (''delivery '' @ ce_DeliveryID ev @ '' failed: '' @ dr_Message (ce_Result ev)))
      else if dr_State (ce_Result ev) = DeliveryStateAuthFailed
      then Inl (Wrapped '''' (Sentinel ErrAuthPaused)
             ('': delivery '' @ ce_DeliveryID ev @ '': '' @ dr_Message (ce_Result ev)))
      else Inr (c\<lparr>dc_unacked := removeAll (ce_DeliveryID ev) (dc_unacked c),
                  dc_remaining := removeAll (ce_DeliveryID ev) (dc_remaining c),
                  dc_results := dc_results c @ [ev]\<rparr>))"

fun dispatchEach :: "(DeliveryID \<Rightarrow> bool io) \<Rightarrow> DeliveryID list \<Rightarrow> dispatchCycle \<Rightarrow> dispatchCycle io" where
  "dispatchEach dispatch [] c = ret c"
| "dispatchEach dispatch (i # is) c =
     andThen (dispatch i) (\<lambda>dispatched.
     dispatchEach dispatch is
       (if dispatched then c
        else c\<lparr>dc_unacked := removeAll i (dc_unacked c), dc_remaining := removeAll i (dc_remaining c)\<rparr>))"

definition dispatchUnacked :: "workflowSpec \<Rightarrow> (DeliveryID \<Rightarrow> bool io) \<Rightarrow> dispatchCycle \<Rightarrow> dispatchCycle io" where
  "dispatchUnacked spec dispatch c w =
     dispatchEach dispatch (wf_order spec (w_step w) (dc_unacked c)) c w"

text \<open>
  The loop of the cycle, on what its waits bring. A wait has a timeout only while a delivery is
  unacknowledged; when it expires the unacknowledged ones are dispatched again.
\<close>

fun awaitEvents ::
  "workflowSpec \<Rightarrow> (DeliveryID \<Rightarrow> bool io) \<Rightarrow> Generation \<Rightarrow> awaited list \<Rightarrow> dispatchCycle \<Rightarrow>
   DeliveryCompletionEvent list wf" where
  "awaitEvents spec dispatch g [] c w =
     (if dc_remaining c = [] then (Some (Inr (dc_results c)), w\<lparr>w_inbox := []\<rparr>)
      else (None, w\<lparr>w_inbox := []\<rparr>))"
| "awaitEvents spec dispatch g (a # as) c w =
     (if dc_remaining c = [] then (Some (Inr (dc_results c)), w\<lparr>w_inbox := a # as\<rparr>)
      else
        case a of
          TimedOut \<Rightarrow>
            if dc_unacked c = [] then awaitEvents spec dispatch g as c w
            else
              (case dispatchUnacked spec dispatch c (w\<lparr>w_inbox := as\<rparr>) of
                 (Inl e, w') \<Rightarrow> (Some (Inl e), w')
               | (Inr c', w') \<Rightarrow> awaitEvents spec dispatch g as c' w')
        | AwaitError msg \<Rightarrow>
            (Some (Inl (Wrapped ''await delivery signal: '' (Plain msg) '''')), w\<lparr>w_inbox := as\<rparr>)
        | Signalled ev \<Rightarrow>
            (case processDeliveryEvent ev g c of
               Inl e \<Rightarrow> (Some (Inl e), w\<lparr>w_inbox := as\<rparr>)
             | Inr c' \<Rightarrow> awaitEvents spec dispatch g as c' w))"

definition dispatchAndAwait ::
  "workflowSpec \<Rightarrow> (DeliveryID \<Rightarrow> bool io) \<Rightarrow> DeliveryID list \<Rightarrow> Generation \<Rightarrow> DeliveryCompletionEvent list wf" where
  "dispatchAndAwait spec dispatch ids g w =
     (if ids = [] then (Some (Inr []), w)
      else
        case dispatchUnacked spec dispatch
               \<lparr>dc_unacked = remdups ids, dc_remaining = remdups ids, dc_results = []\<rparr> w of
          (Inl e, w') \<Rightarrow> (Some (Inl e), w')
        | (Inr c, w') \<Rightarrow> awaitEvents spec dispatch g (w_inbox w') c w')"

section \<open>Executing a rollout\<close>

definition deliveryIDFor :: "FulfillmentID \<Rightarrow> TargetID \<Rightarrow> DeliveryID" where
  "deliveryIDFor f t = f @ '':'' @ t"

definition removeInputFor ::
  "Fulfillment \<Rightarrow> FulfillmentID \<Rightarrow> Generation \<Rightarrow> ResolvedEvidence option \<Rightarrow> TargetInfo \<Rightarrow> RemoveInput" where
  "removeInputFor f i g evidence target =
     \<lparr>in_Target = target, in_DeliveryID = deliveryIDFor i (ti_id target), in_FulfillmentID = i, in_Manifests = [],
      in_Auth = f_auth f,
      in_Attestation = (case evidence of None \<Rightarrow> None | Some ev \<Rightarrow> assembleRemoveAttestation f ev),
      in_Generation = g\<rparr>"

definition deliverInputFor ::
  "Fulfillment \<Rightarrow> FulfillmentID \<Rightarrow> Generation \<Rightarrow> ResolvedEvidence option \<Rightarrow> TargetInfo \<Rightarrow> Manifest list \<Rightarrow> DeliverInput" where
  "deliverInputFor f i g evidence target manifests =
     \<lparr>in_Target = target, in_DeliveryID = deliveryIDFor i (ti_id target), in_FulfillmentID = i,
      in_Manifests = manifests, in_Auth = f_auth f,
      in_Attestation = (case evidence of None \<Rightarrow> None | Some ev \<Rightarrow> AssembleDeliverAttestation f manifests ev),
      in_Generation = g\<rparr>"

text \<open>
  \<^verbatim>\<open>inputs[id]\<close>: the ids of a cycle are the keys of its map of inputs, so the lookup succeeds.
\<close>

definition withInput :: "DeliverInput list \<Rightarrow> (DeliverInput \<Rightarrow> 'a io) \<Rightarrow> DeliveryID \<Rightarrow> 'a io" where
  "withInput inputs act i =
     (case index_by in_DeliveryID inputs i of
        Some input \<Rightarrow> act input
      | None \<Rightarrow> throw (Plain ''no input''))"

fun buildDeliverInputs ::
  "Fulfillment \<Rightarrow> FulfillmentID \<Rightarrow> Generation \<Rightarrow> ResolvedEvidence option \<Rightarrow> TargetInfo list \<Rightarrow> DeliverInput list io" where
  "buildDeliverInputs f i g evidence [] = ret []"
| "buildDeliverInputs f i g evidence (target # targets) =
     andThen (wrap (''generate manifests for target '' @ ti_id target @ '': '')
                (RunActivity (GenerateManifests (f_manifestStrategy f)))) (\<lambda>generated.
     let manifests = FilterAcceptedManifests target generated in
     if manifests = [] then buildDeliverInputs f i g evidence targets
     else andThen (buildDeliverInputs f i g evidence targets) (\<lambda>rest.
          ret (deliverInputFor f i g evidence target manifests # rest)))"

definition liftW :: "'a io \<Rightarrow> 'a wf" where
  "liftW m w = (case m w of (r, w') \<Rightarrow> (Some r, w'))"

definition removeTargets ::
  "workflowSpec \<Rightarrow> (error \<Rightarrow> TargetID \<Rightarrow> error) \<Rightarrow> RemoveInput list \<Rightarrow> Generation \<Rightarrow> DeliveryCompletionEvent list wf" where
  "removeTargets spec onError inputs g =
     dispatchAndAwait spec
       (withInput inputs (\<lambda>input w.
          case RunActivity (timed spec (\<lambda>now. RemoveFromTarget now input)) w of
            (Inl e, w') \<Rightarrow> (Inl (onError e (ti_id (in_Target input))), w')
          | (Inr dispatched, w') \<Rightarrow> (Inr dispatched, w')))
       (map in_DeliveryID inputs) g"

definition removeStep ::
  "workflowSpec \<Rightarrow> Fulfillment \<Rightarrow> FulfillmentID \<Rightarrow> Generation \<Rightarrow> ResolvedEvidence option \<Rightarrow> TargetInfo list \<Rightarrow> unit wf" where
  "removeStep spec f i g evidence targets =
     bindW (removeTargets spec
              (\<lambda>e t. Wrapped (''remove delivery for target '' @ t @ '': '') e '''')
              (map (removeInputFor f i g evidence) targets) g)
       (\<lambda>_. retW ())"

definition deliverStep ::
  "workflowSpec \<Rightarrow> Fulfillment \<Rightarrow> FulfillmentID \<Rightarrow> Generation \<Rightarrow> ResolvedEvidence option \<Rightarrow> TargetInfo list \<Rightarrow> unit wf" where
  "deliverStep spec f i g evidence targets =
     bindW (liftW (buildDeliverInputs f i g evidence targets)) (\<lambda>inputs.
     bindW (dispatchAndAwait spec
              (withInput inputs (\<lambda>input.
                 andThen (RunActivity (timed spec (\<lambda>now. DeliverToTarget now input))) (\<lambda>_. ret True)))
              (remdups (map in_DeliveryID inputs)) g) (\<lambda>results.
     forEachW results (\<lambda>ev.
       if dr_ProvisionedTargets (ce_Result ev) \<noteq> [] \<or> dr_ProducedSecrets (ce_Result ev) \<noteq> []
       then wrapW ''process delivery outputs: ''
              (activity (timed spec (\<lambda>now.
                 ProcessDeliveryOutputs (wf_vaulted spec) now (ce_DeliveryID ev) (ce_Result ev))))
       else retW ())))"

definition executeStep ::
  "workflowSpec \<Rightarrow> Fulfillment \<Rightarrow> FulfillmentID \<Rightarrow> Generation \<Rightarrow> ResolvedEvidence option \<Rightarrow> RolloutStep \<Rightarrow> unit wf" where
  "executeStep spec f i g evidence step =
     bindW (case st_Remove step of None \<Rightarrow> retW () | Some ts \<Rightarrow> removeStep spec f i g evidence ts) (\<lambda>_.
     case st_Deliver step of None \<Rightarrow> retW () | Some ts \<Rightarrow> deliverStep spec f i g evidence ts)"

fun executeRolloutPlan ::
  "workflowSpec \<Rightarrow> Fulfillment \<Rightarrow> RolloutPlan \<Rightarrow> FulfillmentID \<Rightarrow> Generation \<Rightarrow> ResolvedEvidence option \<Rightarrow> unit wf" where
  "executeRolloutPlan spec f [] i startGen evidence = retW ()"
| "executeRolloutPlan spec f (step # later) i startGen evidence =
     bindW (executeStep spec f i startGen evidence step) (\<lambda>_.
     if later \<noteq> [] \<and> EffectiveVersionConflictPolicy (f_rolloutStrategy f) = VersionConflictRestart
     then bindW (wrapW ''check generation: '' (activity (CheckGeneration i))) (\<lambda>currentGen.
          if currentGen > startGen then retW ()
          else executeRolloutPlan spec f later i startGen evidence)
     else executeRolloutPlan spec f later i startGen evidence)"

section \<open>Placement and deletion\<close>

text \<open>The value is the pair of Go results: the resolved target ids and the error.\<close>

definition executePlacementPipeline ::
  "workflowSpec \<Rightarrow> Fulfillment \<Rightarrow> TargetInfo list \<Rightarrow> FulfillmentID \<Rightarrow> Generation \<Rightarrow> ResolvedEvidence option \<Rightarrow>
   (TargetID list \<times> error option) wf" where
  "executePlacementPipeline spec f pool i startGen evidence w =
     (case activity (\<lambda>v. (resolvePlacement (f_placementStrategy f) (PlacementTargets pool), v)) w of
        (None, w1) \<Rightarrow> (None, w1)
      | (Some (Inl e), w1) \<Rightarrow> (Some (Inr ([], Some (Wrapped ''resolve placement: '' e ''''))), w1)
      | (Some (Inr resolved), w1) \<Rightarrow>
          if resolved = [] then (Some (Inr ([], None)), w1)
          else
            let ids = map pt_ID resolved;
                delta = ComputeTargetDelta (f_resolvedTargets f) (ResolvedTargetInfos resolved pool) pool
            in case activity (ret (planRollout (f_rolloutStrategy f) delta)) w1 of
                 (None, w2) \<Rightarrow> (None, w2)
               | (Some (Inl e), w2) \<Rightarrow> (Some (Inr (ids, Some (Wrapped ''plan rollout: '' e ''''))), w2)
               | (Some (Inr plan), w2) \<Rightarrow>
                   (case executeRolloutPlan spec f plan i startGen evidence w2 of
                      (None, w3) \<Rightarrow> (None, w3)
                    | (Some (Inl e), w3) \<Rightarrow> (Some (Inr (ids, Some e)), w3)
                    | (Some (Inr _), w3) \<Rightarrow> (Some (Inr (ids, None)), w3)))"

definition executeDelete ::
  "workflowSpec \<Rightarrow> Fulfillment \<Rightarrow> TargetInfo list \<Rightarrow> FulfillmentID \<Rightarrow> ResolvedEvidence option \<Rightarrow> unit wf" where
  "executeDelete spec f pool i evidence =
     bindW (removeTargets spec
              (\<lambda>e t. if errorsIs e ErrAuthExpired
                     then Wrapped '''' (Sentinel ErrAuthPaused) ('': target '' @ t @ '': '' @ errorText e)
                     else Wrapped (''remove delivery for target '' @ t @ '': '') e '''')
              (map (removeInputFor f i (f_generation f) evidence) (targetInfosByID (f_resolvedTargets f) pool))
              (f_generation f))
       (\<lambda>_. retW ())"

section \<open>The workflow body\<close>

text \<open>The zero value of the lifecycle state, for results that pause.\<close>

definition noState :: FulfillmentState where
  "noState = OtherFulfillmentState ''''"

definition reconciliationResult ::
  "FulfillmentID \<Rightarrow> FulfillmentState \<Rightarrow> string \<Rightarrow> string \<Rightarrow> TargetID list \<Rightarrow> DeliveryAuth \<Rightarrow> ReconciliationResult" where
  "reconciliationResult i st pause reason targets auth =
     \<lparr>rr_FulfillmentID = i, rr_State = st, rr_PauseReason = pause, rr_StatusReason = reason,
      rr_ResolvedTargets = targets, rr_Auth = auth\<rparr>"

text \<open>
  One pass: the result to persist, or \<open>None\<close> when the pass is abandoned and the workflow
  continues as new.
\<close>

definition reconcileDeleting ::
  "workflowSpec \<Rightarrow> FulfillmentID \<Rightarrow> ReconciliationSnapshot \<Rightarrow> ReconciliationResult option wf" where
  "reconcileDeleting spec i loaded w =
     (let f = rn_Fulfillment loaded in
      case executeDelete spec f (rn_Pool loaded) i (rn_Evidence loaded) w of
        (None, w1) \<Rightarrow> (None, w1)
      | (Some (Inl e), w1) \<Rightarrow>
          (Some (Inr
             (if errorsIs e ErrAuthPaused
              then Some (reconciliationResult i noState (errorText e) '''' (f_resolvedTargets f) (f_auth f))
              else if \<not> IsTerminal (Some e) then None
              else Some (reconciliationResult i FulfillmentStateFailed '''' (errorText e)
                     (f_resolvedTargets f) (f_auth f)))), w1)
      | (Some (Inr _), w1) \<Rightarrow>
          (case activity (CleanupDeliveryData (wf_vaulted spec) i) w1 of
             (None, w2) \<Rightarrow> (None, w2)
           | (Some (Inl e), w2) \<Rightarrow> (Some (Inr None), w2)
           | (Some (Inr _), w2) \<Rightarrow>
               (Some (Inr (Some (reconciliationResult i FulfillmentStateDeleting '''' '''' [] (f_auth f)))), w2)))"

definition reconcileActive ::
  "workflowSpec \<Rightarrow> FulfillmentID \<Rightarrow> ReconciliationSnapshot \<Rightarrow> ReconciliationResult option wf" where
  "reconcileActive spec i loaded =
     (let f = rn_Fulfillment loaded in
      bindW (executePlacementPipeline spec f (rn_Pool loaded) i (f_generation f) (rn_Evidence loaded)) (\<lambda>r.
      case r of
        (ids, Some e) \<Rightarrow>
          if errorsIs e ErrAuthPaused
          then retW (Some (reconciliationResult i noState (errorText e) '''' ids (f_auth f)))
          else if \<not> IsTerminal (Some e) then retW None
          else retW (Some (reconciliationResult i FulfillmentStateFailed '''' (errorText e) ids (f_auth f)))
      | (ids, None) \<Rightarrow> retW (Some (reconciliationResult i FulfillmentStateActive '''' '''' ids (f_auth f)))))"

definition reconcile ::
  "workflowSpec \<Rightarrow> FulfillmentID \<Rightarrow> ReconciliationSnapshot \<Rightarrow> ReconciliationResult option wf" where
  "reconcile spec i loaded =
     (if f_state (rn_Fulfillment loaded) = FulfillmentStateDeleting then reconcileDeleting spec i loaded
      else reconcileActive spec i loaded)"

datatype runResult = Completed | ContinuedAsNew | Blocked | OutOfFuel

text \<open>The wait of \<^verbatim>\<open>RetryDelay\<close> has no effect on the world, and errors are only reported.\<close>

definition releaseLockAndContinue :: "FulfillmentID \<Rightarrow> world \<Rightarrow> runResult \<times> world" where
  "releaseLockAndContinue i w = (ContinuedAsNew, snd (RunActivity (ReleaseLock i) w))"

fun Run :: "nat \<Rightarrow> workflowSpec \<Rightarrow> FulfillmentID \<Rightarrow> world \<Rightarrow> runResult \<times> world" where
  "Run 0 spec i w = (OutOfFuel, w)"
| "Run (Suc fuel) spec i w =
     (case RunActivity (AcquireLockAndLoad i) w of
        (Inl e, w1) \<Rightarrow> if IsTerminal (Some e) then (Completed, w1) else releaseLockAndContinue i w1
      | (Inr loaded, w1) \<Rightarrow>
          (case reconcile spec i loaded w1 of
             (None, w2) \<Rightarrow> (Blocked, w2)
           | (Some (Inl _), w2) \<Rightarrow> releaseLockAndContinue i w2
           | (Some (Inr None), w2) \<Rightarrow> releaseLockAndContinue i w2
           | (Some (Inr (Some result)), w2) \<Rightarrow>
               (case RunActivity (timed spec (\<lambda>now. PersistAndCompleteReconciliation now
                        \<lparr>pc_Result = result, pc_ReconciledGen = f_generation (rn_Fulfillment loaded)\<rparr>)) w2 of
                  (Inl _, w3) \<Rightarrow> releaseLockAndContinue i w3
                | (Inr needsRestart, w3) \<Rightarrow>
                    if needsRestart then Run fuel spec i w3 else (Completed, w3))))"

section \<open>What a dispatch cycle returns\<close>

text \<open>
  The invariant of a cycle over \<open>ids\<close> at generation \<open>g\<close>: every id is still waited for, or has
  exactly one result, or was skipped because its dispatch said so.
\<close>

definition goodResult :: "DeliveryID list \<Rightarrow> Generation \<Rightarrow> DeliveryCompletionEvent \<Rightarrow> bool" where
  "goodResult ids g ev \<longleftrightarrow>
     ce_DeliveryID ev \<in> set ids \<and> ce_Generation ev = g \<and>
     dr_State (ce_Result ev) \<noteq> DeliveryStateFailed \<and> dr_State (ce_Result ev) \<noteq> DeliveryStateAuthFailed"

definition skips :: "(DeliveryID \<Rightarrow> bool io) \<Rightarrow> DeliveryID \<Rightarrow> bool" where
  "skips dispatch i \<longleftrightarrow> (\<exists>v. fst (dispatch i v) = Inr False)"

definition cycleOK :: "(DeliveryID \<Rightarrow> bool io) \<Rightarrow> DeliveryID list \<Rightarrow> Generation \<Rightarrow> dispatchCycle \<Rightarrow> bool" where
  "cycleOK dispatch ids g c \<longleftrightarrow>
     set (dc_remaining c) \<subseteq> set ids \<and> list_all (goodResult ids g) (dc_results c) \<and>
     distinct (map ce_DeliveryID (dc_results c)) \<and>
     set (dc_remaining c) \<inter> ce_DeliveryID ` set (dc_results c) = {} \<and>
     (\<forall>i \<in> set ids. i \<in> set (dc_remaining c) \<or> i \<in> ce_DeliveryID ` set (dc_results c) \<or> skips dispatch i)"

lemma cycleOK_process:
  "processDeliveryEvent ev g c = Inr c' \<Longrightarrow> cycleOK dispatch ids g c \<Longrightarrow> cycleOK dispatch ids g c'"
  by (cases ev) (fastforce simp: cycleOK_def goodResult_def list_all_iff disjoint_iff split: if_splits)+

lemma cycleOK_each:
  "dispatchEach dispatch js c w = (Inr c', v) \<Longrightarrow> cycleOK dispatch ids g c \<Longrightarrow> cycleOK dispatch ids g c'"
proof (induction js arbitrary: c w)
  case Nil
  then show ?case by (simp add: ret_def)
next
  case (Cons j js)
  from Cons.prems(1) obtain b u where d: "dispatch j w = (Inr b, u)"
    "dispatchEach dispatch js (if b then c else c\<lparr>dc_unacked := removeAll j (dc_unacked c),
        dc_remaining := removeAll j (dc_remaining c)\<rparr>) u = (Inr c', v)"
    by (auto simp: andThen_def split: prod.splits sum.splits)
  then have "\<not> b \<Longrightarrow> skips dispatch j" unfolding skips_def by (metis fst_conv)
  with Cons.prems(2) have "cycleOK dispatch ids g (if b then c else c\<lparr>dc_unacked := removeAll j (dc_unacked c),
        dc_remaining := removeAll j (dc_remaining c)\<rparr>)"
    by (auto simp: cycleOK_def)
  with Cons.IH d(2) show ?case by blast
qed

lemma awaitEvents_OK:
  "awaitEvents spec dispatch g as c w = (Some (Inr rs), v) \<Longrightarrow> cycleOK dispatch ids g c \<Longrightarrow>
   \<exists>c'. cycleOK dispatch ids g c' \<and> dc_remaining c' = [] \<and> dc_results c' = rs"
proof (induction as arbitrary: c w)
  case Nil
  then show ?case by (auto split: if_splits)
next
  case (Cons a as)
  show ?case
  proof (cases "dc_remaining c = []")
    case True
    with Cons.prems show ?thesis by auto
  next
    case False
    with Cons.prems(1) have run: "(case a of
          TimedOut \<Rightarrow>
            if dc_unacked c = [] then awaitEvents spec dispatch g as c w
            else
              (case dispatchUnacked spec dispatch c (w\<lparr>w_inbox := as\<rparr>) of
                 (Inl e, w') \<Rightarrow> (Some (Inl e), w')
               | (Inr c', w') \<Rightarrow> awaitEvents spec dispatch g as c' w')
        | AwaitError msg \<Rightarrow>
            (Some (Inl (Wrapped ''await delivery signal: '' (Plain msg) '''')), w\<lparr>w_inbox := as\<rparr>)
        | Signalled ev \<Rightarrow>
            (case processDeliveryEvent ev g c of
               Inl e \<Rightarrow> (Some (Inl e), w\<lparr>w_inbox := as\<rparr>)
             | Inr c' \<Rightarrow> awaitEvents spec dispatch g as c' w)) = (Some (Inr rs), v)" by simp
    then obtain c' u where "awaitEvents spec dispatch g as c' u = (Some (Inr rs), v)" "cycleOK dispatch ids g c'"
      using Cons.prems(2)
      by (auto split: awaited.splits if_splits prod.splits sum.splits
          simp: dispatchUnacked_def dest: cycleOK_process cycleOK_each)
    with Cons.IH show ?thesis by blast
  qed
qed

lemma dispatchAndAwait_OK:
  assumes "dispatchAndAwait spec dispatch ids g w = (Some (Inr rs), v)"
  shows "\<exists>c. cycleOK dispatch ids g c \<and> dc_remaining c = [] \<and> dc_results c = rs"
proof -
  have start: "cycleOK dispatch ids g \<lparr>dc_unacked = remdups ids, dc_remaining = remdups ids, dc_results = []\<rparr>"
    by (simp add: cycleOK_def)
  show ?thesis
  proof (cases "ids = []")
    case True
    with start assms show ?thesis
      by (intro exI [of _ "\<lparr>dc_unacked = [], dc_remaining = [], dc_results = []\<rparr>"])
        (simp add: dispatchAndAwait_def)
  next
    case False
    with assms start show ?thesis
      by (auto simp: dispatchAndAwait_def dispatchUnacked_def split: prod.splits sum.splits
          dest!: cycleOK_each awaitEvents_OK)
  qed
qed


section \<open>When a dispatch cycle ends\<close>

text \<open>
  \<open>harmless g a\<close>: what arrives is not an engine failure and not a failing completion at the
  generation of the batch. \<open>completes g i a\<close>: it is a completion of delivery \<open>i\<close> at \<open>g\<close>.
\<close>

fun harmless :: "Generation \<Rightarrow> awaited \<Rightarrow> bool" where
  "harmless g (Signalled (DeliveryCompleted ev)) =
     (if ce_Generation ev = g then dr_State (ce_Result ev) \<notin> {DeliveryStateFailed, DeliveryStateAuthFailed} else True)"
| "harmless g (Signalled (DeliveryAcked _)) = True"
| "harmless g TimedOut = True"
| "harmless g (AwaitError _) = False"

fun completes :: "Generation \<Rightarrow> DeliveryID \<Rightarrow> awaited \<Rightarrow> bool" where
  "completes g i (Signalled (DeliveryCompleted ev)) = (ce_Generation ev = g \<and> ce_DeliveryID ev = i)"
| "completes g i _ = False"

lemma dispatchEach_total:
  assumes "\<forall>i v. \<exists>b v'. dispatch i v = (Inr b, v') \<and> w_inbox v' = w_inbox v"
  shows "\<exists>c' v. dispatchEach dispatch js c w = (Inr c', v) \<and> w_inbox v = w_inbox w \<and>
    set (dc_remaining c') \<subseteq> set (dc_remaining c)"
proof (induction js arbitrary: c w)
  case Nil
  then show ?case by (simp add: ret_def)
next
  case (Cons j js)
  obtain b u where "dispatch j w = (Inr b, u)" "w_inbox u = w_inbox w" using assms by blast
  moreover obtain c' v where "dispatchEach dispatch js (if b then c else c\<lparr>dc_unacked := removeAll j (dc_unacked c),
      dc_remaining := removeAll j (dc_remaining c)\<rparr>) u = (Inr c', v)" "w_inbox v = w_inbox u"
    "set (dc_remaining c') \<subseteq> set (dc_remaining (if b then c else c\<lparr>dc_unacked := removeAll j (dc_unacked c),
      dc_remaining := removeAll j (dc_remaining c)\<rparr>))" using Cons.IH by blast
  ultimately show ?case by (auto simp: andThen_def split: if_splits)
qed

lemma awaitEvents_total:
  assumes "\<forall>i v. \<exists>b v'. dispatch i v = (Inr b, v') \<and> w_inbox v' = w_inbox v"
    and "list_all (harmless g) as" "\<forall>i \<in> set (dc_remaining c). list_ex (completes g i) as"
  shows "\<exists>rs v. awaitEvents spec dispatch g as c w = (Some (Inr rs), v)"
  using assms(2,3)
proof (induction as arbitrary: c w)
  case Nil
  then show ?case by (cases "dc_remaining c") auto
next
  case (Cons a as)
  have next_: "\<exists>rs v. awaitEvents spec dispatch g as c' u = (Some (Inr rs), v)"
    if "set (dc_remaining c') \<subseteq> {i \<in> set (dc_remaining c). \<not> completes g i a}" for c' u
    using Cons.prems that by (intro Cons.IH) auto
  show ?case
  proof (cases "dc_remaining c = []")
    case True
    then show ?thesis by simp
  next
    case False
    note run = awaitEvents.simps(2) [of spec dispatch g a as c w] False
    show ?thesis
    proof (cases a)
      case TimedOut
      obtain c' v where "dispatchUnacked spec dispatch c (w\<lparr>w_inbox := as\<rparr>) = (Inr c', v)"
        "set (dc_remaining c') \<subseteq> set (dc_remaining c)"
        using dispatchEach_total [OF assms(1)] unfolding dispatchUnacked_def by blast
      with TimedOut run next_ show ?thesis by (cases "dc_unacked c = []") simp_all
    next
      case (AwaitError msg)
      with Cons.prems show ?thesis by simp
    next
      case (Signalled ev)
      show ?thesis
      proof (cases ev)
        case (DeliveryAcked x)
        then have "\<exists>c'. processDeliveryEvent ev g c = Inr c' \<and> dc_remaining c' = dc_remaining c" by simp
        then obtain c' where "processDeliveryEvent ev g c = Inr c'" "dc_remaining c' = dc_remaining c" by blast
        with Signalled DeliveryAcked run next_ [of c'] show ?thesis by simp
      next
        case (DeliveryCompleted x)
        then have "\<exists>c'. processDeliveryEvent ev g c = Inr c' \<and>
            set (dc_remaining c') \<subseteq> {i \<in> set (dc_remaining c). \<not> completes g i a}"
          using Cons.prems(1) Signalled by auto
        then obtain c' where "processDeliveryEvent ev g c = Inr c'"
            "set (dc_remaining c') \<subseteq> {i \<in> set (dc_remaining c). \<not> completes g i a}" by blast
        with Signalled run next_ [of c'] show ?thesis by simp
      qed
    qed
  qed
qed

text \<open>
  C5: a dispatch cycle ends. If no dispatch fails, nothing that arrives is an engine failure or a
  failing completion, and a completion at the generation of the batch arrives for each delivery of
  the batch, in any order and mixed with acknowledgements, expired waits and stale reports, then
  the cycle returns its results and does not stay blocked.
\<close>

theorem dispatch_cycle_completes:
  assumes "\<forall>i v. \<exists>b v'. dispatch i v = (Inr b, v') \<and> w_inbox v' = w_inbox v"
    and "list_all (harmless g) (w_inbox w)" "\<forall>i \<in> set ids. list_ex (completes g i) (w_inbox w)"
  shows "\<exists>rs v. dispatchAndAwait spec dispatch ids g w = (Some (Inr rs), v)"
proof (cases "ids = []")
  case True
  then show ?thesis by (simp add: dispatchAndAwait_def)
next
  case False
  let ?c = "\<lparr>dc_unacked = remdups ids, dc_remaining = remdups ids, dc_results = []\<rparr>"
  obtain c v where c: "dispatchUnacked spec dispatch ?c w = (Inr c, v)" "w_inbox v = w_inbox w"
    "set (dc_remaining c) \<subseteq> set (dc_remaining ?c)"
    using dispatchEach_total [OF assms(1), where c = ?c and w = w] unfolding dispatchUnacked_def by blast
  then have "\<forall>i \<in> set (dc_remaining c). list_ex (completes g i) (w_inbox v)" using assms(3) by auto
  from awaitEvents_total [OF assms(1) _ this, of spec v] c False assms(2) show ?thesis
    by (simp add: dispatchAndAwait_def)
qed

definition sampleSpec :: workflowSpec where
  "sampleSpec = \<lparr>wf_clock = (\<lambda>n. int n), wf_vaulted = True, wf_order = (\<lambda>n ids. if even n then ids else rev ids)\<rparr>"

definition sampleCompletion :: "Generation \<Rightarrow> DeliveryID \<Rightarrow> awaited" where
  "sampleCompletion g i = Signalled (DeliveryCompleted \<lparr>ce_DeliveryID = i, ce_Generation = g, ce_Result = doneResult\<rparr>)"

definition sampleWorld :: world where
  "sampleWorld = (calmWorld emptyStore)\<lparr>w_inbox :=
     [TimedOut, sampleCompletion 1 ''f:t'', Signalled (DeliveryAcked \<lparr>ae_DeliveryID = ''f:t'', ae_Generation = 2\<rparr>),
      sampleCompletion 2 ''f:u'', TimedOut, sampleCompletion 2 ''f:t'']\<rparr>"

lemma sample_cycle:
  "\<exists>v. dispatchAndAwait sampleSpec (\<lambda>_. ret True) [''f:t'', ''f:u''] 2 sampleWorld =
     (Some (Inr [\<lparr>ce_DeliveryID = ''f:u'', ce_Generation = 2, ce_Result = doneResult\<rparr>,
                 \<lparr>ce_DeliveryID = ''f:t'', ce_Generation = 2, ce_Result = doneResult\<rparr>]), v)"
  by (simp add: dispatchAndAwait_def dispatchUnacked_def sampleSpec_def sampleWorld_def sampleCompletion_def
      calmWorld_def ret_def andThen_def doneResult_def)


theorem dispatch_cycle_completes_witness:
  "\<exists>rs v. dispatchAndAwait sampleSpec (\<lambda>_. ret True) [''f:t'', ''f:u''] 2 sampleWorld = (Some (Inr rs), v)"
  by (rule dispatch_cycle_completes)
    (auto simp: ret_def sampleWorld_def sampleCompletion_def calmWorld_def doneResult_def)

section \<open>Relations that the workflow keeps\<close>

text \<open>
  If the activities keep a relation, and replacing the inbox does, then every part of the workflow
  keeps it.
\<close>

locale workflow_relation = world_relation R
  for R :: "world \<Rightarrow> world \<Rightarrow> bool" +
  assumes inbox: "R w (w\<lparr>w_inbox := as\<rparr>)"
    and deliver: "keeps R (DeliverToTarget now input)"
    and remove: "keeps R (RemoveFromTarget now input)"
    and generate: "keeps R (GenerateManifests ms)"
    and outputs: "keeps R (ProcessDeliveryOutputs vaulted now did res)"
    and cleanup: "keeps R (CleanupDeliveryData vaulted i)"
    and check: "keeps R (CheckGeneration i)"
begin

lemma keeps_activity: "keeps R act \<Longrightarrow> keeps R (activity act)"
  by (rule keepsI) (auto simp: activity_def split: prod.splits dest!: keepsD [OF keeps_RunActivity])

lemma keeps_liftW: "keeps R m \<Longrightarrow> keeps R (liftW m)"
  by (rule keepsI) (auto simp: liftW_def split: prod.splits dest!: keepsD)

lemma keeps_timed: "(\<And>now. keeps R (act now)) \<Longrightarrow> keeps R (timed spec act)"
  by (rule keepsI) (auto simp: timed_def dest!: keepsD)

lemma keeps_bindW: "keeps R m \<Longrightarrow> (\<And>x. keeps R (k x)) \<Longrightarrow> keeps R (bindW m k)"
  by (rule keepsI) (auto simp: bindW_def split: prod.splits sum.splits option.splits dest!: keepsD intro: trans)

lemma keeps_wrapW: "keeps R m \<Longrightarrow> keeps R (wrapW p m)"
  by (rule keepsI) (auto simp: wrapW_def split: prod.splits sum.splits option.splits dest!: keepsD)

lemma keeps_retW: "keeps R (retW x)"
  by (simp add: keeps_def retW_def refl)

lemma keeps_forEachW: "(\<And>x. keeps R (body x)) \<Longrightarrow> keeps R (forEachW xs body)"
  by (induction xs) (simp_all add: keeps_retW keeps_bindW)

lemmas wf_rules = rules keeps_activity keeps_liftW keeps_timed keeps_bindW keeps_wrapW keeps_retW keeps_forEachW
  keeps_RunActivity deliver remove generate outputs cleanup check

lemma keeps_dispatchEach: "(\<And>i. keeps R (dispatch i)) \<Longrightarrow> keeps R (dispatchEach dispatch js c)"
  by (induction js arbitrary: c) (auto intro: keeps_ret keeps_andThen)

lemma keeps_dispatchUnacked: "(\<And>i. keeps R (dispatch i)) \<Longrightarrow> keeps R (dispatchUnacked spec dispatch c)"
  by (rule keepsI) (auto simp: dispatchUnacked_def dest!: keepsD [OF keeps_dispatchEach, rotated])

lemma keeps_awaitEvents:
  assumes "\<And>i. keeps R (dispatch i)"
  shows "keeps R (awaitEvents spec dispatch g as c)"
proof (rule keepsI)
  fix w r v
  assume "awaitEvents spec dispatch g as c w = (r, v)"
  then show "R w v"
  proof (induction as arbitrary: c w)
    case Nil
    then show ?case by (auto split: if_splits intro: inbox)
  next
    case (Cons a as)
    have again: "R w v" if "dispatchUnacked spec dispatch c (w\<lparr>w_inbox := as\<rparr>) = (q, u)"
      "u = v \<or> (\<exists>c'. awaitEvents spec dispatch g as c' u = (r, v))" for q u
      using keepsD [OF keeps_dispatchUnacked [OF assms] that(1)] that(2) inbox Cons.IH by (blast intro: trans)
    show ?case
      using Cons.prems Cons.IH
      by (auto split: if_splits awaited.splits sum.splits prod.splits intro: inbox again)
  qed
qed

lemma keeps_dispatchAndAwait:
  assumes "\<And>i. keeps R (dispatch i)"
  shows "keeps R (dispatchAndAwait spec dispatch ids g)"
proof (rule keepsI)
  fix w r v
  assume "dispatchAndAwait spec dispatch ids g w = (r, v)"
  then show "R w v"
    by (auto simp: dispatchAndAwait_def split: if_splits prod.splits sum.splits intro: refl trans
        dest!: keepsD [OF keeps_dispatchUnacked [where dispatch = dispatch, OF assms]]
          keepsD [OF keeps_awaitEvents [where dispatch = dispatch, OF assms]])
qed

lemma keeps_withInput: "(\<And>x. keeps R (act x)) \<Longrightarrow> keeps R (withInput inputs act i)"
  unfolding withInput_def by (intro rules)

lemma keeps_removeTargets: "keeps R (removeTargets spec onError inputs g)"
proof -
  have "keeps R (\<lambda>w. case RunActivity (timed spec (\<lambda>now. RemoveFromTarget now input)) w of
            (Inl e, w') \<Rightarrow> (Inl (onError e (ti_id (in_Target input))), w')
          | (Inr dispatched, w') \<Rightarrow> (Inr dispatched, w'))" for input
    by (rule keepsI)
      (auto split: prod.splits sum.splits dest!: keepsD [OF keeps_RunActivity [OF keeps_timed [OF remove]]])
  then show ?thesis
    unfolding removeTargets_def by (intro keeps_dispatchAndAwait keeps_withInput)
qed

lemma keeps_buildDeliverInputs: "keeps R (buildDeliverInputs f i g evidence targets)"
  by (induction targets) (auto simp: Let_def intro!: wf_rules)

lemma keeps_steps: "keeps R (removeStep spec f i g evidence ts)" "keeps R (deliverStep spec f i g evidence ts)"
  unfolding removeStep_def deliverStep_def
  by (intro wf_rules keeps_removeTargets keeps_dispatchAndAwait keeps_withInput keeps_buildDeliverInputs)+

lemma keeps_executeRolloutPlan: "keeps R (executeRolloutPlan spec f plan i g evidence)"
  by (induction plan) (auto simp: executeStep_def intro!: wf_rules keeps_steps)

lemma keeps_pure: "keeps R (\<lambda>v. (x, v))"
  by (simp add: keeps_def refl)

lemma keeps_executePlacementPipeline: "keeps R (executePlacementPipeline spec f pool i g evidence)"
proof (rule keepsI)
  fix w r v
  assume "executePlacementPipeline spec f pool i g evidence w = (r, v)"
  then show "R w v"
    by (auto simp: executePlacementPipeline_def Let_def split: if_splits prod.splits sum.splits option.splits
        intro: trans dest!: keepsD [OF keeps_activity [OF keeps_pure]] keepsD [OF keeps_activity [OF keeps_ret]]
          keepsD [OF keeps_executeRolloutPlan])
qed

lemma keeps_reconcileDeleting: "keeps R (reconcileDeleting spec i loaded)"
proof (rule keepsI)
  fix w r v
  have delete: "keeps R (executeDelete spec f pool i evidence)" for f pool evidence
    unfolding executeDelete_def by (intro wf_rules keeps_removeTargets)
  assume "reconcileDeleting spec i loaded w = (r, v)"
  then show "R w v"
    by (auto simp: reconcileDeleting_def Let_def split: prod.splits sum.splits option.splits intro: trans
        dest!: keepsD [OF delete] keepsD [OF keeps_activity [OF cleanup]])
qed

lemma keeps_reconcile: "keeps R (reconcile spec i loaded)"
  unfolding reconcile_def reconcileActive_def Let_def split_beta
  by (intro wf_rules keeps_reconcileDeleting keeps_executePlacementPipeline)

end

interpretation generationFlow: workflow_relation liveStep
  by unfold_locales
    (auto simp: liveStep_def synced_def intro: follows_same live_DeliverToTarget live_RemoveFromTarget
      live_GenerateManifests live_ProcessDeliveryOutputs live_CleanupDeliveryData live_CheckGeneration)

section \<open>Termination of the workflow body\<close>

lemma reconcile_result:
  assumes "reconcile spec i loaded w = (Some (Inr (Some result)), v)"
  shows "rr_FulfillmentID result = i"
  using assms
  by (auto simp: reconcile_def reconcileDeleting_def reconcileActive_def reconciliationResult_def bindW_def retW_def
      Let_def split: if_splits prod.splits sum.splits option.splits)

lemma Acquired:
  assumes "RunActivity (AcquireLockAndLoad i) w = (Inr loaded, v)"
  shows "genOf i (w_db v) = Some (f_generation (rn_Fulfillment loaded))"
  using RunActivity_Inr [OF assms] tripleD_Inr [OF Acquire_triple at_refl] by blast

lemma Persisted:
  assumes "RunActivity (timed spec (\<lambda>now. PersistAndCompleteReconciliation now inp)) w = (Inr restart, v)"
  obtains now u where "PersistAndCompleteReconciliation now inp u = (Inr restart, v)"
  using RunActivity_Inr [OF assms] by (auto simp: timed_def)

lemma restart_needs_others:
  assumes "synced w" "RunActivity (AcquireLockAndLoad i) w = (Inr loaded, w1)"
    and "reconcile spec i loaded w1 = (Some (Inr (Some result)), w2)"
    and "RunActivity (timed spec (\<lambda>now. PersistAndCompleteReconciliation now
          \<lparr>pc_Result = result, pc_ReconciledGen = f_generation (rn_Fulfillment loaded)\<rparr>)) w2 = (Inr True, w3)"
  shows "synced w3" "length (w_others w3) < length (w_others w)"
proof -
  have "liveStep w w1" by (rule keepsD [OF generations.keeps_RunActivity [OF live_Acquire] assms(2)])
  moreover have "liveStep w1 w2" by (rule keepsD [OF generationFlow.keeps_reconcile assms(3)])
  moreover have "liveStep w2 w3"
    by (rule keepsD [OF generations.keeps_RunActivity [OF generationFlow.keeps_timed [OF live_Persist]] assms(4)])
  ultimately have fol: "synced w3" "follows w w1" "follows w1 w3"
    using assms(1) by (auto simp: liveStep_def intro: follows_trans)
  obtain now u where "PersistAndCompleteReconciliation now
      \<lparr>pc_Result = result, pc_ReconciledGen = f_generation (rn_Fulfillment loaded)\<rparr> u = (Inr True, w3)"
    by (rule Persisted [OF assms(4)])
  from tripleD_Inr [OF Persist_triple at_refl this] reconcile_result [OF assms(3)]
  have "genOf i (w_db w3) \<noteq> Some (f_generation (rn_Fulfillment loaded))" by auto
  then have "length (w_others w3) \<noteq> length (w_others w1)"
    using fol(3) Acquired [OF assms(2)] by (auto simp: follows_def)
  moreover have "length (w_others w3) \<le> length (w_others w1)" "length (w_others w1) \<le> length (w_others w)"
    using fol(2,3) by (auto simp: follows_def)
  ultimately show "length (w_others w3) < length (w_others w)" by linarith
  show "synced w3" by (rule fol(1))
qed

lemma Run_enough_fuel:
  "synced w \<Longrightarrow> length (w_others w) < fuel \<Longrightarrow> fst (Run fuel spec i w) \<noteq> OutOfFuel"
proof (induction fuel arbitrary: w)
  case (Suc fuel)
  have again: "fst (Run fuel spec i w3) \<noteq> OutOfFuel"
    if "RunActivity (AcquireLockAndLoad i) w = (Inr loaded, w1)"
      "reconcile spec i loaded w1 = (Some (Inr (Some result)), w2)"
      "RunActivity (timed spec (\<lambda>now. PersistAndCompleteReconciliation now
          \<lparr>pc_Result = result, pc_ReconciledGen = f_generation (rn_Fulfillment loaded)\<rparr>)) w2 = (Inr True, w3)"
    for loaded w1 result w2 w3
    using restart_needs_others [OF Suc.prems(1) that] Suc.prems(2) by (intro Suc.IH) auto
  then show ?case
    by (auto simp: releaseLockAndContinue_def split: prod.splits sum.splits option.splits if_splits)
qed simp


text \<open>
  C1: a workflow body that completes has converged. Either loading the fulfillment failed for good,
  or the committed row has observed a generation that is not behind its own, and its orchestration
  lock is free.
\<close>

theorem run_converges:
  assumes "Run fuel spec i w = (Completed, v)"
  shows "(\<exists>row. fulfillmentRow i (w_db v) = Some row \<and> fs_ActiveWorkflowGen row = None \<and>
            fs_Generation row \<le> fs_ObservedGeneration row) \<or>
    (\<exists>e u. RunActivity (AcquireLockAndLoad i) u = (Inl e, v) \<and> IsTerminal (Some e))"
  using assms
proof (induction fuel arbitrary: w)
  case (Suc fuel)
  have finished: "\<exists>row. fulfillmentRow i (w_db v) = Some row \<and> fs_ActiveWorkflowGen row = None \<and>
      fs_Generation row \<le> fs_ObservedGeneration row"
    if "reconcile spec i loaded w1 = (Some (Inr (Some result)), w2)"
      "RunActivity (timed spec (\<lambda>now. PersistAndCompleteReconciliation now
          \<lparr>pc_Result = result, pc_ReconciledGen = f_generation (rn_Fulfillment loaded)\<rparr>)) w2 = (Inr False, v)"
    for loaded w1 result w2
  proof -
    note persisted = that(2)
    obtain now u where "PersistAndCompleteReconciliation now
        \<lparr>pc_Result = result, pc_ReconciledGen = f_generation (rn_Fulfillment loaded)\<rparr> u = (Inr False, v)"
      by (rule Persisted [OF persisted])
    with Persist_row [of now "\<lparr>pc_Result = result, pc_ReconciledGen = f_generation (rn_Fulfillment loaded)\<rparr>" u]
      reconcile_result [OF that(1)]
    show ?thesis by (auto simp: Let_def)
  qed
  show ?case
    using Suc.prems finished Suc.IH
    by (auto simp: releaseLockAndContinue_def split: prod.splits sum.splits option.splits if_splits)
qed simp

section \<open>A sample run\<close>

definition sampleManifest :: Manifest where
  "sampleManifest = \<lparr>mf_type = ''k8s'', mf_id = ''m'', mf_raw = ''{}''\<rparr>"

definition sampleFulfillment :: Fulfillment where
  "sampleFulfillment =
     AdvancePlacementStrategy \<lparr>ps_Type = ''all'', ps_Targets = [], ps_TargetSelector = None\<rparr> 0
       (AdvanceManifestStrategy \<lparr>ms_Type = ManifestStrategyInline, ms_Manifests = [sampleManifest],
          ms_IntentRef = noIntentRef\<rparr> 0 (NewFulfillment ''f'' zeroAuth None None 0))"

definition fleetStore :: "Fulfillment \<Rightarrow> store" where
  "fleetStore f = (case fulfillmentsCreate f (putTarget sampleTarget emptyStore) of
     Inr s \<Rightarrow> s | Inl _ \<Rightarrow> emptyStore)"

definition fleetWorld :: world where
  "fleetWorld = (calmWorld (fleetStore sampleFulfillment))\<lparr>w_inbox := [TimedOut, sampleCompletion 1 ''f:t'']\<rparr>"

lemma fleet_run:
  "fst (Run 1 sampleSpec ''f'' fleetWorld) = Completed"
  "w_dispatched (snd (Run 1 sampleSpec ''f'' fleetWorld)) =
     [DispatchDeliver sampleTarget ''f:t'' [sampleManifest] zeroAuth None 1,
      DispatchDeliver sampleTarget ''f:t'' [sampleManifest] zeroAuth None 1]"
  by code_simp+


theorem run_converges_witness:
  "let v = snd (Run 1 sampleSpec ''f'' fleetWorld) in
   (\<exists>row. fulfillmentRow ''f'' (w_db v) = Some row \<and> fs_ActiveWorkflowGen row = None \<and>
      fs_Generation row \<le> fs_ObservedGeneration row) \<or>
   (\<exists>e u. RunActivity (AcquireLockAndLoad ''f'') u = (Inl e, v) \<and> IsTerminal (Some e))"
proof -
  have "Run 1 sampleSpec ''f'' fleetWorld = (Completed, snd (Run 1 sampleSpec ''f'' fleetWorld))"
    using fleet_run(1) by (metis prod.collapse)
  from run_converges [OF this] show ?thesis unfolding Let_def .
qed

section \<open>Deletion\<close>

definition quietStep :: "world \<Rightarrow> world \<Rightarrow> bool" where
  "quietStep w v \<longleftrightarrow> w_cleanups v = w_cleanups w \<and> (w_others w = [] \<longrightarrow> w_others v = [])"

interpretation quiet: world_relation quietStep
  by unfold_locales (auto simp: quietStep_def)

lemma quietI: "(\<And>w r v. m w = (r, v) \<Longrightarrow> quietStep w v) \<Longrightarrow> keeps quietStep (infra m)"
  by (intro quiet.keeps_infra keepsI) (auto simp: quietStep_def)

lemma quiet_effects:
  "keeps quietStep Begin" "keeps quietStep BeginReadOnly" "keeps quietStep EndReadOnly" "keeps quietStep Commit"
  "keeps quietStep (reads r)" "keeps quietStep (writes u)" "keeps quietStep (putSecret p)"
  "keeps quietStep (deleteSecret ref)" "keeps quietStep (dispatchToAgent d)"
  unfolding Begin_def BeginReadOnly_def beginTx_def EndReadOnly_def Commit_def reads_def writes_def putSecret_def
    deleteSecret_def
  by (intro quiet.keeps_wrap quietI;
      auto simp: quietStep_def ret_def split: sum.splits list.splits)+
    (rule keepsI, auto simp: quietStep_def dispatchToAgent_def Let_def split: option.splits)

lemmas quiet_rules = quiet.rules quiet_effects

lemma quiet_activities:
  "keeps quietStep (DeliverToTarget now input)" "keeps quietStep (RemoveFromTarget now input)"
  "keeps quietStep (ProcessDeliveryOutputs vaulted now did res)" "keeps quietStep (CleanupDeliveryData vaulted i)"
  "keeps quietStep (CheckGeneration i)" "keeps quietStep (AcquireLockAndLoad i)" "keeps quietStep (ReleaseLock i)"
  unfolding DeliverToTarget_def RemoveFromTarget_def ProcessDeliveryOutputs_def CleanupDeliveryData_def
    CheckGeneration_def AcquireLockAndLoad_def ReleaseLock_def persistAndDeliver_def persistAndRemove_def
    unlessMissing_def Resolve_def Let_def split_beta
  by (intro quiet_rules)+

lemma quiet_GenerateManifests: "keeps quietStep (GenerateManifests ms)"
proof -
  have "keeps quietStep (Generate st)" for st
    by (cases st) (auto intro!: quiet_rules)
  then show ?thesis unfolding GenerateManifests_def by (intro quiet_rules)
qed

interpretation quietFlow: workflow_relation quietStep
  by unfold_locales (auto simp: quietStep_def intro: quiet_activities quiet_GenerateManifests)

lemma fulfillmentsUpdate_deliveries: "fulfillmentsUpdate f s = Inr s' \<Longrightarrow> t_deliveries s' = t_deliveries s"
  by (auto simp: fulfillmentsUpdate_def flushPendingStrategyRecords_def split: if_splits sum.splits)

text \<open>No delivery of \<open>i\<close> is left, and no other transaction is due.\<close>

definition emptied :: "FulfillmentID \<Rightarrow> world \<Rightarrow> bool" where
  "emptied i v \<longleftrightarrow> w_others v = [] \<and> list_all (\<lambda>d. d_fulfillmentID d \<noteq> i) (t_deliveries (w_db v))"

lemma cleanup_empties:
  assumes "w_others w = []" "RunActivity (CleanupDeliveryData vaulted i) w = (Inr (), v)"
  shows "emptied i v"
proof -
  have "triple (\<lambda>u. w_others u = []) (CleanupDeliveryData vaulted i) (\<lambda>_. emptied i) (\<lambda>_ u. w_others u = [] \<and> True)"
  proof (rule tripleI)
    fix u :: world assume u: "w_others u = []"
    obtain r x where run: "CleanupDeliveryData vaulted i u = (r, x)" by fastforce
    have "w_others x = []" using keepsD [OF quiet_activities(4) run] u by (simp add: quietStep_def)
    then show "case CleanupDeliveryData vaulted i u of (Inr y, w') \<Rightarrow> emptied i w' | (Inl e, w') \<Rightarrow> w_others w' = [] \<and> True"
      using tripleD_Inr [OF cleanup_triple [OF u] at_refl] run
      by (cases r) (auto simp: emptied_def cleanedStore_def list_all_iff)
  qed
  from tripleD_Inr [OF triple_RunActivity [OF this]] assms show ?thesis by blast
qed

lemma persist_signals:
  assumes "w_others w = []"
    and "RunActivity (timed spec (\<lambda>now. PersistAndCompleteReconciliation now inp)) w = (r, v)"
  shows "t_deliveries (w_db v) = t_deliveries (w_db w) \<and> w_others v = [] \<and>
    w_cleanups v = w_cleanups w @
      (if isl r then [] else if rr_State (pc_Result inp) = FulfillmentStateDeleting then [rr_FulfillmentID (pc_Result inp)] else [])"
proof -
  let ?I = "\<lambda>u. t_deliveries (w_db u) = t_deliveries (w_db w) \<and> w_others u = [] \<and> w_cleanups u = w_cleanups w"
  let ?Q = "\<lambda>_ u. t_deliveries (w_db u) = t_deliveries (w_db w) \<and> w_others u = [] \<and> w_cleanups u = w_cleanups w @
      (if rr_State (pc_Result inp) = FulfillmentStateDeleting then [rr_FulfillmentID (pc_Result inp)] else [])"
  have "triple ?I (timed spec (\<lambda>now. PersistAndCompleteReconciliation now inp)) ?Q (\<lambda>_ u. ?I u \<and> True)"
  proof (rule tripleI)
    fix u :: world assume u: "?I u"
    then have db: "dbAtBegin u = w_db u" by (simp add: dbAtBegin_def)
    let ?P = "PersistAndCompleteReconciliation (wf_clock spec (w_step u)) inp"
    obtain q x where run: "?P u = (q, x)" by fastforce
    have row: "completedRow (wf_clock spec (w_step u)) inp u x \<Longrightarrow> t_deliveries (w_db x) = t_deliveries (w_db u)"
      by (auto simp: completedRow_def db dest: fulfillmentsUpdate_deliveries)
    have "w_others x = []"
    proof -
      have "triple (at u) ?P (\<lambda>_ x. w_others x = []) (\<lambda>_ x. w_others x = [])"
        unfolding PersistAndCompleteReconciliation_def Let_def split_beta
        by (intro activity_rules) (auto simp: at_def u intro!: activity_rules)
      from outcome_of_triple [OF this] show ?thesis by (simp add: run)
    qed
    moreover have "?Q y x" if "q = Inr y" "w_others x = []" for y
      using tripleD_Inr [OF Persist_triple at_refl] run that u row by fastforce
    moreover have "?I x" if "q = Inl e" "w_others x = []" for e
      using tripleD_Inl [OF Persist_triple at_refl] run that u row db by fastforce
    ultimately show "case timed spec (\<lambda>now. PersistAndCompleteReconciliation now inp) u of
        (Inr y, w') \<Rightarrow> ?Q y w' | (Inl e, w') \<Rightarrow> ?I w' \<and> True"
      by (cases q) (auto simp: timed_def run)
  qed
  note run = triple_RunActivity [OF this]
  show ?thesis
  proof (cases r)
    case (Inl e)
    from tripleD_Inl [OF run _ assms(2) [unfolded Inl]] assms(1) Inl show ?thesis by simp
  next
    case (Inr y)
    from tripleD_Inr [OF run _ assms(2) [unfolded Inr]] assms(1) Inr show ?thesis by simp
  qed
qed

lemma reconcile_deleting:
  assumes "w_others w = []" "reconcile spec i loaded w = (Some (Inr (Some result)), v)"
    and "rr_State result = FulfillmentStateDeleting"
  shows "emptied i v \<and> f_state (rn_Fulfillment loaded) = FulfillmentStateDeleting"
proof (cases "f_state (rn_Fulfillment loaded) = FulfillmentStateDeleting")
  case False
  with assms(2,3) show ?thesis
    by (auto simp: reconcile_def reconcileActive_def reconciliationResult_def noState_def bindW_def retW_def Let_def
        split: if_splits prod.splits sum.splits option.splits)
next
  case True
  let ?delete = "executeDelete spec (rn_Fulfillment loaded) (rn_Pool loaded) i (rn_Evidence loaded)"
  have "keeps quietStep ?delete"
    unfolding executeDelete_def by (intro quietFlow.wf_rules quietFlow.keeps_removeTargets)
  moreover obtain u where "?delete w = (Some (Inr ()), u)"
    "RunActivity (CleanupDeliveryData (wf_vaulted spec) i) u = (Inr (), v)"
    using assms(2,3) True
    by (auto simp: reconcile_def reconcileDeleting_def activity_def reconciliationResult_def noState_def Let_def
        split: if_splits prod.splits sum.splits option.splits)
  ultimately have "emptied i v"
    using assms(1) by (intro cleanup_empties [of u]) (auto simp: quietStep_def dest!: keepsD)
  with True show ?thesis by simp
qed

lemma RunActivity_quiet: "keeps quietStep act \<Longrightarrow> RunActivity act w = (r, v) \<Longrightarrow> quietStep w v"
  by (rule keepsD [OF quiet.keeps_RunActivity])

text \<open>
  C3: who is told that a fulfillment is gone. If, with no other transaction in between, a run of the
  workflow signals the clean-up of a fulfillment, then it signals it once, for this fulfillment,
  the run completes, the stored fulfillment was in state deleting when it was loaded, and no
  delivery of it is left in the committed database.
\<close>

theorem delete_signal_means_clean:
  assumes "w_others w = []" "w_tx w = w_db w"
    and "Run fuel spec i w = (r, v)" "w_cleanups v \<noteq> w_cleanups w"
  shows "w_cleanups v = w_cleanups w @ [i] \<and> r = Completed \<and>
    list_all (\<lambda>d. d_fulfillmentID d \<noteq> i) (t_deliveries (w_db v)) \<and>
    (\<exists>loaded u. RunActivity (AcquireLockAndLoad i) w = (Inr loaded, u) \<and>
       f_state (rn_Fulfillment loaded) = FulfillmentStateDeleting)"
proof (cases fuel)
  case 0
  with assms(3,4) show ?thesis by simp
next
  case (Suc n)
  have release: "w_cleanups (snd (releaseLockAndContinue i u)) = w_cleanups u" for u
    using RunActivity_quiet [OF quiet_activities(7), of i u]
    by (cases "RunActivity (ReleaseLock i) u") (auto simp: releaseLockAndContinue_def quietStep_def)
  obtain q w1 where acquire: "RunActivity (AcquireLockAndLoad i) w = (q, w1)" by fastforce
  then have w1: "w_cleanups w1 = w_cleanups w" "w_others w1 = []"
    using RunActivity_quiet [OF quiet_activities(6)] assms(1) by (auto simp: quietStep_def)
  obtain loaded where loaded: "q = Inr loaded"
  proof (cases q)
    case (Inl e)
    with Suc assms(3,4) acquire w1 release [of w1] show ?thesis by (auto split: if_splits)
  qed auto
  obtain p w2 where rec: "reconcile spec i loaded w1 = (p, w2)" by fastforce
  then have w2: "w_cleanups w2 = w_cleanups w" "w_others w2 = []"
    using keepsD [OF quietFlow.keeps_reconcile rec] w1 by (auto simp: quietStep_def)
  obtain result where result: "p = Some (Inr (Some result))"
    using Suc assms(3,4) acquire loaded rec w2 release [of w2]
    by (cases p) (auto split: sum.splits option.splits)
  let ?inp = "\<lparr>pc_Result = result, pc_ReconciledGen = f_generation (rn_Fulfillment loaded)\<rparr>"
  obtain b w3 where persist: "RunActivity (timed spec (\<lambda>now. PersistAndCompleteReconciliation now ?inp)) w2 = (b, w3)"
    by fastforce
  note signals = persist_signals [OF w2(2) persist]
  have "b \<noteq> Inr True"
    using restart_needs_others(2) [of w i loaded w1 spec result w2 w3] acquire loaded rec result persist assms(1,2)
    by (auto simp: synced_def)
  then have "b = Inr False \<and> r = Completed \<and> v = w3"
    using Suc assms(3,4) acquire loaded rec result persist w2 release [of w3] signals
    by (cases b) auto
  moreover from this have "rr_State result = FulfillmentStateDeleting"
    using assms(4) signals w2 by (auto split: if_splits)
  ultimately show ?thesis
    using signals w2 reconcile_deleting [OF w1(2)] reconcile_result rec result acquire loaded
    by (auto simp: emptied_def)
qed

definition deletingWorld :: world where
  "deletingWorld = (calmWorld (deliveriesPut (NewDelivery ''f:t'' ''f'' ''t'' [] 1 0)
     (fleetStore ((TransitionToDeleting zeroAuth sampleFulfillment)\<lparr>f_resolvedTargets := [''t'']\<rparr>))))
     \<lparr>w_inbox := [sampleCompletion 1 ''f:t'']\<rparr>"

theorem delete_signal_means_clean_witness:
  "w_cleanups (snd (Run 1 sampleSpec ''f'' deletingWorld)) = [''f''] \<and>
   list_all (\<lambda>d. d_fulfillmentID d \<noteq> ''f'') (t_deliveries (w_db (snd (Run 1 sampleSpec ''f'' deletingWorld))))"
proof -
  have "w_cleanups (snd (Run 1 sampleSpec ''f'' deletingWorld)) \<noteq> []" by code_simp
  then show ?thesis
    using delete_signal_means_clean [of deletingWorld 1 sampleSpec "''f''"]
    by (cases "Run 1 sampleSpec ''f'' deletingWorld") (simp add: deletingWorld_def calmWorld_def)
qed

section \<open>Targets that leave the placement\<close>

text \<open>
  An empty placement. When the placement of a fulfillment resolves to no target, the pipeline
  ends at once with no targets and no error, and the world is as before: nothing is dispatched, so
  the targets that were resolved earlier keep what was delivered to them.
\<close>

theorem empty_placement_removes_nothing:
  assumes "resolvePlacement (f_placementStrategy f) (PlacementTargets pool) = Inr []"
  shows "executePlacementPipeline spec f pool i g evidence w = (Some (Inr ([], None)), w)"
proof -
  have "attempts n (\<lambda>v. (Inr x, v)) w = (Inr x, w)" for n and x :: "PlacementTarget list"
    by (cases n) simp_all
  then show ?thesis
    by (simp add: executePlacementPipeline_def activity_def RunActivity_def assms)
qed

theorem empty_placement_removes_nothing_witness:
  "executePlacementPipeline sampleSpec (sampleFulfillment\<lparr>f_resolvedTargets := [''t'']\<rparr>) [] ''f'' 1 None fleetWorld =
     (Some (Inr ([], None)), fleetWorld)"
  by (rule empty_placement_removes_nothing) code_simp

end
