(* ===== verification/FS_Etag.thy ===== *)
theory FS_Etag
  imports FS_Fulfillment FS_Json
begin

text \<open>
  Entity tags (\<^verbatim>\<open>server/internal/domain/etag.go\<close>): the bytes that are hashed for a
  deployment view, every field behind its length as a big-endian 64-bit number, and the weak tag
  made of the hash. SHA-256 is a parameter. The properties: the hashed bytes determine the fields
  they are made of, so for a hash without collisions two views have the same tag exactly when
  these fields agree; and which visible fields a tag ignores.
\<close>

section \<open>Definitions\<close>

text \<open>\<^verbatim>\<open>binary.Write(h, binary.BigEndian, int64(x))\<close>\<close>

fun bigEndian :: "nat \<Rightarrow> int \<Rightarrow> bytes" where
  "bigEndian 0 x = []"
| "bigEndian (Suc n) x = bigEndian n (x div 256) @ [char_of (nat (x mod 256))]"

definition be64 :: "int \<Rightarrow> bytes" where
  "be64 x = bigEndian 8 x"

definition hashString :: "string \<Rightarrow> bytes" where
  "hashString s = be64 (int (length s)) @ s"

fun fulfillmentStateText :: "FulfillmentState \<Rightarrow> string" where
  "fulfillmentStateText FulfillmentStateCreating = ''creating''"
| "fulfillmentStateText FulfillmentStateActive = ''active''"
| "fulfillmentStateText FulfillmentStateDeleting = ''deleting''"
| "fulfillmentStateText FulfillmentStateFailed = ''failed''"
| "fulfillmentStateText (OtherFulfillmentState s) = s"

definition hashFulfillmentFields :: "Fulfillment \<Rightarrow> bytes" where
  "hashFulfillmentFields f =
     be64 (f_generation f) @ hashString (fulfillmentStateText (f_state f)) @ hashString (f_statusReason f) @
     be64 (int (length (f_resolvedTargets f))) @ concat (map hashString (f_resolvedTargets f))"

definition hashDeploymentFields :: "DeploymentView \<Rightarrow> bytes" where
  "hashDeploymentFields v = hashString (dp_name (dv_Deployment v)) @ hashString (dp_uid (dv_Deployment v))"

definition hexByte :: "char \<Rightarrow> string" where
  "hexByte c = [hexDigit (code c div 16), hexDigit (code c mod 16)]"

definition weakEtag :: "bytes \<Rightarrow> string" where
  "weakEtag digest = ''W/'' @ [dquote] @ concat (map hexByte (take 16 digest)) @ [dquote]"

definition hashedView :: "DeploymentView \<Rightarrow> bytes" where
  "hashedView v = hashDeploymentFields v @ hashFulfillmentFields (dv_Fulfillment v)"

definition EtagOf :: "(bytes \<Rightarrow> bytes) \<Rightarrow> DeploymentView \<Rightarrow> string" where
  "EtagOf sha256 v = weakEtag (sha256 (hashedView v))"

section \<open>The hashed bytes are unambiguous\<close>

lemma length_bigEndian [simp]: "length (bigEndian n x) = n"
  by (induction n arbitrary: x) simp_all

lemma bigEndian_value: "fold (\<lambda>c a. a * 256 + int (code c)) (bigEndian n x) 0 = x mod 256 ^ n"
proof (induction n arbitrary: x)
  case (Suc n)
  have "code (char_of (nat (x mod 256))) = nat (x mod 256)" by (rule code_char_of) simp
  moreover have "x mod 256 ^ Suc n = x div 256 mod 256 ^ n * 256 + x mod 256"
    by (simp add: zmod_zmult2_eq)
  ultimately show ?case using Suc by simp
qed simp

lemma be64_inj:
  assumes "be64 x = be64 y" "min_i64 \<le> x" "x \<le> max_i64" "min_i64 \<le> y" "y \<le> max_i64"
  shows "x = y"
proof -
  have "x mod 2 ^ 64 = y mod 2 ^ 64"
    using bigEndian_value [of 8 x] bigEndian_value [of 8 y] assms(1) by (simp add: be64_def)
  then have "i64 x = i64 y" unfolding i64_def by (metis mod_add_left_eq)
  with assms show ?thesis by (simp add: i64_id)
qed

lemma length_be64 [simp]: "length (be64 x) = 8"
  by (simp add: be64_def)

abbreviation fits :: "string \<Rightarrow> bool" where
  "fits s \<equiv> int (length s) \<le> max_i64"

lemma hashString_prefix:
  assumes "hashString s @ t = hashString s' @ t'" "fits s" "fits s'"
  shows "s = s' \<and> t = t'"
proof -
  from assms(1) have "be64 (int (length s)) = be64 (int (length s'))" "s @ t = s' @ t'"
    by (simp_all add: hashString_def)
  moreover from this assms(2,3) have "length s = length s'" using be64_inj [of "int (length s)" "int (length s')"] by simp
  ultimately show ?thesis by simp
qed

lemma hashStrings_inj:
  "length ss = length ss' \<Longrightarrow> concat (map hashString ss) = concat (map hashString ss') \<Longrightarrow>
   list_all fits ss \<Longrightarrow> list_all fits ss' \<Longrightarrow> ss = ss'"
proof (induction ss ss' rule: list_induct2)
  case (Cons s ss s' ss')
  then show ?case using hashString_prefix [of s "concat (map hashString ss)" s' "concat (map hashString ss')"] by simp
qed simp

text \<open>Go strings and slices have fewer than \<open>2 ^ 63\<close> elements, and a generation is an \<^verbatim>\<open>int64\<close>.\<close>

definition viewFits :: "DeploymentView \<Rightarrow> bool" where
  "viewFits v \<longleftrightarrow>
     (let f = dv_Fulfillment v; d = dv_Deployment v
      in fits (dp_name d) \<and> fits (dp_uid d) \<and> min_i64 \<le> f_generation f \<and> f_generation f \<le> max_i64 \<and>
         fits (fulfillmentStateText (f_state f)) \<and> fits (f_statusReason f) \<and>
         int (length (f_resolvedTargets f)) \<le> max_i64 \<and> list_all fits (f_resolvedTargets f))"

definition taggedFields :: "DeploymentView \<Rightarrow> ResourceName \<times> DeploymentUID \<times> Generation \<times> string \<times> string \<times> TargetID list" where
  "taggedFields v =
     (dp_name (dv_Deployment v), dp_uid (dv_Deployment v), f_generation (dv_Fulfillment v),
      fulfillmentStateText (f_state (dv_Fulfillment v)), f_statusReason (dv_Fulfillment v),
      f_resolvedTargets (dv_Fulfillment v))"

lemma hashedView_inj:
  assumes "viewFits v" "viewFits v'" "hashedView v = hashedView v'"
  shows "taggedFields v = taggedFields v'"
proof -
  let ?f = "dv_Fulfillment v" and ?f' = "dv_Fulfillment v'"
  note ok = assms(1,2) [unfolded viewFits_def Let_def]
  note eq = assms(3) [unfolded hashedView_def hashDeploymentFields_def hashFulfillmentFields_def append_assoc]
  from hashString_prefix [OF eq] ok have name: "dp_name (dv_Deployment v) = dp_name (dv_Deployment v')"
    and eq1: "hashString (dp_uid (dv_Deployment v)) @ hashFulfillmentFields ?f =
      hashString (dp_uid (dv_Deployment v')) @ hashFulfillmentFields ?f'"
    by (simp_all add: hashFulfillmentFields_def)
  from hashString_prefix [OF eq1] ok have uid: "dp_uid (dv_Deployment v) = dp_uid (dv_Deployment v')"
    and eq2: "hashFulfillmentFields ?f = hashFulfillmentFields ?f'" by simp_all
  from eq2 have gen: "be64 (f_generation ?f) = be64 (f_generation ?f')"
    and eq3: "hashString (fulfillmentStateText (f_state ?f)) @ hashString (f_statusReason ?f) @
        be64 (int (length (f_resolvedTargets ?f))) @ concat (map hashString (f_resolvedTargets ?f)) =
      hashString (fulfillmentStateText (f_state ?f')) @ hashString (f_statusReason ?f') @
        be64 (int (length (f_resolvedTargets ?f'))) @ concat (map hashString (f_resolvedTargets ?f'))"
    by (simp_all add: hashFulfillmentFields_def)
  have gen': "f_generation ?f = f_generation ?f'" using be64_inj [OF gen] ok by simp
  from hashString_prefix [OF eq3] ok have state: "fulfillmentStateText (f_state ?f) = fulfillmentStateText (f_state ?f')"
    and eq4: "hashString (f_statusReason ?f) @
        be64 (int (length (f_resolvedTargets ?f))) @ concat (map hashString (f_resolvedTargets ?f)) =
      hashString (f_statusReason ?f') @
        be64 (int (length (f_resolvedTargets ?f'))) @ concat (map hashString (f_resolvedTargets ?f'))"
    by simp_all
  from hashString_prefix [OF eq4] ok have reason: "f_statusReason ?f = f_statusReason ?f'"
    and eq5: "be64 (int (length (f_resolvedTargets ?f))) = be64 (int (length (f_resolvedTargets ?f')))"
      "concat (map hashString (f_resolvedTargets ?f)) = concat (map hashString (f_resolvedTargets ?f'))"
    by simp_all
  have "length (f_resolvedTargets ?f) = length (f_resolvedTargets ?f')" using be64_inj [OF eq5(1)] ok by simp
  with eq5(2) ok have "f_resolvedTargets ?f = f_resolvedTargets ?f'" by (intro hashStrings_inj) auto
  with name uid gen' state reason show ?thesis by (simp add: taggedFields_def)
qed

lemma hexByte_inj: "hexByte c = hexByte d \<longleftrightarrow> c = d"
proof
  assume "hexByte c = hexByte d"
  then have "hexValue (hexDigit (code c div 16)) = hexValue (hexDigit (code d div 16))"
    "hexValue (hexDigit (code c mod 16)) = hexValue (hexDigit (code d mod 16))"
    by (simp_all add: hexByte_def)
  moreover have "code c div 16 < 16" "code d div 16 < 16" using code_lt [of c] code_lt [of d] by linarith+
  ultimately have "code c div 16 = code d div 16" "code c mod 16 = code d mod 16" by simp_all
  then have "code c = code d" by (metis div_mult_mod_eq)
  then show "c = d" by (metis char_of_code)
qed simp

lemma hexBytes_inj: "concat (map hexByte xs) = concat (map hexByte ys) \<Longrightarrow> xs = ys"
proof (induction xs arbitrary: ys)
  case Nil
  then show ?case by (cases ys) (simp_all add: hexByte_def)
next
  case (Cons x xs)
  then obtain y zs where ys: "ys = y # zs" by (cases ys) (auto simp: hexByte_def)
  have "length (hexByte x) = length (hexByte y)" by (simp add: hexByte_def)
  with Cons.prems ys have "hexByte x = hexByte y" "concat (map hexByte xs) = concat (map hexByte zs)" by simp_all
  then have "x = y" "xs = zs" using hexByte_inj Cons.IH by blast+
  with ys show ?case by simp
qed

section \<open>Properties\<close>

text \<open>
  A tag stands for its fields. For a hash whose first sixteen bytes do not collide on the bytes
  of the two views, the tags of two views are equal exactly when name, identifier, generation,
  state, status reason and resolved targets (in order) are: the length prefixes leave no
  ambiguity between neighbouring fields, for strings and lists of every length that fits a 64-bit
  counter and every generation, negative ones included.
\<close>

theorem etag_exact:
  assumes "viewFits v" "viewFits v'"
    and "take 16 (sha256 (hashedView v)) = take 16 (sha256 (hashedView v')) \<Longrightarrow> hashedView v = hashedView v'"
  shows "EtagOf sha256 v = EtagOf sha256 v' \<longleftrightarrow> taggedFields v = taggedFields v'"
proof
  assume "EtagOf sha256 v = EtagOf sha256 v'"
  then have "take 16 (sha256 (hashedView v)) = take 16 (sha256 (hashedView v'))"
    by - (rule hexBytes_inj, simp add: EtagOf_def weakEtag_def)
  with assms show "taggedFields v = taggedFields v'" by (intro hashedView_inj) auto
next
  assume "taggedFields v = taggedFields v'"
  then have "hashedView v = hashedView v'"
    by (simp add: taggedFields_def hashedView_def hashDeploymentFields_def hashFulfillmentFields_def)
  then show "EtagOf sha256 v = EtagOf sha256 v'" by (simp add: EtagOf_def)
qed

definition sampleView :: "DeploymentUID \<Rightarrow> string \<Rightarrow> DeploymentView" where
  "sampleView uid pause =
     \<lparr>dv_Deployment = NewDeployment ''d'' uid ''f'' 0,
      dv_Fulfillment = (NewFulfillment ''f'' zeroAuth None None 0)\<lparr>f_pauseReason := pause\<rparr>\<rparr>"

theorem etag_exact_witness:
  "EtagOf (\<lambda>b. drop 17 b) (sampleView ''u'' '''') \<noteq> EtagOf (\<lambda>b. drop 17 b) (sampleView ''v'' '''') \<and>
   viewFits (sampleView ''u'' '''') \<and> viewFits (sampleView ''v'' '''')"
proof -
  have fits: "viewFits (sampleView ''u'' '''')" "viewFits (sampleView ''v'' '''')"
    by (simp_all add: viewFits_def sampleView_def NewDeployment_def NewFulfillment_def)
  have "take 16 (drop 17 (hashedView (sampleView ''u'' ''''))) \<noteq> take 16 (drop 17 (hashedView (sampleView ''v'' '''')))"
    by code_simp
  then have "EtagOf (\<lambda>b. drop 17 b) (sampleView ''u'' '''') = EtagOf (\<lambda>b. drop 17 b) (sampleView ''v'' '''') \<longleftrightarrow>
      taggedFields (sampleView ''u'' '''') = taggedFields (sampleView ''v'' '''')"
    by (intro etag_exact [OF fits]) blast
  moreover have "taggedFields (sampleView ''u'' '''') \<noteq> taggedFields (sampleView ''v'' '''')"
    by (simp add: taggedFields_def sampleView_def NewDeployment_def)
  ultimately show ?thesis using fits by blast
qed

text \<open>
  A tag does not follow every visible field: pausing, resuming and completing change the reason
  for the pause, and with it the \<^verbatim>\<open>reconciling\<close> flag of the API, without changing the tag.
\<close>

lemma etag_ignores_pause:
  "EtagOf sha256 (v\<lparr>dv_Fulfillment := (dv_Fulfillment v)\<lparr>f_pauseReason := r, f_observedGeneration := g\<rparr>\<rparr>) = EtagOf sha256 v"
  by (simp add: EtagOf_def hashedView_def hashDeploymentFields_def hashFulfillmentFields_def)

end
