(* ===== verification/FS_Extension.thy ===== *)
theory FS_Extension
  imports FS_World FS_Etag
begin

text \<open>
  Extension resources: the resource-type catalog and the aggregate of an extension-owned resource
  (\<^verbatim>\<open>domain/extension_resource.go\<close>, \<^verbatim>\<open>snapshot.go\<close>), their repository
  (\<^verbatim>\<open>infrastructure/sqlite/extension_resource_repo.go\<close>), the catalog service
  (\<^verbatim>\<open>application/extension_resource_type_service.go\<close>) and the entity tag of a resource view
  (\<^verbatim>\<open>domain/etag.go\<close>). Text columns keep their values: the strings are valid UTF-8, and
  the instants are written with nanoseconds; the relation of a type has a target and a manifest type,
  so its JSON column decodes to itself (\<open>management_codec\<close>). The table of alias contributions has no writer in the
  program, so the removal of claims that lose their last contributor never finds one.
\<close>

section \<open>Resource types\<close>

definition NewManagementType :: "FulfillmentRelation option \<Rightarrow> Signature \<Rightarrow> ManagementType result" where
  "NewManagementType relation sig =
     (case relation of
        None \<Rightarrow> Inl (invalid ''management type'' ''relation is required'')
      | Some r \<Rightarrow> Inr \<lparr>mt_relation = r, mt_signature = sig\<rparr>)"

definition WithManagement :: "FulfillmentRelation \<Rightarrow> Signature \<Rightarrow> ExtensionResourceType \<Rightarrow> ExtensionResourceType" where
  "WithManagement relation sig t = t\<lparr>et_management := Some \<lparr>mt_relation = relation, mt_signature = sig\<rparr>\<rparr>"

definition WithInventory :: "ExtensionResourceType \<Rightarrow> ExtensionResourceType" where
  "WithInventory t = t\<lparr>et_inventory := True\<rparr>"

definition NewExtensionResourceType ::
  "ResourceType \<Rightarrow> APIVersion \<Rightarrow> CollectionID \<Rightarrow> go_time \<Rightarrow> (ExtensionResourceType \<Rightarrow> ExtensionResourceType) list \<Rightarrow>
     ExtensionResourceType" where
  "NewExtensionResourceType rt version coll now opts =
     fold (\<lambda>opt t. opt t) opts
       \<lparr>et_resourceType = rt, et_apiVersion = version, et_collectionID = coll, et_management = None,
        et_inventory = False, et_createdAt = now, et_updatedAt = now\<rparr>"

record managementTypeJSON =
  mj_Relation :: fulfillmentRelJSON
  mj_Signature :: Signature

definition managementToJSON :: "ManagementType \<Rightarrow> managementTypeJSON" where
  "managementToJSON m = \<lparr>mj_Relation = marshalFulfillmentRelation (Some (mt_relation m)), mj_Signature = mt_signature m\<rparr>"

definition managementFromJSON :: "managementTypeJSON \<Rightarrow> (FulfillmentRelation option \<times> Signature) result" where
  "managementFromJSON j =
     (case unmarshalFulfillmentRelation (mj_Relation j) of
        Inl e \<Rightarrow> Inl e
      | Inr rel \<Rightarrow> Inr (rel, mj_Signature j))"

section \<open>The aggregate\<close>

definition NewConditionType :: "string \<Rightarrow> string result" where
  "NewConditionType s = (if s = '''' then Inl (invalid ''condition type'' ''must not be empty'') else Inr s)"

definition validConditionStatuses :: "string list" where
  "validConditionStatuses = [''True'', ''False'', ''Unknown'']"

definition ParseConditionStatus :: "string \<Rightarrow> string result" where
  "ParseConditionStatus s =
     (if s \<in> set validConditionStatuses then Inr s
      else Inl (invalid (''condition status '' @ quote s) ''must be True, False, or Unknown''))"

definition NewCondition :: "string \<Rightarrow> string \<Rightarrow> string \<Rightarrow> string \<Rightarrow> go_time \<Rightarrow> Condition" where
  "NewCondition ct status reason message transitionTime =
     \<lparr>cd_type = ct, cd_status = status, cd_reason = reason, cd_message = message, cd_lastTransitionTime = transitionTime\<rparr>"

definition WithExtensionLabels :: "string_map \<Rightarrow> ExtensionResource \<Rightarrow> ExtensionResource" where
  "WithExtensionLabels labels r = r\<lparr>er_labels := labels\<rparr>"

definition WithManagedState :: "FulfillmentID \<Rightarrow> ExtensionResource \<Rightarrow> ExtensionResource" where
  "WithManagedState i r = r\<lparr>er_managed := Some \<lparr>mgd_currentVersion = 0, mgd_fulfillmentID = i\<rparr>\<rparr>"

definition NewExtensionResource ::
  "ExtensionResourceUID \<Rightarrow> ResourceType \<Rightarrow> ResourceName \<Rightarrow> go_time \<Rightarrow> (ExtensionResource \<Rightarrow> ExtensionResource) list \<Rightarrow>
     ExtensionResource" where
  "NewExtensionResource uid rt name now opts =
     fold (\<lambda>opt r. opt r) opts
       \<lparr>er_uid = uid, er_resourceType = rt, er_name = name, er_labels = fmempty, er_managed = None, er_inventory = None,
        er_reportedAliases = [], er_createdAt = now, er_updatedAt = now, er_pendingIntents = []\<rparr>"

definition RecordIntent :: "bytes \<Rightarrow> go_time \<Rightarrow> ExtensionResource \<Rightarrow> (ResourceIntent \<times> ExtensionResource) result" where
  "RecordIntent spec now r =
     (case er_managed r of
        None \<Rightarrow> Inl (Wrapped (''extension resource '' @ er_name r @ '': '') (Sentinel ErrInvalidArgument)
                       '': cannot record intent without managed state'')
      | Some m \<Rightarrow>
          (let v = i64 (mgd_currentVersion m + 1);
               intent = \<lparr>ri_ExtensionResourceUID = er_uid r, ri_Version = v, ri_Spec = spec, ri_CreatedAt = now\<rparr>
           in Inr (intent, r\<lparr>er_managed := Some (m\<lparr>mgd_currentVersion := v\<rparr>),
                             er_pendingIntents := er_pendingIntents r @ [intent]\<rparr>)))"

definition extSetLabels :: "string_map \<Rightarrow> go_time \<Rightarrow> ExtensionResource \<Rightarrow> ExtensionResource" where
  "extSetLabels labels now r = r\<lparr>er_labels := labels, er_updatedAt := now\<rparr>"

definition erFullResourceName :: "ExtensionResource \<Rightarrow> FullResourceName" where
  "erFullResourceName r = rtFullName (er_resourceType r) (er_name r)"

section \<open>The catalog of types\<close>

text \<open>The row of a type: its name is split into the key columns and put together again on reading.\<close>

definition storedType :: "ExtensionResourceType \<Rightarrow> ExtensionResourceType" where
  "storedType t = t\<lparr>et_resourceType := rtServiceName (et_resourceType t) @ [slash] @ rtTypeName (et_resourceType t)\<rparr>"

abbreviation rowTypeKey :: "ExtensionResourceType \<Rightarrow> ServiceName \<times> string" where
  "rowTypeKey t \<equiv> typeKey (et_resourceType t)"

definition extCreateType :: "ExtensionResourceType \<Rightarrow> store \<Rightarrow> store result" where
  "extCreateType def s =
     (if getRow rowTypeKey (rowTypeKey def) (t_extTypes s) \<noteq> None
      then Inl (Wrapped '''' (Sentinel ErrAlreadyExists) ('': extension resource type '' @ quote (et_resourceType def)))
      else Inr (s\<lparr>t_extTypes := t_extTypes s @ [storedType def]\<rparr>))"

definition noType :: "ResourceType \<Rightarrow> error" where
  "noType rt = Wrapped '''' (Sentinel ErrNotFound) ('': extension resource type '' @ quote rt)"

definition extUpdateType :: "ExtensionResourceType \<Rightarrow> store \<Rightarrow> store result" where
  "extUpdateType def s =
     (if getRow rowTypeKey (rowTypeKey def) (t_extTypes s) = None then Inl (noType (et_resourceType def))
      else Inr (s\<lparr>t_extTypes := map (\<lambda>t. if rowTypeKey t = rowTypeKey def
             then t\<lparr>et_management := et_management def, et_inventory := et_inventory def, et_updatedAt := et_updatedAt def\<rparr>
             else t) (t_extTypes s)\<rparr>))"

definition extListTypes :: "store \<Rightarrow> ExtensionResourceType list" where
  "extListTypes s = sort_key rowTypeKey (t_extTypes s)"

text \<open>A type that still has resources is kept by the foreign key of their rows.\<close>

definition extDeleteType :: "ResourceType \<Rightarrow> store \<Rightarrow> store result" where
  "extDeleteType rt s =
     (if getRow rowTypeKey (typeKey rt) (t_extTypes s) = None then Inl (noType rt)
      else if list_ex (\<lambda>r. typeKey (er_resourceType r) = typeKey rt) (t_extResources s)
      then Inl (foreignKeyViolation ''delete extension resource type'')
      else Inr (s\<lparr>t_extTypes := deleteRow rowTypeKey (typeKey rt) (t_extTypes s)\<rparr>))"

section \<open>The rows of resources\<close>

type_synonym natural_key = "ServiceName \<times> CollectionName \<times> ResourceID"

definition keyOf :: "ServiceName \<Rightarrow> ResourceName \<Rightarrow> natural_key" where
  "keyOf service name = (service, nameCollection name, nameID name)"

definition rowKey :: "ExtensionResource \<Rightarrow> natural_key" where
  "rowKey r = keyOf (rtServiceName (er_resourceType r)) (er_name r)"

definition fullKey :: "FullResourceName \<Rightarrow> natural_key" where
  "fullKey n = keyOf (fullServiceName n) (fullRelativeName n)"

definition extRow :: "natural_key \<Rightarrow> store \<Rightarrow> ExtensionResource option" where
  "extRow k s = getRow rowKey k (t_extResources s)"

text \<open>The conditions column is an object keyed by type; it is read back ordered by type.\<close>

definition storedConditions :: "Condition list \<Rightarrow> Condition list" where
  "storedConditions cs =
     (let index = index_by cd_type cs
      in map (\<lambda>t. the (index t)) (sort (remdups (map cd_type cs))))"

definition storedInventory :: "InventoryResource \<Rightarrow> InventoryResource" where
  "storedInventory i = i\<lparr>iv_conditions := storedConditions (iv_conditions i)\<rparr>"

text \<open>
  A row as it is read. The column of reported aliases is not in the \<^verbatim>\<open>INSERT\<close> of
  \<^verbatim>\<open>Create\<close>, so a created row starts without any.
\<close>

definition storedResource :: "ExtensionResource \<Rightarrow> ExtensionResource" where
  "storedResource r =
     r\<lparr>er_resourceType := rtServiceName (er_resourceType r) @ [slash] @ rtTypeName (er_resourceType r),
       er_name := nameCollection (er_name r) @ [slash] @ nameID (er_name r),
       er_inventory := map_option storedInventory (er_inventory r), er_reportedAliases := [], er_pendingIntents := []\<rparr>"

definition intentKey :: "ResourceIntent \<Rightarrow> ExtensionResourceUID \<times> IntentVersion" where
  "intentKey r = (ri_ExtensionResourceUID r, ri_Version r)"

fun insertIntents :: "ResourceIntent list \<Rightarrow> ResourceIntent list \<Rightarrow> ResourceIntent list result" where
  "insertIntents [] rows = Inr rows"
| "insertIntents (r # rs) rows =
     (if getRow intentKey (intentKey r) rows \<noteq> None
      then Inl (Wrapped '''' (Sentinel ErrAlreadyExists) ('': intent '' @ ri_ExtensionResourceUID r @ '' v'' @ itoa (ri_Version r)))
      else insertIntents rs (rows @ [r]))"

definition extCreate :: "ExtensionResource \<Rightarrow> store \<Rightarrow> store result" where
  "extCreate r s =
     (if getRow er_uid (er_uid r) (t_extResources s) \<noteq> None \<or> extRow (rowKey r) s \<noteq> None
      then Inl (Wrapped '''' (Sentinel ErrAlreadyExists)
             ('': extension resource '' @ rtServiceName (er_resourceType r) @ [slash] @ er_name r))
      else if getRow rowTypeKey (typeKey (er_resourceType r)) (t_extTypes s) = None
      then Inl (foreignKeyViolation ''insert extension resource'')
      else case insertIntents (er_pendingIntents r) (t_intents s) of
             Inl e \<Rightarrow> Inl e
           | Inr intents \<Rightarrow> Inr (s\<lparr>t_extResources := t_extResources s @ [storedResource r], t_intents := intents\<rparr>))"

definition extGet :: "FullResourceName \<Rightarrow> store \<Rightarrow> ExtensionResource result" where
  "extGet n s = orNotFound (extRow (fullKey n) s)"

definition extOfType :: "ResourceType \<Rightarrow> store \<Rightarrow> ExtensionResource list" where
  "extOfType rt s =
     sort_key (\<lambda>r. (nameCollection (er_name r), nameID (er_name r)))
       (filter (\<lambda>r. typeKey (er_resourceType r) = typeKey rt) (t_extResources s))"

text \<open>The rows that hang on a resource go with it.\<close>

definition dropResources :: "(ExtensionResource \<Rightarrow> bool) \<Rightarrow> store \<Rightarrow> store" where
  "dropResources gone s =
     s\<lparr>t_extResources := filter (\<lambda>r. \<not> gone r) (t_extResources s),
       t_intents := filter (\<lambda>i. \<not> list_ex (\<lambda>r. gone r \<and> er_uid r = ri_ExtensionResourceUID i) (t_extResources s)) (t_intents s)\<rparr>"

definition extDelete :: "FullResourceName \<Rightarrow> store \<Rightarrow> store result" where
  "extDelete n s =
     (if extRow (fullKey n) s = None then Inl (Wrapped '''' (Sentinel ErrNotFound) ('': extension resource '' @ n))
      else Inr (dropResources (\<lambda>r. rowKey r = fullKey n) s))"

section \<open>Views\<close>

record ExtensionResourceView =
  ev_Resource :: ExtensionResource
  ev_Intent :: "ResourceIntent option"
  ev_Fulfillment :: "Fulfillment option"

text \<open>The left joins of the view query.\<close>

definition viewOf :: "ExtensionResource \<Rightarrow> store \<Rightarrow> ExtensionResourceView" where
  "viewOf r s =
     \<lparr>ev_Resource = r,
      ev_Intent = (case er_managed r of
          None \<Rightarrow> None
        | Some m \<Rightarrow> getRow intentKey (er_uid r, mgd_currentVersion m) (t_intents s)),
      ev_Fulfillment = (case er_managed r of
          None \<Rightarrow> None
        | Some m \<Rightarrow> (case fulfillmentsGet (mgd_fulfillmentID m) s of Inl _ \<Rightarrow> None | Inr f \<Rightarrow> Some f))\<rparr>"

definition extGetView :: "FullResourceName \<Rightarrow> store \<Rightarrow> ExtensionResourceView result" where
  "extGetView n s = (case extRow (fullKey n) s of None \<Rightarrow> notFound | Some r \<Rightarrow> Inr (viewOf r s))"

definition extListViewsByType :: "ResourceType \<Rightarrow> store \<Rightarrow> ExtensionResourceView list" where
  "extListViewsByType rt s = map (\<lambda>r. viewOf r s) (extOfType rt s)"

section \<open>The entity tag of a view\<close>

text \<open>\<^verbatim>\<open>t.UnixNano()\<close>, for instants counted in nanoseconds from the zero time.\<close>

definition unixNano :: "go_time \<Rightarrow> int" where
  "unixNano t = i64 (t - 62135596800 * 1000000000)"

definition hashStringStringMap :: "string_map \<Rightarrow> bytes" where
  "hashStringStringMap m =
     (let keys = sorted_list_of_fset (fmdom m)
      in be64 (int (length keys)) @ concat (map (\<lambda>k. hashString k @ hashString (the (fmlookup m k))) keys))"

definition hashAliases :: "AliasSet \<Rightarrow> bytes" where
  "hashAliases aliases =
     be64 (int (length aliases)) @
     concat (map (\<lambda>a. hashString (al_namespace a) @ hashString (al_key a) @ hashString (al_value a)) aliases)"

definition hashConditions :: "Condition list \<Rightarrow> bytes" where
  "hashConditions cs =
     be64 (int (length cs)) @
     concat (map (\<lambda>c. hashString (cd_type c) @ hashString (cd_status c) @ hashString (cd_reason c) @ hashString (cd_message c)) cs)"

definition hashExtensionResourceFields :: "ExtensionResourceView \<Rightarrow> bytes" where
  "hashExtensionResourceFields v =
     (let r = ev_Resource v
      in hashString (er_resourceType r) @ hashString (er_name r) @ hashString (er_uid r) @ hashStringStringMap (er_labels r) @
         (case er_managed r of None \<Rightarrow> [] | Some m \<Rightarrow> be64 (mgd_currentVersion m)) @
         (case ev_Intent v of None \<Rightarrow> [] | Some i \<Rightarrow> be64 (ri_Version i) @ hashString (ri_Spec i)) @
         (case er_inventory r of
            None \<Rightarrow> []
          | Some i \<Rightarrow>
              hashStringStringMap (iv_labels i) @
              (case iv_observation i of None \<Rightarrow> [] | Some o' \<Rightarrow> hashString o') @
              hashConditions (iv_conditions i) @ be64 (unixNano (iv_observedAt i)) @ be64 (unixNano (iv_updatedAt i))) @
         hashAliases (er_reportedAliases r))"

definition extEtag :: "(bytes \<Rightarrow> bytes) \<Rightarrow> ExtensionResourceView \<Rightarrow> string" where
  "extEtag sha256 v =
     weakEtag (sha256 (hashExtensionResourceFields v @
       (case ev_Fulfillment v of None \<Rightarrow> [] | Some f \<Rightarrow> hashFulfillmentFields f)))"

section \<open>The catalog service\<close>

record CreateExtensionTypeInput =
  ce_ResourceType :: ResourceType
  ce_APIVersion :: APIVersion
  ce_CollectionID :: CollectionID
  ce_Management :: "(FulfillmentRelation option \<times> Signature) option"
  ce_Inventory :: bool

definition typeServiceCreate :: "go_time \<Rightarrow> CreateExtensionTypeInput \<Rightarrow> ExtensionResourceType io" where
  "typeServiceCreate now inp =
     (let persist = (\<lambda>opts.
            let def = NewExtensionResourceType (ce_ResourceType inp) (ce_APIVersion inp) (ce_CollectionID inp) now
                        (opts @ (if ce_Inventory inp then [WithInventory] else []))
            in andThen Begin (\<lambda>_.
               andThen (writes (extCreateType def)) (\<lambda>_.
               andThen (wrap ''commit: '' Commit) (\<lambda>_.
               ret def))))
      in case ce_Management inp of
           None \<Rightarrow> persist []
         | Some (None, sig) \<Rightarrow> throw (Wrapped '''' (Sentinel ErrInvalidArgument) '': management relation is required'')
         | Some (Some rel, sig) \<Rightarrow> persist [WithManagement rel sig])"

definition typeServiceUpdate :: "ExtensionResourceType \<Rightarrow> unit io" where
  "typeServiceUpdate def = andThen Begin (\<lambda>_. andThen (writes (extUpdateType def)) (\<lambda>_. Commit))"

definition typeServiceGet :: "ResourceType \<Rightarrow> ExtensionResourceType io" where
  "typeServiceGet rt =
     andThen (beginTx ''begin tx: '') (\<lambda>_.
     andThen (reads (extGetType rt)) (\<lambda>def.
     andThen EndReadOnly (\<lambda>_. ret def)))"

definition typeServiceList :: "ExtensionResourceType list io" where
  "typeServiceList =
     andThen (beginTx ''begin tx: '') (\<lambda>_.
     andThen (reads (\<lambda>s. Inr (extListTypes s))) (\<lambda>defs.
     andThen EndReadOnly (\<lambda>_. ret defs)))"

definition typeServiceDelete :: "ResourceType \<Rightarrow> unit io" where
  "typeServiceDelete rt = andThen Begin (\<lambda>_. andThen (writes (extDeleteType rt)) (\<lambda>_. Commit))"

section \<open>Keys survive storing\<close>

lemma slash_rtServiceName: "slash \<notin> set (rtServiceName rt)"
  by (auto simp: rtServiceName_def cut_first_def dest: set_takeWhileD split: option.split)

lemma rt_join:
  assumes "slash \<notin> set service"
  shows "rtServiceName (service @ [slash] @ ty) = service" "rtTypeName (service @ [slash] @ ty) = ty"
  using cut_first_append [OF assms] by (simp_all add: rtServiceName_def rtTypeName_def)

lemma typeKey_join [simp]: "typeKey (rtServiceName rt @ slash # rtTypeName rt) = typeKey rt"
  using rt_join [OF slash_rtServiceName] by (simp add: typeKey_def)

lemma slash_nameID: "slash \<notin> set (nameID n)"
  by (auto simp: nameID_def cut_last_None dest: cut_last_SomeD split: option.split)

lemma name_join [simp]:
  "nameCollection (nameCollection n @ slash # nameID n) = nameCollection n"
  "nameID (nameCollection n @ slash # nameID n) = nameID n"
  using cut_last_append [OF slash_nameID, of "nameCollection n" n]
  by (simp_all add: nameCollection_def [of "nameCollection n @ slash # nameID n"]
      nameID_def [of "nameCollection n @ slash # nameID n"])

lemma rowKey_stored [simp]: "rowKey (storedResource r) = rowKey r"
  using rt_join(1) [OF slash_rtServiceName] by (simp add: rowKey_def keyOf_def storedResource_def)

lemma stored_fields [simp]:
  "er_uid (storedResource r) = er_uid r" "er_managed (storedResource r) = er_managed r"
  "er_labels (storedResource r) = er_labels r" "typeKey (er_resourceType (storedResource r)) = typeKey (er_resourceType r)"
  "rowTypeKey (storedType t) = rowTypeKey t"
  by (simp_all add: storedResource_def storedType_def)

lemma fullKey_rtFullName: "fullKey (rtFullName rt name) = keyOf (rtServiceName rt) name"
proof -
  have "trim_prefix ''//'' (rtFullName rt name) = rtServiceName rt @ slash # name"
    using trim_prefix_append [of "''//''" "rtServiceName rt @ slash # name"] by (simp add: rtFullName_def NewFullResourceName_def)
  then show ?thesis
    using cut_first_append [OF slash_rtServiceName, of rt name]
    by (simp add: fullKey_def fullServiceName_def fullRelativeName_def)
qed

lemma management_codec:
  assumes "mt_relation m = OfSelfTarget r" "rs_addonTarget r \<noteq> ''''" "rs_manifestType r \<noteq> ''''"
  shows "managementFromJSON (managementToJSON m) = Inr (Some (mt_relation m), mt_signature m)"
  using assms
  by (simp add: managementFromJSON_def managementToJSON_def unmarshalFulfillmentRelation_def marshalFulfillmentRelation_def
      NewTargetID_def NewManifestType_def NewRegisteredSelfTarget_def)

section \<open>Reading after writing\<close>

text \<open>
  The integrity of the tables: one row per identifier and per natural key, the type of every row in
  the catalog, one row per version of an intent, every intent of a resource that exists, and names
  that are put together from a collection and an identifier.
\<close>

definition canonicalName :: "ResourceName \<Rightarrow> bool" where
  "canonicalName n \<longleftrightarrow> n = nameCollection n @ [slash] @ nameID n"

definition extOK :: "store \<Rightarrow> bool" where
  "extOK s \<longleftrightarrow>
     distinct (map er_uid (t_extResources s)) \<and> distinct (map rowKey (t_extResources s)) \<and>
     distinct (map rowTypeKey (t_extTypes s)) \<and> distinct (map intentKey (t_intents s)) \<and>
     (\<lambda>r. typeKey (er_resourceType r)) ` set (t_extResources s) \<subseteq> rowTypeKey ` set (t_extTypes s) \<and>
     ri_ExtensionResourceUID ` set (t_intents s) \<subseteq> er_uid ` set (t_extResources s) \<and>
     list_all (\<lambda>r. canonicalName (er_name r)) (t_extResources s)"

lemma canonicalName_join [simp]:
  "canonicalName (nameCollection n @ slash # nameID n)" "canonicalName (er_name (storedResource r))"
  by (simp_all add: canonicalName_def storedResource_def)

lemma insertIntents_Inr:
  assumes "insertIntents rs rows = Inr rows'" "distinct (map intentKey rows)"
  shows "rows' = rows @ rs" "distinct (map intentKey rows')"
  using assms
proof (induction rs arbitrary: rows)
  case (Cons r rs)
  { case 1 with Cons.IH(1) [of "rows @ [r]"] show ?case by (auto simp: getRow_None split: if_splits) }
  { case 2 with Cons.IH(2) [of "rows @ [r]"] show ?case by (auto simp: getRow_None split: if_splits) }
qed auto

lemma extCreate_Inr:
  assumes "extCreate r s = Inr s'"
  shows "extRow (rowKey r) s = None" "er_uid r \<notin> er_uid ` set (t_extResources s)"
    and "t_extResources s' = t_extResources s @ [storedResource r]"
    and "t_extTypes s' = t_extTypes s" "t_fulfillments s' = t_fulfillments s"
    and "insertIntents (er_pendingIntents r) (t_intents s) = Inr (t_intents s')"
    and "typeKey (er_resourceType r) \<in> rowTypeKey ` set (t_extTypes s)"
  using assms by (auto simp: extCreate_def extRow_def getRow_None split: if_splits sum.splits)

lemma extRow_create:
  assumes "extCreate r s = Inr s'"
  shows "extRow k s' = (if k = rowKey r then Some (storedResource r) else extRow k s)"
  using extCreate_Inr(1,3) [OF assms] by (auto simp: extRow_def getRow_append split: option.split)

lemma extOK_create:
  assumes "extCreate r s = Inr s'" "extOK s" "ri_ExtensionResourceUID ` set (er_pendingIntents r) \<subseteq> {er_uid r}"
  shows "extOK s'"
proof -
  note c = extCreate_Inr [OF assms(1)]
  have intents: "t_intents s' = t_intents s @ er_pendingIntents r" "distinct (map intentKey (t_intents s'))"
    using insertIntents_Inr [OF c(6)] assms(2) by (auto simp: extOK_def)
  have "rowKey r \<notin> rowKey ` set (t_extResources s)" using c(1) by (auto simp: extRow_def getRow_None)
  with assms(2,3) c intents show ?thesis by (auto simp: extOK_def)
qed

lemma extOK_drop:
  assumes "extOK s"
  shows "extOK (dropResources gone s)"
proof -
  have "list_all (\<lambda>r. canonicalName (er_name r)) (t_extResources (dropResources gone s))"
    using assms by (simp add: extOK_def dropResources_def list_all_iff)
  moreover have "ri_ExtensionResourceUID ` set (t_intents (dropResources gone s)) \<subseteq> er_uid ` set (t_extResources (dropResources gone s))"
    using assms by (force simp: extOK_def dropResources_def list_ex_iff)
  ultimately show ?thesis
    using assms by (auto simp: extOK_def dropResources_def distinct_map inj_on_def)
qed

lemma getRow_filter:
  assumes "distinct (map key rows)"
  shows "getRow key k (filter P rows) = (case getRow key k rows of Some r \<Rightarrow> if P r then Some r else None | None \<Rightarrow> None)"
  using assms
proof (induction rows)
  case (Cons a rows)
  then have "getRow key (key a) rows = None" by (auto simp: getRow_None)
  with Cons show ?case by auto
qed simp

lemma extRow_drop:
  assumes "extOK s"
  shows "extRow k (dropResources gone s) = (case extRow k s of Some r \<Rightarrow> if gone r then None else Some r | None \<Rightarrow> None)"
  using assms by (auto simp: extRow_def dropResources_def extOK_def getRow_filter split: option.split)

lemma extOK_types:
  assumes "extOK s"
  shows "extCreateType def s = Inr s' \<Longrightarrow> extOK s'" "extUpdateType def s = Inr s' \<Longrightarrow> extOK s'"
    "extDeleteType rt s = Inr s' \<Longrightarrow> extOK s'"
proof -
  show "extOK s'" if "extCreateType def s = Inr s'"
    using that assms by (auto simp: extCreateType_def extOK_def getRow_None split: if_splits) blast+
  let ?f = "\<lambda>t. if rowTypeKey t = rowTypeKey def
      then t\<lparr>et_management := et_management def, et_inventory := et_inventory def, et_updatedAt := et_updatedAt def\<rparr> else t"
  show "extOK s'" if "extUpdateType def s = Inr s'"
  proof -
    define ts where "ts = map ?f (t_extTypes s)"
    have keys: "map rowTypeKey ts = map rowTypeKey (t_extTypes s)" by (simp add: ts_def)
    then have "rowTypeKey ` set ts = rowTypeKey ` set (t_extTypes s)" by (metis set_map)
    moreover from that have "s' = s\<lparr>t_extTypes := ts\<rparr>" by (auto simp: extUpdateType_def ts_def split: if_splits)
    ultimately show ?thesis using assms keys by (simp add: extOK_def)
  qed
  show "extOK s'" if "extDeleteType rt s = Inr s'"
  proof -
    from that have s': "s' = s\<lparr>t_extTypes := deleteRow rowTypeKey (typeKey rt) (t_extTypes s)\<rparr>"
      and free: "typeKey rt \<notin> (\<lambda>r. typeKey (er_resourceType r)) ` set (t_extResources s)"
      by (auto simp: extDeleteType_def list_ex_iff split: if_splits)
    have "rowTypeKey ` set (deleteRow rowTypeKey k ts) = rowTypeKey ` set ts - {k}" for k ts
      by (auto simp: deleteRow_def)
    with assms free show ?thesis
      unfolding extOK_def s' by (auto simp: deleteRow_def distinct_map inj_on_def)
  qed
qed

end
