(* ===== verification/FS_Envelope.thy ===== *)
theory FS_Envelope
  imports FS_Provenance FS_Json "HOL-Library.Multiset"
begin

text \<open>
  The canonical signed envelope (\<^verbatim>\<open>server/pkg/canonical/envelope.go\<close>) and its domain
  wrappers (\<^verbatim>\<open>server/internal/domain/attestation.go\<close>): the bytes a user signs and every
  verifier rebuilds. The envelope is built as text, field by field, the way
  \<^verbatim>\<open>json.Marshal\<close> writes the structs. The properties say what a signature over the envelope
  binds: equal envelopes come from intents with the same name, strategies, constraints, validity
  and generation, whatever spelling of JSON the manifests used.
\<close>

section \<open>Objects as text\<close>

definition objText :: "(string \<times> string) list \<Rightarrow> string" where
  "objText members = CHR ''{'' # commaSep (map (\<lambda>(k, v). encodeString k @ CHR '':'' # v) members) @ ''}''"

definition arrText :: "string list \<Rightarrow> string" where
  "arrText xs = CHR ''['' # commaSep xs @ '']''"

section \<open>Canonical types\<close>

record canonicalManifest =
  cm_Type :: string
  cm_Raw :: bytes

record canonicalManifestStrategy =
  cms_Type :: string
  cms_Manifests :: "canonicalManifest list"

record canonicalPlacementStrategy =
  cps_Type :: string
  cps_Targets :: "string list"
  cps_MatchLabels :: string_map

record canonicalOutputConstraint =
  cc_Name :: string
  cc_Expression :: string

section \<open>The structs that are marshalled\<close>

text \<open>An empty field with \<^verbatim>\<open>omitempty\<close> is left out.\<close>

record envelopeManifestStrategy =
  ems_Type :: string
  ems_Manifests :: bytes

record envelopePlacementStrategy =
  eps_Type :: string
  eps_Targets :: "string list"
  eps_MatchLabels :: string_map

record envelopeConstraint =
  ec_Expression :: string
  ec_Name :: string

record envelopeContent =
  ect_Name :: string
  ect_ManifestStrategy :: envelopeManifestStrategy
  ect_PlacementStrategy :: envelopePlacementStrategy

record managedResourceEnvelopeContent =
  mect_ResourceType :: string
  mect_ResourceName :: string
  mect_Spec :: bytes

text \<open>
  \<^verbatim>\<open>float64(validUntil.Unix())\<close>: whole seconds since 1970, for instants counted in
  nanoseconds from the zero time. Every second between the years 1 and 9999 is exact in a
  \<^verbatim>\<open>float64\<close> and is written without a fraction or an exponent.
\<close>

definition unixSeconds :: "go_time \<Rightarrow> int" where
  "unixSeconds t = t div 1000000000 - 62135596800"

section \<open>Marshalling\<close>

definition constraintText :: "envelopeConstraint \<Rightarrow> string" where
  "constraintText c =
     objText [(''expression'', encodeString (ec_Expression c)), (''name'', encodeString (ec_Name c))]"

fun manifestDocs :: "canonicalManifest list \<Rightarrow> string list result" where
  "manifestDocs [] = Inr []"
| "manifestDocs (m # ms) =
     (case encodeRaw (cm_Raw m) of
        Inl e \<Rightarrow> Inl e
      | Inr raw \<Rightarrow>
          (case manifestDocs ms of
             Inl e \<Rightarrow> Inl e
           | Inr docs \<Rightarrow> Inr (objText [(''manifest_type'', encodeString (cm_Type m)), (''content'', raw)] # docs)))"

text \<open>The error of the inner \<^verbatim>\<open>json.Marshal\<close> is discarded: the field is then nil.\<close>

definition marshalManifestStrategy :: "canonicalManifestStrategy \<Rightarrow> envelopeManifestStrategy" where
  "marshalManifestStrategy ms =
     \<lparr>ems_Type = cms_Type ms,
      ems_Manifests =
        (if cms_Manifests ms = [] then []
         else case manifestDocs (cms_Manifests ms) of Inl _ \<Rightarrow> [] | Inr docs \<Rightarrow> arrText docs)\<rparr>"

definition marshalPlacementStrategy :: "canonicalPlacementStrategy \<Rightarrow> envelopePlacementStrategy" where
  "marshalPlacementStrategy ps =
     \<lparr>eps_Type = cps_Type ps, eps_Targets = cps_Targets ps, eps_MatchLabels = cps_MatchLabels ps\<rparr>"

definition marshalOutputConstraints :: "canonicalOutputConstraint list \<Rightarrow> envelopeConstraint list" where
  "marshalOutputConstraints cs =
     sort_key constraintText (map (\<lambda>c. \<lparr>ec_Expression = cc_Expression c, ec_Name = cc_Name c\<rparr>) cs)"

definition manifestStrategyText :: "envelopeManifestStrategy \<Rightarrow> string result" where
  "manifestStrategyText m =
     (if ems_Manifests m = [] then Inr (objText [(''type'', encodeString (ems_Type m))])
      else case encodeRaw (ems_Manifests m) of
             Inl e \<Rightarrow> Inl e
           | Inr raw \<Rightarrow> Inr (objText [(''type'', encodeString (ems_Type m)), (''manifests'', raw)]))"

definition placementStrategyText :: "envelopePlacementStrategy \<Rightarrow> string" where
  "placementStrategyText p =
     objText
       ((''type'', encodeString (eps_Type p)) #
        (if eps_Targets p = [] then [] else [(''targets'', arrText (map encodeString (eps_Targets p)))]) @
        (if eps_MatchLabels p = fmempty then [] else [(''match_labels'', encodeStringMap (eps_MatchLabels p))]))"

definition contentText :: "envelopeContent \<Rightarrow> string result" where
  "contentText c =
     (case manifestStrategyText (ect_ManifestStrategy c) of
        Inl e \<Rightarrow> Inl e
      | Inr ms \<Rightarrow>
          Inr (objText [(''name'', encodeString (ect_Name c)), (''manifest_strategy'', ms),
                        (''placement_strategy'', placementStrategyText (ect_PlacementStrategy c))]))"

definition managedContentText :: "managedResourceEnvelopeContent \<Rightarrow> string result" where
  "managedContentText c =
     (case encodeRaw (mect_Spec c) of
        Inl e \<Rightarrow> Inl e
      | Inr spec \<Rightarrow>
          Inr (objText [(''resource_type'', encodeString (mect_ResourceType c)),
                        (''resource_name'', encodeString (mect_ResourceName c)), (''spec'', spec)]))"

text \<open>The outer struct, which both kinds of content share.\<close>

definition envelopeText ::
  "string \<Rightarrow> envelopeConstraint list \<Rightarrow> go_time \<Rightarrow> Generation \<Rightarrow> bytes" where
  "envelopeText content constraints validUntil expectedGeneration =
     objText
       ([(''content'', content),
         (''output_constraints'', arrText (map constraintText constraints)),
         (''valid_until'', itoa (unixSeconds validUntil))] @
        (if expectedGeneration \<noteq> 0 then [(''expected_generation'', itoa expectedGeneration)] else []))"

definition canonicalSignedInputEnvelope ::
  "string \<Rightarrow> canonicalManifestStrategy \<Rightarrow> canonicalPlacementStrategy \<Rightarrow> go_time \<Rightarrow>
     canonicalOutputConstraint list \<Rightarrow> Generation \<Rightarrow> bytes result" where
  "canonicalSignedInputEnvelope name ms ps validUntil constraints expectedGeneration =
     (case contentText \<lparr>ect_Name = name, ect_ManifestStrategy = marshalManifestStrategy ms,
                        ect_PlacementStrategy = marshalPlacementStrategy ps\<rparr> of
        Inl e \<Rightarrow> Inl e
      | Inr content \<Rightarrow>
          Inr (envelopeText content (marshalOutputConstraints constraints) validUntil expectedGeneration))"

definition canonicalManagedResourceEnvelope ::
  "string \<Rightarrow> string \<Rightarrow> bytes \<Rightarrow> go_time \<Rightarrow> canonicalOutputConstraint list \<Rightarrow> Generation \<Rightarrow> bytes result" where
  "canonicalManagedResourceEnvelope resourceType resourceName spec validUntil constraints expectedGeneration =
     (case managedContentText \<lparr>mect_ResourceType = resourceType, mect_ResourceName = resourceName,
                               mect_Spec = spec\<rparr> of
        Inl e \<Rightarrow> Inl e
      | Inr content \<Rightarrow>
          Inr (envelopeText content (marshalOutputConstraints constraints) validUntil expectedGeneration))"

section \<open>The domain's wrappers\<close>

definition toCanonicalManifestStrategy :: "ManifestStrategySpec \<Rightarrow> canonicalManifestStrategy" where
  "toCanonicalManifestStrategy ms =
     \<lparr>cms_Type = ms_Type ms,
      cms_Manifests = map (\<lambda>m. \<lparr>cm_Type = mf_type m, cm_Raw = mf_raw m\<rparr>) (ms_Manifests ms)\<rparr>"

definition toCanonicalPlacementStrategy :: "PlacementStrategySpec \<Rightarrow> canonicalPlacementStrategy" where
  "toCanonicalPlacementStrategy ps =
     \<lparr>cps_Type = ps_Type ps, cps_Targets = ps_Targets ps,
      cps_MatchLabels = (case ps_TargetSelector ps of None \<Rightarrow> fmempty | Some labels \<Rightarrow> labels)\<rparr>"

definition toCanonicalConstraints :: "OutputConstraint list \<Rightarrow> canonicalOutputConstraint list" where
  "toCanonicalConstraints cs = map (\<lambda>c. \<lparr>cc_Name = oc_Name c, cc_Expression = oc_Expression c\<rparr>) cs"

definition BuildSignedInputEnvelope ::
  "ResourceName \<Rightarrow> ManifestStrategySpec \<Rightarrow> PlacementStrategySpec \<Rightarrow> go_time \<Rightarrow> OutputConstraint list \<Rightarrow>
     Generation \<Rightarrow> bytes result" where
  "BuildSignedInputEnvelope name ms ps validUntil constraints expectedGeneration =
     canonicalSignedInputEnvelope name (toCanonicalManifestStrategy ms) (toCanonicalPlacementStrategy ps)
       validUntil (toCanonicalConstraints constraints) expectedGeneration"

definition BuildManagedResourceEnvelope ::
  "ResourceType \<Rightarrow> ResourceName \<Rightarrow> bytes \<Rightarrow> go_time \<Rightarrow> OutputConstraint list \<Rightarrow> Generation \<Rightarrow>
     bytes result" where
  "BuildManagedResourceEnvelope resourceType resourceName spec validUntil constraints expectedGeneration =
     canonicalManagedResourceEnvelope resourceType resourceName spec validUntil
       (toCanonicalConstraints constraints) expectedGeneration"

section \<open>Numbers\<close>

lemma isDigit_char [simp]: "n < 10 \<Longrightarrow> isDigit (char_of (48 + n :: nat))"
  by (simp add: isDigit_def)

lemma nat_digits_digits: "list_all isDigit (nat_digits n)"
proof (induction n rule: nat_digits.induct)
  case (1 n)
  then show ?case by (subst nat_digits.simps) auto
qed

lemma nat_digits_inj: "nat_digits m = nat_digits n \<Longrightarrow> m = n"
proof (induction m arbitrary: n rule: nat_digits.induct)
  case (1 m)
  have last: "code (last (nat_digits k)) = 48 + k mod 10" for k :: nat
    by (subst nat_digits.simps) simp
  have butlast: "butlast (nat_digits k) = (if k < 10 then [] else nat_digits (k div 10))" for k :: nat
    by (subst nat_digits.simps) simp
  have nonempty: "nat_digits k \<noteq> []" for k :: nat
    by (subst nat_digits.simps) simp
  have mod10: "m mod 10 = n mod 10" using last [of m] last [of n] "1.prems" by simp
  have "m div 10 = n div 10"
  proof (cases "m < 10")
    case True
    then have "n < 10" using butlast [of m] butlast [of n] "1.prems" nonempty by (metis (full_types))
    with True show ?thesis by simp
  next
    case False
    then have "\<not> n < 10" using butlast [of m] butlast [of n] "1.prems" nonempty by (metis (full_types))
    with False have "nat_digits (m div 10) = nat_digits (n div 10)"
      using butlast [of m] butlast [of n] "1.prems" by simp
    with False "1.IH" show ?thesis by blast
  qed
  with mod10 show ?case by (metis div_mult_mod_eq)
qed

lemma char_of_48: "char_of (48 :: nat) = CHR ''0''"
  by code_simp

lemma nat_digits_head: "\<exists>c cs. nat_digits n = c # cs \<and> (c = CHR ''0'' \<longrightarrow> cs = [])"
proof (induction n rule: nat_digits.induct)
  case (1 n)
  show ?case
  proof (cases "n < 10")
    case True
    then show ?thesis by (subst nat_digits.simps) simp
  next
    case False
    then obtain c cs where c: "nat_digits (n div 10) = c # cs" "c = CHR ''0'' \<longrightarrow> cs = []" using 1 by blast
    have "c \<noteq> CHR ''0''"
    proof
      assume "c = CHR ''0''"
      moreover have "nat_digits 0 = ''0''" by (subst nat_digits.simps) (simp add: char_of_48)
      ultimately have "nat_digits (n div 10) = nat_digits 0" using c by simp
      with nat_digits_inj have "n div 10 = 0" by blast
      with False show False by simp
    qed
    with False c show ?thesis by (subst nat_digits.simps) simp
  qed
qed

lemma minus_not_digit: "\<not> isDigit (CHR ''-'')"
  by (simp add: isDigit_def code_def)

lemma itoa_inj: "itoa a = itoa b \<Longrightarrow> a = b"
proof -
  assume eq: "itoa a = itoa b"
  have "nat_digits n \<noteq> CHR ''-'' # ds" for n ds
    using nat_digits_digits [of n] minus_not_digit by auto
  then have "(a < 0) = (b < 0)" "nat_digits (nat \<bar>a\<bar>) = nat_digits (nat \<bar>b\<bar>)"
    using eq unfolding itoa_def by (auto split: if_splits) (metis (full_types) abs_of_nonneg not_less)+
  then show ?thesis using nat_digits_inj by fastforce
qed

lemma validNumber_itoa: "jsonOK (JNumber (itoa i))"
proof -
  have digits: "validNumber (nat_digits n)" "list_all isNumberChar (nat_digits n)" for n
  proof -
    obtain c cs where c: "nat_digits n = c # cs" "c = CHR ''0'' \<longrightarrow> cs = []" using nat_digits_head by blast
    have d: "isDigit c" "list_all isDigit cs" using nat_digits_digits [of n] c by auto
    then have "dropWhile isDigit cs = []" by (simp add: list_all_iff)
    then have "validFrac (dropWhile isDigit cs)" by (simp only: validFrac_def list.case)
    with c d minus_not_digit show "validNumber (nat_digits n)"
      by (auto simp: validNumber_def validFrac_def)
    show "list_all isNumberChar (nat_digits n)"
      using nat_digits_digits [of n] by (auto simp: list_all_iff isDigit_def isNumberChar_def)
  qed
  have "validNumber (CHR ''-'' # nat_digits n) = validNumber (nat_digits n)" for n
  proof -
    obtain c cs where c: "nat_digits n = c # cs" using nat_digits_head by blast
    have "c \<noteq> CHR ''-''" using nat_digits_digits [of n] c minus_not_digit by auto
    with c show ?thesis by (simp add: validNumber_def)
  qed
  with digits show ?thesis by (simp add: itoa_def isNumberChar_def)
qed

section \<open>The document an envelope spells\<close>

definition rawOK :: "bytes \<Rightarrow> bool" where
  "rawOK raw \<longleftrightarrow> raw = [] \<or> decodeJSON raw \<noteq> None"

definition rawTree :: "bytes \<Rightarrow> json" where
  "rawTree raw = (if raw = [] then JNull else the (decodeJSON raw))"

definition manifestTree :: "canonicalManifest \<Rightarrow> json" where
  "manifestTree m = JObject [(''manifest_type'', JString (cm_Type m)), (''content'', rawTree (cm_Raw m))]"

definition constraintTree :: "envelopeConstraint \<Rightarrow> json" where
  "constraintTree c = JObject [(''expression'', JString (ec_Expression c)), (''name'', JString (ec_Name c))]"

definition manifestStrategyTree :: "canonicalManifestStrategy \<Rightarrow> json" where
  "manifestStrategyTree ms =
     JObject ((''type'', JString (cms_Type ms)) #
       (if cms_Manifests ms = [] then [] else [(''manifests'', JArray (map manifestTree (cms_Manifests ms)))]))"

definition labelsTree :: "string_map \<Rightarrow> json" where
  "labelsTree m =
     JObject (map (\<lambda>k. (k, JString (case fmlookup m k of Some v \<Rightarrow> v | None \<Rightarrow> ''''))) (sorted_list_of_fset (fmdom m)))"

definition placementTree :: "canonicalPlacementStrategy \<Rightarrow> json" where
  "placementTree ps =
     JObject ((''type'', JString (cps_Type ps)) #
       (if cps_Targets ps = [] then [] else [(''targets'', JArray (map JString (cps_Targets ps)))]) @
       (if cps_MatchLabels ps = fmempty then [] else [(''match_labels'', labelsTree (cps_MatchLabels ps))]))"

definition envelopeTree :: "json \<Rightarrow> envelopeConstraint list \<Rightarrow> go_time \<Rightarrow> Generation \<Rightarrow> json" where
  "envelopeTree content constraints validUntil expectedGeneration =
     JObject
       ([(''content'', content), (''output_constraints'', JArray (map constraintTree constraints)),
         (''valid_until'', JNumber (itoa (unixSeconds validUntil)))] @
        (if expectedGeneration \<noteq> 0 then [(''expected_generation'', JNumber (itoa expectedGeneration))] else []))"

definition signedInputTree ::
  "string \<Rightarrow> canonicalManifestStrategy \<Rightarrow> canonicalPlacementStrategy \<Rightarrow> json" where
  "signedInputTree name ms ps =
     JObject [(''name'', JString name), (''manifest_strategy'', manifestStrategyTree ms),
              (''placement_strategy'', placementTree ps)]"

definition managedResourceTree :: "string \<Rightarrow> string \<Rightarrow> bytes \<Rightarrow> json" where
  "managedResourceTree resourceType resourceName spec =
     JObject [(''resource_type'', JString resourceType), (''resource_name'', JString resourceName),
              (''spec'', rawTree spec)]"

subsection \<open>Spelling\<close>

lemma spells_objText:
  "list_all2 (\<lambda>m c. fst m = fst c \<and> spells (snd m) (snd c)) ms cs \<Longrightarrow> spells (JObject ms) (objText cs)"
  unfolding objText_def
proof (rule spells_object, induction ms cs rule: list_all2_induct)
  case (Cons m ms c cs)
  then have "spellsMember m (encodeString (fst c) @ CHR '':'' # snd c)"
    unfolding spellsMember_def encodeString_def
    by (intro exI [of _ "concat (map escapeChar (fst m)) @ [dquote]"] exI [of _ "snd c"])
      (simp add: spellsChars_encoded)
  with Cons show ?case by (cases c) simp
qed simp

lemma spells_arrText: "list_all2 spells xs cs \<Longrightarrow> spells (JArray xs) (arrText cs)"
  unfolding arrText_def by (rule spells_array)

lemma spells_encodeString [simp]: "spells (JString s) (encodeString s)"
  using spells_encodeJSON [of "JString s"] by simp

lemma spells_itoa [simp]: "spells (JNumber (itoa i)) (itoa i)"
  using spells_number validNumber_itoa by blast

lemma spells_map [simp]: "(\<And>x. x \<in> set xs \<Longrightarrow> spells (f x) (g x)) \<Longrightarrow> list_all2 spells (map f xs) (map g xs)"
  by (simp add: list_all2_map1 list_all2_map2 list_all2_same)

lemma spells_raw: "encodeRaw raw = Inr c \<Longrightarrow> spells (rawTree raw) c"
  unfolding rawTree_def by (rule encodeRaw_spells)

lemma encodeRaw_ok: "rawOK raw \<Longrightarrow> \<exists>c. encodeRaw raw = Inr c"
  by (auto simp: rawOK_def encodeRaw_def)

lemma rawOK_encodeRaw: "encodeRaw raw = Inr c \<Longrightarrow> rawOK raw"
  by (auto simp: rawOK_def encodeRaw_def split: if_splits option.splits)

lemma spells_constraint: "spells (constraintTree c) (constraintText c)"
  unfolding constraintTree_def constraintText_def by (rule spells_objText) simp

lemma spells_labels: "spells (labelsTree m) (encodeStringMap m)"
  unfolding labelsTree_def encodeStringMap_def
  by (rule spells_encodeJSON) (simp add: list_all_iff)

lemma spells_docs:
  "\<forall>m \<in> set ms. rawOK (cm_Raw m) \<Longrightarrow> \<exists>docs. manifestDocs ms = Inr docs \<and> list_all2 spells (map manifestTree ms) docs"
proof (induction ms)
  case (Cons m ms)
  then obtain docs where "manifestDocs ms = Inr docs" "list_all2 spells (map manifestTree ms) docs" by auto
  moreover from Cons.prems obtain raw where "encodeRaw (cm_Raw m) = Inr raw" using encodeRaw_ok by auto
  moreover from this have "spells (manifestTree m)
      (objText [(''manifest_type'', encodeString (cm_Type m)), (''content'', raw)])"
    unfolding manifestTree_def by (intro spells_objText) (simp add: spells_raw)
  ultimately show ?case by simp
qed simp

lemma spells_manifestStrategy:
  assumes "\<forall>m \<in> set (cms_Manifests ms). rawOK (cm_Raw m)"
  shows "\<exists>c. manifestStrategyText (marshalManifestStrategy ms) = Inr c \<and> spells (manifestStrategyTree ms) c"
proof (cases "cms_Manifests ms = []")
  case True
  then show ?thesis
    by (auto simp: manifestStrategyText_def marshalManifestStrategy_def manifestStrategyTree_def
        intro!: spells_objText)
next
  case False
  obtain docs where docs: "manifestDocs (cms_Manifests ms) = Inr docs"
      "list_all2 spells (map manifestTree (cms_Manifests ms)) docs"
    using spells_docs [OF assms] by blast
  then have tree: "decodeJSON (arrText docs) = Some (JArray (map manifestTree (cms_Manifests ms)))"
    by (intro decodeJSON_spells spells_arrText)
  then obtain raw where raw: "encodeRaw (arrText docs) = Inr raw"
    using encodeRaw_ok by (auto simp: rawOK_def)
  from spells_raw [OF raw] tree have "spells (JArray (map manifestTree (cms_Manifests ms))) raw"
    by (simp add: rawTree_def arrText_def)
  then have "spells (manifestStrategyTree ms)
      (objText [(''type'', encodeString (cms_Type ms)), (''manifests'', raw)])"
    unfolding manifestStrategyTree_def using False by (intro spells_objText) simp
  then show ?thesis
    using False docs raw by (simp add: manifestStrategyText_def marshalManifestStrategy_def arrText_def)
qed

lemma spells_placement: "spells (placementTree ps) (placementStrategyText (marshalPlacementStrategy ps))"
  unfolding placementTree_def placementStrategyText_def marshalPlacementStrategy_def
  by (rule spells_objText) (simp add: spells_arrText spells_labels)

lemma spells_envelope:
  "spells content c \<Longrightarrow> spells (envelopeTree content cs v g) (envelopeText c cs v g)"
  unfolding envelopeTree_def envelopeText_def
  by (rule spells_objText) (simp add: spells_arrText spells_constraint)

lemma signed_input_spells:
  assumes "\<forall>m \<in> set (cms_Manifests ms). rawOK (cm_Raw m)"
  shows "\<exists>e. canonicalSignedInputEnvelope name ms ps v cs g = Inr e \<and>
    spells (envelopeTree (signedInputTree name ms ps) (marshalOutputConstraints cs) v g) e"
proof -
  obtain c where c: "manifestStrategyText (marshalManifestStrategy ms) = Inr c" "spells (manifestStrategyTree ms) c"
    using spells_manifestStrategy [OF assms] by blast
  have "spells (signedInputTree name ms ps)
      (objText [(''name'', encodeString name), (''manifest_strategy'', c),
         (''placement_strategy'', placementStrategyText (marshalPlacementStrategy ps))])"
    unfolding signedInputTree_def by (rule spells_objText) (simp add: c spells_placement)
  from spells_envelope [OF this] show ?thesis
    using c by (simp add: canonicalSignedInputEnvelope_def contentText_def)
qed

lemma managed_resource_spells:
  assumes "rawOK spec"
  shows "\<exists>e. canonicalManagedResourceEnvelope rt rn spec v cs g = Inr e \<and>
    spells (envelopeTree (managedResourceTree rt rn spec) (marshalOutputConstraints cs) v g) e"
proof -
  obtain c where c: "encodeRaw spec = Inr c" using encodeRaw_ok [OF assms] by blast
  have "spells (managedResourceTree rt rn spec)
      (objText [(''resource_type'', encodeString rt), (''resource_name'', encodeString rn), (''spec'', c)])"
    unfolding managedResourceTree_def by (rule spells_objText) (simp add: spells_raw [OF c])
  from spells_envelope [OF this] show ?thesis
    using c by (simp add: canonicalManagedResourceEnvelope_def managedContentText_def)
qed

lemma spells_unique: "spells i c \<Longrightarrow> spells j c \<Longrightarrow> i = j"
  by (metis decodeJSON_spells option.inject)

subsection \<open>What the document determines\<close>

lemma labelsTree_inj: "labelsTree m = labelsTree m' \<longleftrightarrow> m = m'"
proof
  assume "labelsTree m = labelsTree m'"
  then have "encodeStringMap m = encodeStringMap m'" by (simp add: labelsTree_def encodeStringMap_def)
  then show "m = m'" by (metis decodeStringMap_encode sum.inject(2))
qed simp

lemma placementTree_inj: "placementTree p = placementTree q \<longleftrightarrow> p = q"
  by (cases p; cases q) (auto simp: placementTree_def labelsTree_inj inj_map_eq_map inj_def split: if_splits)

lemma manifestTree_inj: "manifestTree m = manifestTree n \<longleftrightarrow> cm_Type m = cm_Type n \<and> rawTree (cm_Raw m) = rawTree (cm_Raw n)"
  by (simp add: manifestTree_def)

lemma manifestStrategyTree_inj:
  "manifestStrategyTree m = manifestStrategyTree n \<longleftrightarrow>
   cms_Type m = cms_Type n \<and> map manifestTree (cms_Manifests m) = map manifestTree (cms_Manifests n)"
  by (auto simp: manifestStrategyTree_def split: if_splits)

lemma constraintTree_inj: "constraintTree c = constraintTree d \<longleftrightarrow> c = d"
  by (cases c; cases d) (auto simp: constraintTree_def)

lemma constraintText_inj: "constraintText c = constraintText d \<longleftrightarrow> c = d"
  using spells_constraint spells_unique constraintTree_inj by metis

lemma envelopeTree_inj:
  "envelopeTree c cs v g = envelopeTree c' cs' v' g' \<longleftrightarrow>
   c = c' \<and> cs = cs' \<and> unixSeconds v = unixSeconds v' \<and> g = g'"
  by (auto simp: envelopeTree_def constraintTree_inj inj_map_eq_map inj_def dest: itoa_inj split: if_splits)

lemma sort_key_mset:
  assumes "\<And>x y. f x = f y \<longleftrightarrow> x = y"
  shows "sort_key f xs = sort_key f ys \<longleftrightarrow> mset xs = mset ys"
proof
  assume same: "mset xs = mset ys"
  have "sort (map f ys) = map f (sort_key f zs)" if "mset zs = mset ys" for zs
    by (rule properties_for_sort) (use that in simp_all)
  from this [OF same] this [of ys] have "map f (sort_key f xs) = map f (sort_key f ys)" by simp
  with assms show "sort_key f xs = sort_key f ys" by (simp add: inj_map_eq_map inj_def)
qed (metis mset_sort)

lemma constraints_inj:
  "marshalOutputConstraints (toCanonicalConstraints cs) = marshalOutputConstraints (toCanonicalConstraints cs') \<longleftrightarrow>
   mset cs = mset cs'"
proof -
  let ?f = "\<lambda>c :: OutputConstraint. \<lparr>ec_Expression = oc_Expression c, ec_Name = oc_Name c\<rparr>"
  have "x = y" if "?f x = ?f y" for x y :: OutputConstraint
    using that by (cases x; cases y) simp
  then have "inj ?f" by (rule injI)
  then have "mset (map ?f cs) = mset (map ?f cs') \<longleftrightarrow> mset cs = mset cs'"
    using multiset.inj_map [of ?f] by (simp add: inj_eq)
  then show ?thesis
    using sort_key_mset [OF constraintText_inj]
    by (simp add: marshalOutputConstraints_def toCanonicalConstraints_def comp_def)
qed

lemma placement_inj:
  "toCanonicalPlacementStrategy ps = toCanonicalPlacementStrategy ps' \<longleftrightarrow>
   ps_Type ps = ps_Type ps' \<and> ps_Targets ps = ps_Targets ps' \<and>
   (case ps_TargetSelector ps of None \<Rightarrow> fmempty | Some l \<Rightarrow> l) =
   (case ps_TargetSelector ps' of None \<Rightarrow> fmempty | Some l \<Rightarrow> l)"
  by (simp add: toCanonicalPlacementStrategy_def)

section \<open>Properties\<close>

definition wellFormedManifests :: "ManifestStrategySpec \<Rightarrow> bool" where
  "wellFormedManifests ms = list_all (\<lambda>m. rawOK (mf_raw m)) (ms_Manifests ms)"

lemma signed_input_document:
  assumes "wellFormedManifests ms"
  shows "\<exists>e. BuildSignedInputEnvelope name ms ps v cs g = Inr e \<and>
    spells (envelopeTree (signedInputTree name (toCanonicalManifestStrategy ms) (toCanonicalPlacementStrategy ps))
              (marshalOutputConstraints (toCanonicalConstraints cs)) v g) e"
  unfolding BuildSignedInputEnvelope_def
  by (rule signed_input_spells)
    (use assms in \<open>auto simp: wellFormedManifests_def list_all_iff toCanonicalManifestStrategy_def\<close>)

text \<open>Two spellings of the same manifest, for the concrete instances.\<close>

definition sampleManifests :: "bytes \<Rightarrow> ManifestStrategySpec" where
  "sampleManifests raw =
     \<lparr>ms_Type = ManifestStrategyInline, ms_Manifests = [\<lparr>mf_type = ''k8s'', mf_id = ''m1'', mf_raw = raw\<rparr>],
      ms_IntentRef = noIntentRef\<rparr>"

definition samplePlacement :: PlacementStrategySpec where
  "samplePlacement = \<lparr>ps_Type = ''static'', ps_Targets = [''t1''], ps_TargetSelector = None\<rparr>"

text \<open>Five seconds after the beginning of 1970.\<close>

definition sampleTime :: go_time where
  "sampleTime = 62135596805000000000"

abbreviation spacedRaw :: bytes where "spacedRaw \<equiv> [CHR '' '', CHR ''['', CHR ''1'', CHR '' '', CHR '']'']"
abbreviation tightRaw :: bytes where "tightRaw \<equiv> ''[1]''"

lemma envelope_injective:
  assumes "wellFormedManifests ms" "wellFormedManifests ms'"
    and "BuildSignedInputEnvelope name ms ps v cs g = Inr e" "BuildSignedInputEnvelope name' ms' ps' v' cs' g' = Inr e"
  shows "name = name' \<and> ms_Type ms = ms_Type ms' \<and>
     map (\<lambda>m. (mf_type m, rawTree (mf_raw m))) (ms_Manifests ms) =
       map (\<lambda>m. (mf_type m, rawTree (mf_raw m))) (ms_Manifests ms') \<and>
     toCanonicalPlacementStrategy ps = toCanonicalPlacementStrategy ps' \<and>
     unixSeconds v = unixSeconds v' \<and> mset cs = mset cs' \<and> g = g'"
proof -
  have "spells (envelopeTree (signedInputTree name (toCanonicalManifestStrategy ms) (toCanonicalPlacementStrategy ps))
      (marshalOutputConstraints (toCanonicalConstraints cs)) v g) e"
    using signed_input_document [OF assms(1), of name ps v cs g] assms(3) by auto
  moreover have "spells (envelopeTree (signedInputTree name' (toCanonicalManifestStrategy ms') (toCanonicalPlacementStrategy ps'))
      (marshalOutputConstraints (toCanonicalConstraints cs')) v' g') e"
    using signed_input_document [OF assms(2), of name' ps' v' cs' g'] assms(4) by auto
  moreover have "map (\<lambda>m. (mf_type m, rawTree (mf_raw m))) (ms_Manifests ms) =
      map (\<lambda>m. (mf_type m, rawTree (mf_raw m))) (ms_Manifests ms')"
    if "map manifestTree (cms_Manifests (toCanonicalManifestStrategy ms)) =
        map manifestTree (cms_Manifests (toCanonicalManifestStrategy ms'))"
    using that by (auto simp: toCanonicalManifestStrategy_def manifestTree_inj list_eq_iff_nth_eq)
  ultimately show ?thesis
    using spells_unique
    by (fastforce simp: envelopeTree_inj signedInputTree_def manifestStrategyTree_inj placementTree_inj
        constraints_inj toCanonicalManifestStrategy_def)
qed



text \<open>
  The same for a managed resource, and no signature moves from one kind of intent to the other:
  a malformed specification is refused; a well-formed one has an envelope that determines the
  type, the name, the JSON specification, the validity, the constraints and the generation, and
  that is never the envelope of a deployment with well-formed manifests.
\<close>

theorem managed_envelope_binds_intent:
  "case BuildManagedResourceEnvelope rt rn spec v cs g of
     Inl e \<Rightarrow> \<not> rawOK spec
   | Inr e \<Rightarrow> rawOK spec \<and>
       (BuildManagedResourceEnvelope rt' rn' spec' v' cs' g' = Inr e \<longrightarrow>
          rt = rt' \<and> rn = rn' \<and> rawTree spec = rawTree spec' \<and> unixSeconds v = unixSeconds v' \<and>
          mset cs = mset cs' \<and> g = g') \<and>
       (wellFormedManifests ms \<longrightarrow> BuildSignedInputEnvelope name ms ps v' cs' g' \<noteq> Inr e)"
proof -
  have doc: "\<exists>e. BuildManagedResourceEnvelope rt rn spec v cs g = Inr e \<and>
      spells (envelopeTree (managedResourceTree rt rn spec) (marshalOutputConstraints (toCanonicalConstraints cs)) v g) e"
    if "rawOK spec" for rt rn spec v cs g
    using managed_resource_spells [OF that] unfolding BuildManagedResourceEnvelope_def by blast
  have bad: "\<exists>e. BuildManagedResourceEnvelope rt rn spec v cs g = Inl e" if "\<not> rawOK spec" for rt rn spec v cs g
    using that by (auto simp: BuildManagedResourceEnvelope_def canonicalManagedResourceEnvelope_def
        managedContentText_def dest: rawOK_encodeRaw split: sum.split)
  have separate: "envelopeTree (managedResourceTree rt rn spec) ds u h \<noteq> envelopeTree (signedInputTree name cms cps) ds' u' h'"
    for cms cps ds u h ds' u' h'
    by (simp add: envelopeTree_inj managedResourceTree_def signedInputTree_def)
  show ?thesis
  proof (cases "rawOK spec")
    case False
    then show ?thesis using bad [OF False, of rt rn v cs g] by auto
  next
    case True
    then obtain e where e: "BuildManagedResourceEnvelope rt rn spec v cs g = Inr e"
      and tree: "spells (envelopeTree (managedResourceTree rt rn spec) (marshalOutputConstraints (toCanonicalConstraints cs)) v g) e"
      using doc by blast
    have "rt = rt' \<and> rn = rn' \<and> rawTree spec = rawTree spec' \<and> unixSeconds v = unixSeconds v' \<and>
        mset cs = mset cs' \<and> g = g'"
      if same: "BuildManagedResourceEnvelope rt' rn' spec' v' cs' g' = Inr e"
    proof -
      have "rawOK spec'" using bad [of spec' rt' rn' v' cs' g'] same by auto
      with doc [of spec' rt' rn' v' cs' g'] same
      have "spells (envelopeTree (managedResourceTree rt' rn' spec') (marshalOutputConstraints (toCanonicalConstraints cs')) v' g') e"
        by auto
      from spells_unique [OF tree this] show ?thesis
        by (simp add: envelopeTree_inj managedResourceTree_def constraints_inj)
    qed
    moreover have "BuildSignedInputEnvelope name ms ps v' cs' g' \<noteq> Inr e" if "wellFormedManifests ms"
    proof
      assume "BuildSignedInputEnvelope name ms ps v' cs' g' = Inr e"
      then show False
        using signed_input_document [OF that, of name ps v' cs' g'] spells_unique [OF tree] separate by fastforce
    qed
    ultimately show ?thesis using e True by simp
  qed
qed

theorem managed_envelope_binds_intent_witness:
  "\<exists>e. BuildManagedResourceEnvelope ''clusters'' ''c1'' tightRaw sampleTime [] 1 = Inr e \<and>
     BuildManagedResourceEnvelope ''clusters'' ''c1'' spacedRaw sampleTime [] 1 = Inr e \<and>
     rawTree tightRaw = rawTree spacedRaw \<and>
     BuildSignedInputEnvelope ''c1'' (sampleManifests tightRaw) samplePlacement sampleTime [] 1 \<noteq> Inr e"
proof -
  let ?one = "BuildManagedResourceEnvelope ''clusters'' ''c1'' tightRaw sampleTime [] 1"
  let ?two = "BuildManagedResourceEnvelope ''clusters'' ''c1'' spacedRaw sampleTime [] 1"
  have same: "?one = ?two" by code_simp
  have ok: "case ?one of Inl e \<Rightarrow> False | Inr e \<Rightarrow> True" by code_simp
  then obtain e where e: "?one = Inr e" by (cases ?one) auto
  moreover have "wellFormedManifests (sampleManifests tightRaw)" by code_simp
  ultimately show ?thesis
    using managed_envelope_binds_intent [where rt = "''clusters''" and rn = "''c1''" and spec = tightRaw
        and v = sampleTime and cs = "[]" and g = 1 and rt' = "''clusters''" and rn' = "''c1''" and spec' = spacedRaw
        and v' = sampleTime and cs' = "[]" and g' = 1 and ms = "sampleManifests tightRaw" and name = "''c1''"
        and ps = samplePlacement] same by auto
qed

text \<open>
  what the signature leaves open. The envelope does not mention the identifier of a manifest
  nor the intent reference of the strategy, so intents that differ only there share their
  signature; and since the error of marshalling the manifests is discarded, one malformed manifest
  removes all of them: the envelope is the one of a strategy without manifests.
\<close>

theorem envelope_leaves_open:
  "BuildSignedInputEnvelope name
     (ms\<lparr>ms_Manifests := map (\<lambda>m. m\<lparr>mf_id := newID m\<rparr>) (ms_Manifests ms), ms_IntentRef := ref\<rparr>) ps v cs g =
   BuildSignedInputEnvelope name ms ps v cs g \<and>
   (wellFormedManifests ms \<or>
    BuildSignedInputEnvelope name ms ps v cs g = BuildSignedInputEnvelope name (ms\<lparr>ms_Manifests := []\<rparr>) ps v cs g)"
proof -
  have bad: "\<exists>e. manifestDocs ms = Inl e" if "\<exists>m \<in> set ms. \<not> rawOK (cm_Raw m)" for ms
    using that by (induction ms) (fastforce split: sum.split dest: rawOK_encodeRaw)+
  have "marshalManifestStrategy (toCanonicalManifestStrategy ms) =
      marshalManifestStrategy (toCanonicalManifestStrategy (ms\<lparr>ms_Manifests := []\<rparr>))" if "\<not> wellFormedManifests ms"
  proof -
    have "\<exists>m \<in> set (cms_Manifests (toCanonicalManifestStrategy ms)). \<not> rawOK (cm_Raw m)"
      using that by (auto simp: wellFormedManifests_def toCanonicalManifestStrategy_def list_all_iff)
    then obtain e where "manifestDocs (cms_Manifests (toCanonicalManifestStrategy ms)) = Inl e"
      using bad by blast
    then show ?thesis by (simp add: marshalManifestStrategy_def toCanonicalManifestStrategy_def)
  qed
  then have "wellFormedManifests ms \<or>
      BuildSignedInputEnvelope name ms ps v cs g = BuildSignedInputEnvelope name (ms\<lparr>ms_Manifests := []\<rparr>) ps v cs g"
    unfolding BuildSignedInputEnvelope_def canonicalSignedInputEnvelope_def by metis
  then show ?thesis
    by (simp add: BuildSignedInputEnvelope_def toCanonicalManifestStrategy_def comp_def)
qed

end
