(* ===== verification/FS_Verifier.thy ===== *)
theory FS_Verifier
  imports FS_Envelope FS_Evidence
begin

text \<open>
  Signing and verification. The server checks a detached user signature when it records
  provenance (\<^verbatim>\<open>server/internal/domain/provenance_service.go\<close>,
  \<^verbatim>\<open>key_resolver.go\<close>, \<^verbatim>\<open>authn.go\<close>); a delivery agent checks the attestation that
  comes with a delivery (\<^verbatim>\<open>server/internal/attestation/verify.go\<close>,
  \<^verbatim>\<open>identity_token.go\<close>). SHA-256, ECDSA, X.509 and JWT parsing, the key set fetched from the
  issuer and the CEL engine are parameters. The properties say what an accepted attestation
  guarantees, that what the server signs off is accepted, and which deliveries the verifier
  cannot accept.
\<close>

section \<open>Parameters\<close>

text \<open>A \<^verbatim>\<open>crypto.PublicKey\<close> is an ECDSA key or a key of another kind.\<close>

datatype 'k PublicKey = EcdsaKey 'k | OtherKey

record 'k crypto =
  cr_sha256 :: "bytes \<Rightarrow> bytes"
  cr_verifyASN1 :: "'k \<Rightarrow> bytes \<Rightarrow> bytes \<Rightarrow> bool"
  cr_parsePublicKey :: "string \<Rightarrow> 'k PublicKey list result"
  cr_evalCEL :: "string \<Rightarrow> RawToken \<Rightarrow> string result"
  cr_getKeySet :: "string \<Rightarrow> string result"
  cr_parseToken :: "string \<Rightarrow> RawToken \<Rightarrow> Audience list result"
  cr_tokenSubject :: "RawToken \<Rightarrow> string option result"

section \<open>Key registries and authentication methods\<close>

record KeyRegistry =
  kg_ID :: KeyRegistryID
  kg_Type :: string
  kg_Endpoint :: string

record 'k KeyResolver =
  kr_Registries :: "(KeyRegistryID, KeyRegistry) fmap"
  kr_Clients :: "(string, string \<Rightarrow> RegistrySubject \<Rightarrow> 'k PublicKey list result) fmap"

definition BuiltInKeyRegistries :: "(KeyRegistryID, KeyRegistry) fmap" where
  "BuiltInKeyRegistries =
     fmupd ''github.com''
       \<lparr>kg_ID = ''github.com'', kg_Type = ''github'', kg_Endpoint = ''https://api.github.com''\<rparr> fmempty"

definition ResolveKeys :: "'k KeyResolver \<Rightarrow> KeyRegistryID \<Rightarrow> RegistrySubject \<Rightarrow> 'k PublicKey list result" where
  "ResolveKeys r registryID registrySubject =
     (case fmlookup (kr_Registries r) registryID of
        None \<Rightarrow> Inl (Plain (''unknown key registry '' @ quote registryID))
      | Some reg \<Rightarrow>
          (case fmlookup (kr_Clients r) (kg_Type reg) of
             None \<Rightarrow> Inl (Plain (''no client for registry type '' @ quote (kg_Type reg)))
           | Some client \<Rightarrow>
               (case client (kg_Endpoint reg) registrySubject of
                  Inl e \<Rightarrow> Inl (Wrapped (''fetch signing keys from '' @ registryID @ '' for '' @
                                 quote registrySubject @ '': '') e '''')
                | Inr keys \<Rightarrow>
                    if keys = []
                    then Inl (Plain (''no signing keys found for '' @ quote registrySubject @
                           '' in registry '' @ registryID))
                    else Inr keys)))"

definition EvalClaimMapping ::
  "'k crypto \<Rightarrow> RegistrySubjectMapping option \<Rightarrow> RawToken \<Rightarrow> RegistrySubject result" where
  "EvalClaimMapping C mapping rawToken =
     (case mapping of
        None \<Rightarrow> Inl (Plain ''no registry subject mapping configured'')
      | Some m \<Rightarrow> cr_evalCEL C (rm_Expression m) rawToken)"

definition VerifyECDSASignature :: "'k crypto \<Rightarrow> 'k \<Rightarrow> bytes \<Rightarrow> bytes \<Rightarrow> error option" where
  "VerifyECDSASignature C pub doc sig =
     (if cr_verifyASN1 C pub (cr_sha256 C doc) sig then None
      else Some (Plain ''ECDSA signature verification failed''))"

definition HashIntent :: "'k crypto \<Rightarrow> bytes \<Rightarrow> bytes" where
  "HashIntent C envelope = cr_sha256 C envelope"

text \<open>Both packages have the same loop over the keys of a signer.\<close>

fun verifySignatureAgainstKeySet :: "'k crypto \<Rightarrow> bytes \<Rightarrow> bytes \<Rightarrow> 'k PublicKey list \<Rightarrow> error option" where
  "verifySignatureAgainstKeySet C doc sig [] = Some (Plain ''no key in the set verified the signature'')"
| "verifySignatureAgainstKeySet C doc sig (EcdsaKey k # ks) =
     (if VerifyECDSASignature C k doc sig = None then None else verifySignatureAgainstKeySet C doc sig ks)"
| "verifySignatureAgainstKeySet C doc sig (OtherKey # ks) = verifySignatureAgainstKeySet C doc sig ks"

section \<open>Recording provenance\<close>

record 'k ProvenanceService =
  pv_KeyResolver :: "'k KeyResolver"
  pv_AuthMethods :: "AuthMethod list result"

definition loadOIDCConfig :: "'k ProvenanceService \<Rightarrow> OIDCConfig result" where
  "loadOIDCConfig s =
     (case pv_AuthMethods s of
        Inl e \<Rightarrow> Inl (Wrapped ''list auth methods: '' e '''')
      | Inr methods \<Rightarrow>
          (case find (\<lambda>m. am_authType m = ''oidc'' \<and> am_oidcConfig m \<noteq> None) methods of
             None \<Rightarrow> Inl (Plain ''no OIDC auth method configured'')
           | Some m \<Rightarrow> Inr (the (am_oidcConfig m))))"

definition resolveSigningKeys ::
  "'k crypto \<Rightarrow> 'k ProvenanceService \<Rightarrow> SignerEnrollment \<Rightarrow> 'k PublicKey list result" where
  "resolveSigningKeys C s enrollment =
     (if en_registryID enrollment = ''oidc'' then
        (case loadOIDCConfig s of
           Inl e \<Rightarrow> Inl e
         | Inr oidcConfig \<Rightarrow>
             if oi_PublicKeyClaimExpression oidcConfig = ''''
             then Inl (Plain ''OIDC auth method has no public_key_claim_expression configured'')
             else case cr_evalCEL C (oi_PublicKeyClaimExpression oidcConfig) (en_identityToken enrollment) of
                    Inl e \<Rightarrow> Inl (Wrapped ''evaluate public key claim: '' e '''')
                  | Inr base64Key \<Rightarrow> cr_parsePublicKey C base64Key)
      else ResolveKeys (pv_KeyResolver s) (en_registryID enrollment) (en_registrySubject enrollment))"

definition invalidArgument :: "string \<Rightarrow> error" where
  "invalidArgument msg = Wrapped '''' (Sentinel ErrInvalidArgument) ('': '' @ msg)"

definition loadEnrollment :: "go_time \<Rightarrow> SubjectClaims option \<Rightarrow> SignerEnrollment io" where
  "loadEnrollment now caller =
     (case caller of
        None \<Rightarrow> throw (invalidArgument ''caller identity required for provenance'')
      | Some c \<Rightarrow>
          andThen (wrap ''list signer enrollments: ''
                    (reads (\<lambda>s. Inr (enrollmentsListBySubject (sc_Identity c) s))))
            (\<lambda>found.
               case found of
                 [] \<Rightarrow> throw (invalidArgument (''no signer enrollment found for '' @ fi_Subject (sc_Identity c)))
               | enrollment # _ \<Rightarrow>
                   if en_expiresAt enrollment \<noteq> 0 \<and> en_expiresAt enrollment < now
                   then throw (invalidArgument (''signer enrollment '' @ en_id enrollment @ '' has expired''))
                   else ret enrollment))"

text \<open>The part after the envelope has been built, which the two operations share.\<close>

definition provenanceOver ::
  "'k crypto \<Rightarrow> 'k ProvenanceService \<Rightarrow> SubjectClaims option \<Rightarrow> SignerEnrollment \<Rightarrow> bytes \<Rightarrow> InputContent \<Rightarrow>
     Generation \<Rightarrow> bytes \<Rightarrow> go_time \<Rightarrow> Provenance result" where
  "provenanceOver C s caller enrollment envelopeBytes content generation userSig validUntil =
     (case resolveSigningKeys C s enrollment of
        Inl e \<Rightarrow> Inl (Wrapped ''resolve signing keys: '' e '''')
      | Inr keys \<Rightarrow>
          (case verifySignatureAgainstKeySet C envelopeBytes userSig keys of
             Some _ \<Rightarrow> Inl (invalidArgument ''signature verification failed'')
           | None \<Rightarrow>
               (case caller of
                  None \<Rightarrow> Inl (Plain ''runtime error: invalid memory address or nil pointer dereference'')
                | Some c \<Rightarrow>
                    Inr \<lparr>pr_Content = Some content,
                         pr_Sig = \<lparr>sg_Signer = sc_Identity c, sg_ContentHash = HashIntent C envelopeBytes,
                                   sg_SignatureBytes = userSig\<rparr>,
                         pr_ValidUntil = validUntil, pr_ExpectedGeneration = generation,
                         pr_OutputConstraints = []\<rparr>)))"

definition BuildDeploymentProvenance ::
  "'k crypto \<Rightarrow> 'k ProvenanceService \<Rightarrow> go_time \<Rightarrow> SubjectClaims option \<Rightarrow> ResourceName \<Rightarrow>
     ManifestStrategySpec \<Rightarrow> PlacementStrategySpec \<Rightarrow> Generation \<Rightarrow> bytes \<Rightarrow> go_time \<Rightarrow> Provenance io" where
  "BuildDeploymentProvenance C s now caller name ms ps generation userSig validUntil =
     andThen (loadEnrollment now caller) (\<lambda>enrollment.
       case BuildSignedInputEnvelope name ms ps validUntil [] generation of
         Inl e \<Rightarrow> throw (Wrapped ''build signed input envelope: '' e '''')
       | Inr envelopeBytes \<Rightarrow>
           (case provenanceOver C s caller enrollment envelopeBytes
                   (OfDeployment \<lparr>dc_Name = name, dc_ManifestStrategy = ms, dc_PlacementStrategy = ps\<rparr>)
                   generation userSig validUntil of
              Inl e \<Rightarrow> throw e
            | Inr p \<Rightarrow> ret p))"

definition BuildManagedResourceProvenance ::
  "'k crypto \<Rightarrow> 'k ProvenanceService \<Rightarrow> go_time \<Rightarrow> SubjectClaims option \<Rightarrow> ResourceType \<Rightarrow> ResourceName \<Rightarrow>
     bytes \<Rightarrow> Generation \<Rightarrow> bytes \<Rightarrow> go_time \<Rightarrow> Provenance io" where
  "BuildManagedResourceProvenance C s now caller resourceType resourceName spec generation userSig validUntil =
     andThen (loadEnrollment now caller) (\<lambda>enrollment.
       case BuildManagedResourceEnvelope resourceType resourceName spec validUntil [] generation of
         Inl e \<Rightarrow> throw (Wrapped ''build managed resource envelope: '' e '''')
       | Inr envelopeBytes \<Rightarrow>
           (case provenanceOver C s caller enrollment envelopeBytes
                   (OfManagedResource \<lparr>mc_ResourceType = resourceType, mc_ResourceName = resourceName, mc_Spec = spec\<rparr>)
                   generation userSig validUntil of
              Inl e \<Rightarrow> throw e
            | Inr p \<Rightarrow> ret p))"

definition VerifySignature ::
  "'k crypto \<Rightarrow> 'k ProvenanceService \<Rightarrow> go_time \<Rightarrow> SubjectClaims option \<Rightarrow> bytes \<Rightarrow> bytes \<Rightarrow> unit io" where
  "VerifySignature C s now caller doc sig =
     andThen (loadEnrollment now caller) (\<lambda>enrollment.
       case resolveSigningKeys C s enrollment of
         Inl e \<Rightarrow> throw (Wrapped ''resolve signing keys: '' e '''')
       | Inr keys \<Rightarrow>
           (case verifySignatureAgainstKeySet C doc sig keys of
              Some _ \<Rightarrow> throw (invalidArgument ''signature verification failed'')
            | None \<Rightarrow> ret ()))"

section \<open>Comparing JSON values\<close>

text \<open>
  \<^verbatim>\<open>json.Unmarshal\<close> into \<^verbatim>\<open>any\<close>: a number becomes the nearest
  \<^verbatim>\<open>float64\<close> (mantissa and binary exponent, ties to even; a literal that is too large is an
  error), an object becomes a map in which the last of several equal keys wins.
\<close>

datatype go_any =
    ANil
  | ABool bool
  | AFloat int int
  | AString string
  | ASlice "go_any list"
  | AMap "(string \<times> go_any) list"

definition digitsValue :: "string \<Rightarrow> int" where
  "digitsValue ds = fold (\<lambda>c n. 10 * n + (int (code c) - 48)) ds 0"

text \<open>Sign, digits and decimal exponent of a literal.\<close>

definition numberParts :: "string \<Rightarrow> bool \<times> int \<times> int" where
  "numberParts lit =
     (let neg = (case lit of c # _ \<Rightarrow> c = CHR ''-'' | [] \<Rightarrow> False);
          s = (if neg then tl lit else lit);
          ip = takeWhile isDigit s;
          r = dropWhile isDigit s;
          isFrac = (case r of c # _ \<Rightarrow> c = CHR ''.'' | [] \<Rightarrow> False);
          fp = (if isFrac then takeWhile isDigit (tl r) else []);
          r' = (if isFrac then dropWhile isDigit (tl r) else r);
          ex = (case r' of
                  [] \<Rightarrow> 0
                | _ # t \<Rightarrow>
                    (case t of
                       [] \<Rightarrow> 0
                     | c # u \<Rightarrow>
                         if c = CHR ''-'' then - digitsValue u
                         else if c = CHR ''+'' then digitsValue u
                         else digitsValue t))
      in (neg, digitsValue (ip @ fp), ex - int (length fp)))"

function bitLength :: "int \<Rightarrow> int" where
  "bitLength n = (if n \<le> 0 then 0 else 1 + bitLength (n div 2))"
  by pat_completeness auto
termination
  by (relation "measure nat") auto

declare bitLength.simps [simp del]

definition roundHalfEven :: "int \<Rightarrow> int \<Rightarrow> int" where
  "roundHalfEven n d =
     (let q = n div d; r = n mod d in if 2 * r < d \<or> 2 * r = d \<and> even q then q else q + 1)"

definition roundFloat64 :: "int \<Rightarrow> int \<Rightarrow> (int \<times> int) option" where
  "roundFloat64 n d =
     (if n = 0 then Some (0, 0)
      else
        let k = bitLength n - bitLength d;
            atLeast = (if 0 \<le> k then d * 2 ^ nat k \<le> n else d \<le> n * 2 ^ nat (- k));
            lg = (if atLeast then k else k - 1);
            e = max (lg - 52) (- 1074);
            q = (if 0 \<le> e then roundHalfEven n (d * 2 ^ nat e) else roundHalfEven (n * 2 ^ nat (- e)) d);
            (q', e') = (if q = 2 ^ 53 then (2 ^ 52, e + 1) else (q, e))
        in if q' = 0 then Some (0, 0) else if 971 < e' then None else Some (q', e'))"

definition parseFloat :: "string \<Rightarrow> (int \<times> int) option" where
  "parseFloat lit =
     (case numberParts lit of
        (neg, m, e) \<Rightarrow>
          map_option (\<lambda>(q, x). (if neg then - q else q, x))
            (if 0 \<le> e then roundFloat64 (m * 10 ^ nat e) 1 else roundFloat64 m (10 ^ nat (- e))))"

fun toAny :: "json \<Rightarrow> go_any option" where
  "toAny JNull = Some ANil"
| "toAny (JBool b) = Some (ABool b)"
| "toAny (JNumber lit) = map_option (\<lambda>(q, x). AFloat q x) (parseFloat lit)"
| "toAny (JString s) = Some (AString s)"
| "toAny (JArray xs) = map_option ASlice (those (map toAny xs))"
| "toAny (JObject ms) =
     map_option (\<lambda>ps. AMap (sort_key fst (keep_last fst ps)))
       (those (map (\<lambda>m. map_option (Pair (fst m)) (toAny (snd m))) ms))"

definition unmarshalAny :: "bytes \<Rightarrow> go_any option" where
  "unmarshalAny raw = (case decodeJSON raw of None \<Rightarrow> None | Some j \<Rightarrow> toAny j)"

definition jsonEqual :: "bytes \<Rightarrow> bytes \<Rightarrow> bool" where
  "jsonEqual a b =
     (case unmarshalAny a of
        None \<Rightarrow> False
      | Some va \<Rightarrow> (case unmarshalAny b of None \<Rightarrow> False | Some vb \<Rightarrow> va = vb))"

section \<open>The delivery agent's verifier\<close>

record TrustedIssuer =
  ti_JWKSURI :: string
  ti_Audience :: Audience
  ti_PublicKeyClaimExpression :: string
  ti_RegistrySubjectMapping :: "RegistrySubjectMapping option"

record 'k Verifier =
  vf_trustedIssuers :: "(IssuerURL, TrustedIssuer) fmap"
  vf_now :: go_time
  vf_keyResolver :: "'k KeyResolver option"

text \<open>An \<^verbatim>\<open>error\<close> result is \<open>None\<close> for nil; a panic is an error of its own.\<close>

definition nilDereference :: error where
  "nilDereference = Plain ''runtime error: invalid memory address or nil pointer dereference''"

definition verifyGenerationConsistency :: "Generation \<Rightarrow> Generation \<Rightarrow> error option" where
  "verifyGenerationConsistency signed delivery =
     (if signed = 0 then None
      else if signed \<noteq> delivery
      then Some (Plain (''generation mismatch: attestation expected '' @ itoa signed @ '', delivery carries '' @ itoa delivery))
      else None)"

definition verifyIdentityToken :: "'k crypto \<Rightarrow> RawToken \<Rightarrow> TrustedIssuer \<Rightarrow> error option" where
  "verifyIdentityToken C rawToken issuer =
     (case cr_getKeySet C (ti_JWKSURI issuer) of
        Inl e \<Rightarrow> Some (Wrapped (''fetch JWKS for '' @ ti_JWKSURI issuer @ '': '') e '''')
      | Inr keySet \<Rightarrow>
          (case cr_parseToken C keySet rawToken of
             Inl e \<Rightarrow> Some (Wrapped ''parse/verify identity token: '' e '''')
           | Inr aud \<Rightarrow>
               if ti_Audience issuer \<noteq> '''' \<and> ti_Audience issuer \<notin> set aud
               then Some (Plain (''identity token audience does not contain '' @ quote (ti_Audience issuer)))
               else None))"

definition extractSubjectFromToken :: "'k crypto \<Rightarrow> RawToken \<Rightarrow> string result" where
  "extractSubjectFromToken C rawToken =
     (case cr_tokenSubject C rawToken of
        Inl e \<Rightarrow> Inl (Wrapped ''parse token for subject: '' e '''')
      | Inr None \<Rightarrow> Inl (Plain ''token has no sub claim'')
      | Inr (Some sub) \<Rightarrow> Inr sub)"

definition asDeploymentContent :: "InputContent option \<Rightarrow> DeploymentContent result" where
  "asDeploymentContent c =
     (case c of
        Some (OfDeployment v) \<Rightarrow> Inr v
      | Some (OfManagedResource _) \<Rightarrow> Inl (Plain ''expected deployment signed input content, got domain.ManagedResourceContent'')
      | None \<Rightarrow> Inl (Plain ''expected deployment signed input content, got <nil>''))"

definition verifierResolveKeys :: "'k Verifier \<Rightarrow> KeyRegistryID \<Rightarrow> RegistrySubject \<Rightarrow> 'k PublicKey list result" where
  "verifierResolveKeys v registryID registrySubject =
     (case vf_keyResolver v of
        None \<Rightarrow> Inl (Plain ''no key resolver configured'')
      | Some r \<Rightarrow> ResolveKeys r registryID registrySubject)"

text \<open>Steps 1 to 4 of \<^verbatim>\<open>verifySignedInput\<close>: who signed.\<close>

definition verifySigner ::
  "'k crypto \<Rightarrow> FederatedIdentity \<Rightarrow> SignerAssertion \<Rightarrow> TrustedIssuer \<Rightarrow> error option" where
  "verifySigner C signer sa trusted =
     (case verifyIdentityToken C (sa_IdentityToken sa) trusted of
        Some e \<Rightarrow> Some (Wrapped ''identity token verification: '' e '''')
      | None \<Rightarrow>
          (case extractSubjectFromToken C (sa_IdentityToken sa) of
             Inl e \<Rightarrow> Some (Wrapped ''extract identity token subject: '' e '''')
           | Inr sub \<Rightarrow>
               if sub \<noteq> fi_Subject signer
               then Some (Plain (''identity token subject '' @ quote sub @ '' != signer subject '' @ quote (fi_Subject signer)))
               else if ti_RegistrySubjectMapping trusted = None then None
               else (case EvalClaimMapping C (ti_RegistrySubjectMapping trusted) (sa_IdentityToken sa) of
                       Inl e \<Rightarrow> Some (Wrapped ''registry subject derivation: '' e '''')
                     | Inr derived \<Rightarrow>
                         if derived \<noteq> sa_RegistrySubject sa
                         then Some (Plain (''registry subject mismatch: derived '' @ quote derived @ '' != asserted '' @
                                quote (sa_RegistrySubject sa)))
                         else None)))"

text \<open>Step 5: the keys of the signer.\<close>

definition signerKeys ::
  "'k crypto \<Rightarrow> 'k Verifier \<Rightarrow> SignerAssertion \<Rightarrow> TrustedIssuer \<Rightarrow> 'k PublicKey list result" where
  "signerKeys C v sa trusted =
     (if ti_PublicKeyClaimExpression trusted \<noteq> '''' then
        (case cr_evalCEL C (ti_PublicKeyClaimExpression trusted) (sa_IdentityToken sa) of
           Inl e \<Rightarrow> Inl (Wrapped ''extract public key claim from identity token: '' e '''')
         | Inr base64Key \<Rightarrow>
             (case cr_parsePublicKey C base64Key of
                Inl e \<Rightarrow> Inl (Wrapped ''parse public key from identity token: '' e '''')
              | Inr keys \<Rightarrow> Inr keys))
      else (case verifierResolveKeys v (sa_RegistryID sa) (sa_RegistrySubject sa) of
              Inl e \<Rightarrow> Inl (Wrapped ''key resolution: '' e '''')
            | Inr keys \<Rightarrow> Inr keys))"

text \<open>Steps 6 to 8: what was signed, and until when it is valid.\<close>

definition verifySignedContent :: "'k crypto \<Rightarrow> 'k Verifier \<Rightarrow> Provenance \<Rightarrow> 'k PublicKey list \<Rightarrow> error option" where
  "verifySignedContent C v prov keys =
     (case asDeploymentContent (pr_Content prov) of
        Inl e \<Rightarrow> Some (Wrapped ''signed input content: '' e '''')
      | Inr dc \<Rightarrow>
          (case BuildSignedInputEnvelope (dc_Name dc) (dc_ManifestStrategy dc) (dc_PlacementStrategy dc)
                  (pr_ValidUntil prov) (pr_OutputConstraints prov) (pr_ExpectedGeneration prov) of
             Inl e \<Rightarrow> Some (Wrapped ''reconstruct signed input envelope: '' e '''')
           | Inr envelope \<Rightarrow>
               if sg_ContentHash (pr_Sig prov) \<noteq> HashIntent C envelope then Some (Plain ''content hash mismatch'')
               else (case verifySignatureAgainstKeySet C envelope (sg_SignatureBytes (pr_Sig prov)) keys of
                       Some e \<Rightarrow> Some (Wrapped ''signature verification: '' e '''')
                     | None \<Rightarrow>
                         if pr_ValidUntil prov < vf_now v then Some (Plain ''attestation expired'') else None)))"

definition verifySignedInput :: "'k crypto \<Rightarrow> 'k Verifier \<Rightarrow> SignedInput \<Rightarrow> error option" where
  "verifySignedInput C v input =
     (let prov = si_Provenance input; signer = sg_Signer (pr_Sig prov); sa = si_Signer input
      in case fmlookup (vf_trustedIssuers v) (fi_Issuer signer) of
           None \<Rightarrow> Some (Plain (''untrusted issuer: '' @ fi_Issuer signer))
         | Some trusted \<Rightarrow>
             (case verifySigner C signer sa trusted of
                Some e \<Rightarrow> Some e
              | None \<Rightarrow>
                  (case signerKeys C v sa trusted of
                     Inl e \<Rightarrow> Some e
                   | Inr keys \<Rightarrow> verifySignedContent C v prov keys)))"

fun verifyManifests :: "nat \<Rightarrow> Manifest list \<Rightarrow> Manifest list \<Rightarrow> error option" where
  "verifyManifests i (e # es) (a # as) =
     (if mf_type e \<noteq> mf_type a
      then Some (Plain (''manifest['' @ itoa (int i) @ ''] manifest type mismatch: expected '' @ quote (mf_type e) @
             '', got '' @ quote (mf_type a)))
      else if mf_id e \<noteq> mf_id a
      then Some (Plain (''manifest['' @ itoa (int i) @ ''] manifest ID mismatch: expected '' @ quote (mf_id e) @
             '', got '' @ quote (mf_id a)))
      else if \<not> jsonEqual (mf_raw e) (mf_raw a)
      then Some (Plain (''manifest['' @ itoa (int i) @ ''] content mismatch''))
      else verifyManifests (Suc i) es as)"
| "verifyManifests i _ _ = None"

definition verifyPutManifests :: "SignedInput \<Rightarrow> Manifest list option \<Rightarrow> error option" where
  "verifyPutManifests input put =
     (case asDeploymentContent (pr_Content (si_Provenance input)) of
        Inl e \<Rightarrow> Some e
      | Inr dc \<Rightarrow>
          (case put of
             None \<Rightarrow> Some nilDereference
           | Some actual \<Rightarrow>
               (let expected = ms_Manifests (dc_ManifestStrategy dc)
                in if length expected \<noteq> length actual
                   then Some (Plain (''manifest count mismatch: expected '' @ itoa (int (length expected)) @
                          '', got '' @ itoa (int (length actual))))
                   else verifyManifests 0 expected actual)))"

definition verifyRemoveByDeploymentName :: "SignedInput \<Rightarrow> ResourceName option \<Rightarrow> error option" where
  "verifyRemoveByDeploymentName input remove =
     (case asDeploymentContent (pr_Content (si_Provenance input)) of
        Inl e \<Rightarrow> Some e
      | Inr dc \<Rightarrow>
          (case remove of
             None \<Rightarrow> Some nilDereference
           | Some name \<Rightarrow>
               if name \<noteq> dc_Name dc
               then Some (Plain (''remove deployment name mismatch: output '' @ quote name @ '', input '' @ quote (dc_Name dc)))
               else None))"

definition verifyOutput :: "SignedInput \<Rightarrow> DeliveryOutput option \<Rightarrow> error option" where
  "verifyOutput input out =
     (case out of
        Some (PutManifests p) \<Rightarrow> verifyPutManifests input p
      | Some (RemoveByDeploymentName r) \<Rightarrow> verifyRemoveByDeploymentName input r
      | None \<Rightarrow> Some (Plain ''unsupported delivery output type <nil>''))"

definition Verify :: "'k crypto \<Rightarrow> 'k Verifier \<Rightarrow> Attestation \<Rightarrow> Generation \<Rightarrow> error option" where
  "Verify C v att deliveryGen =
     (case verifySignedInput C v (at_Input att) of
        Some e \<Rightarrow> Some (Wrapped ''signed input verification: '' e '''')
      | None \<Rightarrow>
          (case verifyOutput (at_Input att) (at_Output att) of
             Some e \<Rightarrow> Some (Wrapped ''output verification: '' e '''')
           | None \<Rightarrow> verifyGenerationConsistency (pr_ExpectedGeneration (si_Provenance (at_Input att))) deliveryGen))"

section \<open>Lemmas\<close>

lemma keySet_verified:
  "verifySignatureAgainstKeySet C doc sig keys = None \<longleftrightarrow>
   (\<exists>k. EcdsaKey k \<in> set keys \<and> cr_verifyASN1 C k (cr_sha256 C doc) sig)"
proof (induction keys)
  case (Cons key keys)
  then show ?case by (cases key) (auto simp: VerifyECDSASignature_def)
qed simp

lemma jsonEqual_iff: "jsonEqual a b \<longleftrightarrow> unmarshalAny a \<noteq> None \<and> unmarshalAny a = unmarshalAny b"
  by (auto simp: jsonEqual_def split: option.splits)

lemma verifyManifests_iff:
  "length es = length as \<Longrightarrow>
   verifyManifests i es as = None \<longleftrightarrow>
   list_all2 (\<lambda>e a. mf_type e = mf_type a \<and> mf_id e = mf_id a \<and> jsonEqual (mf_raw e) (mf_raw a)) es as"
  by (induction es as arbitrary: i rule: list_induct2) auto

lemma verifyPutManifests_iff:
  "verifyPutManifests input put = None \<longleftrightarrow>
   (\<exists>dc actual. asDeploymentContent (pr_Content (si_Provenance input)) = Inr dc \<and> put = Some actual \<and>
      list_all2 (\<lambda>e a. mf_type e = mf_type a \<and> mf_id e = mf_id a \<and> jsonEqual (mf_raw e) (mf_raw a))
        (ms_Manifests (dc_ManifestStrategy dc)) actual)"
  by (auto simp: verifyPutManifests_def Let_def verifyManifests_iff split: sum.splits option.splits
      dest: list_all2_lengthD)

lemma verifyGeneration_iff: "verifyGenerationConsistency s d = None \<longleftrightarrow> s = 0 \<or> s = d"
  by (simp add: verifyGenerationConsistency_def)

lemma verifySignedContent_iff:
  "verifySignedContent C v prov keys = None \<longleftrightarrow>
   (\<exists>dc e. asDeploymentContent (pr_Content prov) = Inr dc \<and>
      BuildSignedInputEnvelope (dc_Name dc) (dc_ManifestStrategy dc) (dc_PlacementStrategy dc)
        (pr_ValidUntil prov) (pr_OutputConstraints prov) (pr_ExpectedGeneration prov) = Inr e \<and>
      sg_ContentHash (pr_Sig prov) = HashIntent C e \<and>
      verifySignatureAgainstKeySet C e (sg_SignatureBytes (pr_Sig prov)) keys = None \<and>
      vf_now v \<le> pr_ValidUntil prov)"
  by (auto simp: verifySignedContent_def split: sum.splits option.splits if_splits)

lemma verifySignedInput_iff:
  "verifySignedInput C v input = None \<longleftrightarrow>
   (\<exists>trusted keys. fmlookup (vf_trustedIssuers v) (fi_Issuer (sg_Signer (pr_Sig (si_Provenance input)))) = Some trusted \<and>
      verifySigner C (sg_Signer (pr_Sig (si_Provenance input))) (si_Signer input) trusted = None \<and>
      signerKeys C v (si_Signer input) trusted = Inr keys \<and>
      verifySignedContent C v (si_Provenance input) keys = None)"
  by (auto simp: verifySignedInput_def Let_def split: sum.splits option.splits)

lemma Verify_iff:
  "Verify C v att gen = None \<longleftrightarrow>
   verifySignedInput C v (at_Input att) = None \<and> verifyOutput (at_Input att) (at_Output att) = None \<and>
   verifyGenerationConsistency (pr_ExpectedGeneration (si_Provenance (at_Input att))) gen = None"
  by (auto simp: Verify_def split: option.splits)

lemma decodeJSON_Nil [simp]: "decodeJSON [] = None"
  by code_simp

lemma unmarshalAny_tree: "unmarshalAny raw = Some y \<Longrightarrow> rawOK raw \<and> toAny (rawTree raw) = Some y"
  by (cases "raw = []") (auto simp: unmarshalAny_def rawOK_def rawTree_def split: option.splits)

lemma unixSeconds_mono: "s \<le> t \<Longrightarrow> unixSeconds s \<le> unixSeconds t"
  by (simp add: unixSeconds_def zdiv_mono1)

section \<open>Properties\<close>


text \<open>A signer, the server and an agent that agree on keys, for the concrete instances.\<close>

definition demoIdentity :: FederatedIdentity where
  "demoIdentity = \<lparr>fi_Subject = ''alice'', fi_Issuer = ''iss''\<rparr>"

definition demoEnrollment :: SignerEnrollment where
  "demoEnrollment =
     \<lparr>en_id = ''e1'', en_federatedIdentity = demoIdentity, en_identityToken = ''tok'', en_registrySubject = ''alice-gh'',
      en_registryID = ''github.com'', en_createdAt = 0, en_expiresAt = 0\<rparr>"

definition demoEnvelope :: bytes where
  "demoEnvelope = projr (BuildSignedInputEnvelope ''d'' (sampleManifests tightRaw) samplePlacement sampleTime [] 1)"

definition demoCrypto :: "unit crypto" where
  "demoCrypto =
     \<lparr>cr_sha256 = (\<lambda>d. d), cr_verifyASN1 = (\<lambda>_ h s. h = demoEnvelope \<and> s = ''sig''),
      cr_parsePublicKey = (\<lambda>_. Inl (Plain ''no key'')), cr_evalCEL = (\<lambda>_ _. Inr ''alice-gh''),
      cr_getKeySet = Inr, cr_parseToken = (\<lambda>_ _. Inr [''fleet'']), cr_tokenSubject = (\<lambda>_. Inr (Some ''alice''))\<rparr>"

definition demoResolver :: "unit KeyResolver" where
  "demoResolver =
     \<lparr>kr_Registries = BuiltInKeyRegistries,
      kr_Clients = fmupd ''github'' (\<lambda>_ _. Inr [OtherKey, EcdsaKey ()]) fmempty\<rparr>"

definition demoTrusted :: TrustedIssuer where
  "demoTrusted =
     \<lparr>ti_JWKSURI = ''jwks'', ti_Audience = ''fleet'', ti_PublicKeyClaimExpression = '''',
      ti_RegistrySubjectMapping = Some \<lparr>rm_RegistryID = ''github.com'', rm_Expression = ''claims.gh''\<rparr>\<rparr>"

definition demoVerifier :: "unit Verifier" where
  "demoVerifier =
     \<lparr>vf_trustedIssuers = fmupd ''iss'' demoTrusted fmempty, vf_now = sampleTime, vf_keyResolver = Some demoResolver\<rparr>"

definition demoService :: "unit ProvenanceService" where
  "demoService = \<lparr>pv_KeyResolver = demoResolver, pv_AuthMethods = Inr []\<rparr>"

definition demoCaller :: SubjectClaims where
  "demoCaller = \<lparr>sc_Identity = demoIdentity, sc_Extra = fmempty\<rparr>"

definition demoProvenance :: Provenance where
  "demoProvenance =
     \<lparr>pr_Content = Some (OfDeployment \<lparr>dc_Name = ''d'', dc_ManifestStrategy = sampleManifests tightRaw,
                                      dc_PlacementStrategy = samplePlacement\<rparr>),
      pr_Sig = \<lparr>sg_Signer = demoIdentity, sg_ContentHash = demoEnvelope, sg_SignatureBytes = ''sig''\<rparr>,
      pr_ValidUntil = sampleTime, pr_ExpectedGeneration = 1, pr_OutputConstraints = []\<rparr>"

definition demoAttestation :: "DeliveryOutput \<Rightarrow> Attestation" where
  "demoAttestation out =
     \<lparr>at_Input = \<lparr>si_Provenance = demoProvenance, si_Signer = assertionOf demoEnrollment\<rparr>,
      at_SignedRelation = None, at_Output = Some out\<rparr>"


subsection \<open>What the server attests is accepted\<close>

lemma built_provenance:
  assumes "BuildDeploymentProvenance C s now caller name ms ps g userSig u w = (Inr prov, w')"
  shows "\<exists>enrollment c e keys. loadEnrollment now caller w = (Inr enrollment, w') \<and> caller = Some c \<and>
    BuildSignedInputEnvelope name ms ps u [] g = Inr e \<and> resolveSigningKeys C s enrollment = Inr keys \<and>
    verifySignatureAgainstKeySet C e userSig keys = None \<and>
    prov = \<lparr>pr_Content = Some (OfDeployment \<lparr>dc_Name = name, dc_ManifestStrategy = ms, dc_PlacementStrategy = ps\<rparr>),
            pr_Sig = \<lparr>sg_Signer = sc_Identity c, sg_ContentHash = HashIntent C e, sg_SignatureBytes = userSig\<rparr>,
            pr_ValidUntil = u, pr_ExpectedGeneration = g, pr_OutputConstraints = []\<rparr>"
  using assms
  by (auto simp: BuildDeploymentProvenance_def provenanceOver_def andThen_def throw_def ret_def
      split: prod.splits sum.splits option.splits)

text \<open>
  C7: what the server attests, an agent with the same trust accepts. Let the server record
  provenance for a signed deployment, and let an agent trust the issuer, accept the signer's
  identity token and resolve the same keys. Then, while the signature is valid, the agent accepts
  the delivery of all the manifests at the signed generation, provided each is JSON, and the
  removal at that generation.
\<close>

theorem server_attestation_accepted:
  assumes built: "BuildDeploymentProvenance C s now caller name ms ps g userSig u w = (Inr prov, w')"
    and enrolled: "loadEnrollment now caller w = (Inr enrollment, w')"
    and f: "f_provenance f = Some prov" "ev_SignerAssertion ev = Some (assertionOf enrollment)"
    and trust: "fmlookup (vf_trustedIssuers v) (fi_Issuer (sg_Signer (pr_Sig prov))) = Some trusted"
      "verifySigner C (sg_Signer (pr_Sig prov)) (assertionOf enrollment) trusted = None"
      "\<And>keys. resolveSigningKeys C s enrollment = Inr keys \<Longrightarrow> signerKeys C v (assertionOf enrollment) trusted = Inr keys"
    and valid: "vf_now v \<le> u" "\<forall>m \<in> set (ms_Manifests ms). unmarshalAny (mf_raw m) \<noteq> None"
  shows "\<exists>deliver remove.
    AssembleDeliverAttestation f (ms_Manifests ms) ev = Some deliver \<and> Verify C v deliver g = None \<and>
    assembleRemoveAttestation f ev = Some remove \<and> Verify C v remove g = None"
proof -
  let ?input = "\<lparr>si_Provenance = prov, si_Signer = assertionOf enrollment\<rparr>"
  obtain enr c e keys where enr: "loadEnrollment now caller w = (Inr enr, w')" "caller = Some c"
    and e: "BuildSignedInputEnvelope name ms ps u [] g = Inr e"
    and keys: "resolveSigningKeys C s enr = Inr keys" "verifySignatureAgainstKeySet C e userSig keys = None"
    and prov: "prov = \<lparr>pr_Content = Some (OfDeployment \<lparr>dc_Name = name, dc_ManifestStrategy = ms, dc_PlacementStrategy = ps\<rparr>),
            pr_Sig = \<lparr>sg_Signer = sc_Identity c, sg_ContentHash = HashIntent C e, sg_SignatureBytes = userSig\<rparr>,
            pr_ValidUntil = u, pr_ExpectedGeneration = g, pr_OutputConstraints = []\<rparr>"
    using built_provenance [OF built] by blast
  from enr enrolled have "enr = enrollment" by simp
  then have "verifySignedInput C v ?input = None"
    using trust(1,2) trust(3) keys e valid(1)
    by (auto simp: verifySignedInput_iff verifySignedContent_iff prov asDeploymentContent_def)
  moreover have "verifyOutput ?input (Some (PutManifests (Some (ms_Manifests ms)))) = None"
    using valid(2) by (auto simp: verifyOutput_def verifyPutManifests_iff prov asDeploymentContent_def jsonEqual_iff list_all2_same)
  moreover have "verifyOutput ?input (Some (RemoveByDeploymentName (Some name))) = None"
    by (simp add: verifyOutput_def verifyRemoveByDeploymentName_def prov asDeploymentContent_def)
  ultimately show ?thesis
    using f by (simp add: AssembleDeliverAttestation_def assembleRemoveAttestation_def signedInputOf_def Verify_iff
        verifyGeneration_iff prov)
qed

definition demoWorld :: world where
  "demoWorld = calmWorld (emptyStore\<lparr>t_enrollments := [demoEnrollment]\<rparr>)"

definition demoFulfillment :: Fulfillment where
  "demoFulfillment = NewFulfillment ''f'' zeroAuth (Some demoProvenance) None 0"

definition demoEvidence :: ResolvedEvidence where
  "demoEvidence = \<lparr>ev_SignerAssertion = Some (assertionOf demoEnrollment), ev_SignedRelation = None\<rparr>"

theorem server_attestation_accepted_witness:
  "\<exists>deliver remove.
    AssembleDeliverAttestation demoFulfillment (ms_Manifests (sampleManifests tightRaw)) demoEvidence = Some deliver \<and>
    Verify demoCrypto demoVerifier deliver 1 = None \<and>
    assembleRemoveAttestation demoFulfillment demoEvidence = Some remove \<and>
    Verify demoCrypto demoVerifier remove 1 = None"
proof (rule server_attestation_accepted [where s = demoService and now = sampleTime and caller = "Some demoCaller"
      and name = "''d''" and ps = samplePlacement and userSig = "''sig''" and u = sampleTime and w = demoWorld
      and w' = "demoWorld\<lparr>w_step := 1\<rparr>" and enrollment = demoEnrollment and prov = demoProvenance and trusted = demoTrusted])
  have enrollments: "enrollmentsListBySubject (sc_Identity demoCaller) (w_tx demoWorld) = [demoEnrollment]"
    by (simp add: demoWorld_def calmWorld_def enrollmentsListBySubject_def demoCaller_def demoEnrollment_def)
  have calm: "w_faults demoWorld = (\<lambda>_. None)" "w_step demoWorld = 0" "en_expiresAt demoEnrollment = 0"
    by (simp_all add: demoWorld_def calmWorld_def demoEnrollment_def)
  show load: "loadEnrollment sampleTime (Some demoCaller) demoWorld = (Inr demoEnrollment, demoWorld\<lparr>w_step := 1\<rparr>)"
    using enrollments calm by (simp add: loadEnrollment_def andThen_def wrap_def reads_def infra_def ret_def)
  have env: "BuildSignedInputEnvelope ''d'' (sampleManifests tightRaw) samplePlacement sampleTime [] 1 = Inr demoEnvelope"
    by code_simp
  have "provenanceOver demoCrypto demoService (Some demoCaller) demoEnrollment demoEnvelope
      (OfDeployment \<lparr>dc_Name = ''d'', dc_ManifestStrategy = sampleManifests tightRaw, dc_PlacementStrategy = samplePlacement\<rparr>)
      1 ''sig'' sampleTime = Inr demoProvenance" by code_simp
  with env show "BuildDeploymentProvenance demoCrypto demoService sampleTime (Some demoCaller) ''d'' (sampleManifests tightRaw)
      samplePlacement 1 ''sig'' sampleTime demoWorld = (Inr demoProvenance, demoWorld\<lparr>w_step := 1\<rparr>)"
    by (simp add: BuildDeploymentProvenance_def andThen_def load ret_def)
  show "fmlookup (vf_trustedIssuers demoVerifier) (fi_Issuer (sg_Signer (pr_Sig demoProvenance))) = Some demoTrusted"
    by (simp add: demoVerifier_def demoProvenance_def demoIdentity_def)
  show "verifySigner demoCrypto (sg_Signer (pr_Sig demoProvenance)) (assertionOf demoEnrollment) demoTrusted = None"
    by code_simp
  show "signerKeys demoCrypto demoVerifier (assertionOf demoEnrollment) demoTrusted = Inr keys"
    if "resolveSigningKeys demoCrypto demoService demoEnrollment = Inr keys" for keys
  proof -
    have "signerKeys demoCrypto demoVerifier (assertionOf demoEnrollment) demoTrusted =
        resolveSigningKeys demoCrypto demoService demoEnrollment" by code_simp
    with that show ?thesis by simp
  qed
  show "\<forall>m \<in> set (ms_Manifests (sampleManifests tightRaw)). unmarshalAny (mf_raw m) \<noteq> None" by code_simp
qed (simp_all add: demoFulfillment_def NewFulfillment_def demoEvidence_def demoVerifier_def)

subsection \<open>What no agent accepts\<close>

text \<open>
  C9: the removal of a signed deployment is refused after its deletion. Deleting advances the
  generation but keeps the provenance, which was signed for the generation before; the removal is
  sent with the new generation, and every verifier, whatever it trusts, refuses the attestation
  that goes with it.
\<close>

theorem removal_refused_after_delete:
  assumes "f_generation f = f_loadedGeneration f" "f_provenance f = Some prov"
    and "pr_ExpectedGeneration prov = f_generation f" "f_generation f \<noteq> 0"
    and "assembleRemoveAttestation (TransitionToDeleting auth f) ev = Some att"
  shows "Verify C v att (f_generation (TransitionToDeleting auth f)) \<noteq> None"
proof -
  let ?f = "TransitionToDeleting auth f"
  have "f_provenance ?f = Some prov" "f_generation ?f = i64 (f_generation f + 1)"
    using assms(1,2) by (simp_all add: TransitionToDeleting_def advanceGeneration_def)
  moreover have "i64 (g + 1) \<noteq> g" for g
  proof
    assume g: "i64 (g + 1) = g"
    then have "min_i64 \<le> g" "g \<le> max_i64" using i64_range [of "g + 1"] by simp_all
    with g show False using i64_Suc [of g] i64_overflow by (cases "g = max_i64") auto
  qed
  moreover have "si_Provenance (at_Input att) = prov"
    using assms(5) calculation(1)
    by (auto simp: assembleRemoveAttestation_def signedInputOf_def split: option.splits)
  ultimately show ?thesis
    using assms(3,4) by (simp add: Verify_iff verifyGeneration_iff) metis
qed

definition demoLive :: Fulfillment where
  "demoLive = demoFulfillment\<lparr>f_generation := 1, f_loadedGeneration := 1\<rparr>"

theorem removal_refused_after_delete_witness:
  "\<exists>att. assembleRemoveAttestation (TransitionToDeleting zeroAuth demoLive) demoEvidence = Some att \<and>
     Verify demoCrypto demoVerifier att 1 = None \<and> Verify demoCrypto demoVerifier att 2 \<noteq> None"
proof -
  let ?f = "TransitionToDeleting zeroAuth demoLive"
  let ?att = "demoAttestation (RemoveByDeploymentName (Some ''d''))"
  have f: "f_generation ?f = 2" "f_generation demoLive = f_loadedGeneration demoLive"
      "f_provenance demoLive = Some demoProvenance" "pr_ExpectedGeneration demoProvenance = f_generation demoLive"
      "f_generation demoLive \<noteq> 0"
    by (simp_all add: demoLive_def demoFulfillment_def NewFulfillment_def TransitionToDeleting_def advanceGeneration_def
        i64_def demoProvenance_def)
  have att: "assembleRemoveAttestation ?f demoEvidence = Some ?att"
    by (simp add: assembleRemoveAttestation_def signedInputOf_def demoLive_def demoFulfillment_def NewFulfillment_def
        TransitionToDeleting_def advanceGeneration_def demoEvidence_def demoProvenance_def demoAttestation_def)
  moreover have "Verify demoCrypto demoVerifier ?att 1 = None" by code_simp
  ultimately show ?thesis
    using removal_refused_after_delete [OF f(2-5) att, of demoCrypto demoVerifier] f(1) by auto
qed

text \<open>
  A partial delivery and a managed resource are refused. When a target does not accept the type
  of some signed manifest, the server attests only the manifests that are left, and every verifier
  refuses them because their number differs from the signed one; and every verifier refuses the
  attestation of a managed resource, whose content is not that of a deployment.
\<close>

theorem partial_and_managed_refused:
  assumes "f_provenance f = Some prov" "AssembleDeliverAttestation f (FilterAcceptedManifests target ms) ev = Some att"
    and "case pr_Content prov of
           Some (OfDeployment dc) \<Rightarrow> ms_Manifests (dc_ManifestStrategy dc) = ms \<and>
             FilterAcceptedManifests target ms \<noteq> ms
         | Some (OfManagedResource mc) \<Rightarrow> True
         | None \<Rightarrow> True"
  shows "Verify C v att gen \<noteq> None"
proof
  assume "Verify C v att gen = None"
  moreover have "at_Input att = \<lparr>si_Provenance = prov, si_Signer = si_Signer (at_Input att)\<rparr>"
      "at_Output att = Some (PutManifests (Some (FilterAcceptedManifests target ms)))"
    using assms(1,2) by (auto simp: AssembleDeliverAttestation_def signedInputOf_def split: option.splits)
  ultimately obtain dc where dc: "asDeploymentContent (pr_Content prov) = Inr dc"
    and "length (ms_Manifests (dc_ManifestStrategy dc)) = length (FilterAcceptedManifests target ms)"
    by (auto simp: Verify_iff verifyOutput_def verifyPutManifests_iff dest!: list_all2_lengthD)
      (metis SignedInput.select_convs(1))
  moreover have "FilterAcceptedManifests target ms = ms" if "length ms = length (FilterAcceptedManifests target ms)"
    using that by (auto simp: FilterAcceptedManifests_def filter_id_conv length_filter_less split: if_splits)
      (metis length_filter_less nat_neq_iff)
  ultimately show False
    using assms(3) by (auto simp: asDeploymentContent_def split: option.splits InputContent.splits)
qed

theorem partial_and_managed_refused_witness:
  "\<exists>att. AssembleDeliverAttestation demoFulfillment
       (FilterAcceptedManifests ((bareTarget ''t1'')\<lparr>ti_acceptedManifestTypes := [''helm'']\<rparr>)
          (ms_Manifests (sampleManifests tightRaw))) demoEvidence = Some att \<and>
     Verify demoCrypto demoVerifier att 1 \<noteq> None"
proof -
  let ?t = "(bareTarget ''t1'')\<lparr>ti_acceptedManifestTypes := [''helm'']\<rparr>"
  let ?ms = "ms_Manifests (sampleManifests tightRaw)"
  have prov: "f_provenance demoFulfillment = Some demoProvenance"
    by (simp add: demoFulfillment_def NewFulfillment_def)
  then obtain att where att: "AssembleDeliverAttestation demoFulfillment (FilterAcceptedManifests ?t ?ms) demoEvidence = Some att"
    by (simp add: AssembleDeliverAttestation_def signedInputOf_def demoEvidence_def)
  have "case pr_Content demoProvenance of
      Some (OfDeployment dc) \<Rightarrow> ms_Manifests (dc_ManifestStrategy dc) = ?ms \<and> FilterAcceptedManifests ?t ?ms \<noteq> ?ms
    | Some (OfManagedResource mc) \<Rightarrow> True | None \<Rightarrow> True"
    by (simp add: demoProvenance_def sampleManifests_def FilterAcceptedManifests_def)
  from partial_and_managed_refused [OF prov att this, of demoCrypto demoVerifier 1] att show ?thesis by blast
qed

end
