(* ===== verification/FS_Workflows.thy ===== *)
theory FS_Workflows
  imports FS_Verifier FS_Etag
begin

text \<open>
  The mutation workflows of a deployment: create (\<^verbatim>\<open>create_deployment.go\<close>), delete
  (\<^verbatim>\<open>delete_deployment.go\<close>), resume (\<^verbatim>\<open>resume_deployment.go\<close>), the convergence loop
  they end with (\<^verbatim>\<open>mutation_workflow.go\<close>), the clean-up that removes the rows at the end
  (\<^verbatim>\<open>delete_cleanup.go\<close>), and the service in front of them
  (\<^verbatim>\<open>application/deployment_service.go\<close>). The properties: what each workflow commits, that it
  is all or nothing, that a stale request changes nothing, that a resumed deployment is signed for
  the generation it gets, and when the convergence loop ends.
\<close>

section \<open>Creating a deployment\<close>

record CreateDeploymentInput =
  ci_Name :: ResourceName
  ci_ManifestStrategy :: ManifestStrategySpec
  ci_PlacementStrategy :: PlacementStrategySpec
  ci_RolloutStrategy :: "RolloutStrategySpec option"
  ci_Auth :: DeliveryAuth
  ci_Provenance :: "Provenance option"
  ci_UserSignature :: bytes
  ci_ValidUntil :: go_time

text \<open>A fulfillment built in the transaction that creates it, with the first version of each strategy.\<close>

definition freshFulfillment ::
  "FulfillmentID \<Rightarrow> DeliveryAuth \<Rightarrow> Provenance option \<Rightarrow> AttestationRef option \<Rightarrow> ManifestStrategySpec \<Rightarrow>
     PlacementStrategySpec \<Rightarrow> RolloutStrategySpec option \<Rightarrow> go_time \<Rightarrow> Fulfillment" where
  "freshFulfillment fID auth prov ref ms ps rs now =
     AdvanceRolloutStrategy rs now
       (AdvancePlacementStrategy ps now
         (AdvanceManifestStrategy ms now
           (NewFulfillment fID auth prov ref now)))"

definition newDeploymentFulfillment :: "FulfillmentID \<Rightarrow> go_time \<Rightarrow> CreateDeploymentInput \<Rightarrow> Fulfillment" where
  "newDeploymentFulfillment fID now inp =
     freshFulfillment fID (ci_Auth inp) (ci_Provenance inp) None (ci_ManifestStrategy inp) (ci_PlacementStrategy inp)
       (ci_RolloutStrategy inp) now"

definition PersistDeployment :: "go_time \<Rightarrow> CreateDeploymentInput \<Rightarrow> DeploymentView io" where
  "PersistDeployment now inp =
     andThen Begin (\<lambda>_.
     andThen newUUID (\<lambda>uid.
     andThen newUUID (\<lambda>fID.
     let f = newDeploymentFulfillment fID now inp;
         dep = NewDeployment (ci_Name inp) uid fID now
     in andThen (writes (fulfillmentsCreate f)) (\<lambda>_.
        andThen (writes (deploymentsCreate dep)) (\<lambda>_.
        andThen (wrap ''commit: '' Commit) (\<lambda>_.
        ret \<lparr>dv_Deployment = dep, dv_Fulfillment = f\<rparr>))))))"

definition StartOrchestration :: "FulfillmentID \<Rightarrow> unit io" where
  "StartOrchestration i = startWorkflow (OrchestrationStarted i)"

text \<open>What is left of a view after the JSON round trip between an activity and its workflow.\<close>

definition decodedView :: "DeploymentView \<Rightarrow> DeploymentView" where
  "decodedView v = v\<lparr>dv_Fulfillment := reloaded (dv_Fulfillment v)\<rparr>"

definition createDeploymentRun :: "go_time \<Rightarrow> CreateDeploymentInput \<Rightarrow> DeploymentView io" where
  "createDeploymentRun now inp =
     andThen (wrap ''persist deployment: '' (RunActivity (PersistDeployment now inp))) (\<lambda>out.
     let view = decodedView out
     in andThen (wrap ''start orchestration: '' (RunActivity (StartOrchestration (f_id (dv_Fulfillment view))))) (\<lambda>_.
        ret view))"

section \<open>Convergence\<close>

record deploymentMutationResult =
  mut_View :: DeploymentView
  mut_FulfillmentID :: FulfillmentID
  mut_MyGen :: Generation

definition LoadFulfillment :: "FulfillmentID \<Rightarrow> Fulfillment option io" where
  "LoadFulfillment i =
     andThen (beginTx ''begin tx: '') (\<lambda>_.
     andThen (caught (reads (fulfillmentsGet i))) (\<lambda>r.
     case r of
       Inl e \<Rightarrow> if errorsIs e ErrNotFound then ret None else throw e
     | Inr f \<Rightarrow> andThen EndReadOnly (\<lambda>_. ret (Some f))))"

text \<open>
  The loop may go on as long as the engine answers that another instance is running; the fuel
  bounds the rounds, and \<open>None\<close> is a loop that has not ended within them.
\<close>

fun convergenceLoop :: "nat \<Rightarrow> FulfillmentID \<Rightarrow> Generation \<Rightarrow> bool \<Rightarrow> world \<Rightarrow> unit result option \<times> world" where
  "convergenceLoop 0 i myGen missingMeansDone w = (None, w)"
| "convergenceLoop (Suc n) i myGen missingMeansDone w =
     (case RunActivity (LoadFulfillment i) w of
        (Inl e, w1) \<Rightarrow> (Some (Inl (Wrapped ''load fulfillment for convergence: '' e '''')), w1)
      | (Inr None, w1) \<Rightarrow>
          if missingMeansDone then (Some (Inr ()), w1)
          else (Some (Inl (Wrapped (''fulfillment '' @ quote i @ '': '') (Sentinel ErrNotFound) '''')), w1)
      | (Inr (Some f), w1) \<Rightarrow>
          if myGen \<le> f_observedGeneration f then (Some (Inr ()), w1)
          else if myGen < f_generation f then (Some (Inr ()), w1)
          else
            (case startWorkflow (OrchestrationStarted i) w1 of
               (Inr _, w2) \<Rightarrow> (Some (Inr ()), w2)
             | (Inl e, w2) \<Rightarrow>
                 if \<not> errorsIs e ErrAlreadyRunning then (Some (Inl (Wrapped ''start orchestration: '' e '''')), w2)
                 else
                   (case Sleep w2 of
                      (Inl e', w3) \<Rightarrow> (Some (Inl (Wrapped ''durable sleep: '' e' '''')), w3)
                    | (Inr _, w3) \<Rightarrow> convergenceLoop n i myGen missingMeansDone w3)))"

text \<open>A workflow body that ends with the loop; \<open>None\<close> when the loop is still going.\<close>

definition convergeThen :: "nat \<Rightarrow> FulfillmentID \<Rightarrow> Generation \<Rightarrow> bool \<Rightarrow> 'v \<Rightarrow> world \<Rightarrow> 'v result option \<times> world" where
  "convergeThen fuel i myGen missingMeansDone view w =
     (case convergenceLoop fuel i myGen missingMeansDone w of
        (None, w') \<Rightarrow> (None, w')
      | (Some (Inl e), w') \<Rightarrow> (Some (Inl e), w')
      | (Some (Inr _), w') \<Rightarrow> (Some (Inr view), w'))"

definition mutationResult :: "Deployment \<Rightarrow> Fulfillment \<Rightarrow> deploymentMutationResult" where
  "mutationResult dep f =
     \<lparr>mut_View = \<lparr>dv_Deployment = dep, dv_Fulfillment = f\<rparr>, mut_FulfillmentID = dp_fulfillmentID dep,
      mut_MyGen = f_generation f\<rparr>"

definition decodedResult :: "deploymentMutationResult \<Rightarrow> deploymentMutationResult" where
  "decodedResult mr = mr\<lparr>mut_View := decodedView (mut_View mr)\<rparr>"

section \<open>Deleting a deployment\<close>

record DeleteDeploymentInput =
  di_Name :: ResourceName
  di_Auth :: DeliveryAuth

definition MutateToDeleting :: "DeleteDeploymentInput \<Rightarrow> deploymentMutationResult io" where
  "MutateToDeleting inp =
     andThen Begin (\<lambda>_.
     andThen (reads (deploymentsGet (di_Name inp))) (\<lambda>dep.
     andThen (reads (fulfillmentsGet (dp_fulfillmentID dep))) (\<lambda>f.
     let f' = TransitionToDeleting (di_Auth inp) f
     in andThen (wrap ''update fulfillment: '' (writes (fulfillmentsUpdate f'))) (\<lambda>_.
        andThen (wrap ''commit: '' Commit) (\<lambda>_.
        ret (mutationResult dep f'))))))"

definition StartCleanup :: "ResourceName \<Rightarrow> FulfillmentID \<Rightarrow> unit io" where
  "StartCleanup name i =
     andThen (caught (startWorkflow (CleanupStarted name i))) (\<lambda>r.
     case r of
       Inr _ \<Rightarrow> ret ()
     | Inl e \<Rightarrow> if errorsIs e ErrAlreadyRunning then ret () else throw e)"

definition deleteDeploymentRun :: "nat \<Rightarrow> DeleteDeploymentInput \<Rightarrow> world \<Rightarrow> DeploymentView result option \<times> world" where
  "deleteDeploymentRun fuel inp w =
     (case RunActivity (MutateToDeleting inp) w of
        (Inl e, w1) \<Rightarrow> (Some (Inl (Wrapped ''mutate to deleting: '' e '''')), w1)
      | (Inr out, w1) \<Rightarrow>
          (let mr = decodedResult out
           in case RunActivity (StartCleanup (di_Name inp) (mut_FulfillmentID mr)) w1 of
                (Inl e, w2) \<Rightarrow> (Some (Inl (Wrapped ''start cleanup: '' e '''')), w2)
              | (Inr _, w2) \<Rightarrow> convergeThen fuel (mut_FulfillmentID mr) (mut_MyGen mr) True (mut_View mr) w2))"

section \<open>Removing the rows\<close>

definition unlessNotFound :: "string \<Rightarrow> unit io \<Rightarrow> unit io" where
  "unlessNotFound p m =
     andThen (caught m) (\<lambda>r.
     case r of
       Inr _ \<Rightarrow> ret ()
     | Inl e \<Rightarrow> if errorsIs e ErrNotFound then ret () else throw (Wrapped p e ''''))"

definition DeleteDeploymentAndFulfillment :: "ResourceName \<Rightarrow> FulfillmentID \<Rightarrow> unit io" where
  "DeleteDeploymentAndFulfillment name i =
     andThen Begin (\<lambda>_.
     andThen (unlessNotFound ''delete deployment row: '' (writes (deploymentsDelete name))) (\<lambda>_.
     andThen (unlessNotFound ''delete fulfillment row: '' (writes (fulfillmentsDelete i))) (\<lambda>_.
     Commit)))"

text \<open>
  The clean-up workflow: \<open>None\<close> is a workflow still waiting for the signal of its fulfillment.
\<close>

definition cleanupRun :: "ResourceName \<Rightarrow> FulfillmentID \<Rightarrow> world \<Rightarrow> unit result option \<times> world" where
  "cleanupRun name i w =
     (if i \<notin> set (w_cleanups w) then (None, w)
      else case RunActivity (DeleteDeploymentAndFulfillment name i) (w\<lparr>w_cleanups := remove1 i (w_cleanups w)\<rparr>) of
             (Inl e, w') \<Rightarrow> (Some (Inl (Wrapped ''delete deployment and fulfillment: '' e '''')), w')
           | (Inr _, w') \<Rightarrow> (Some (Inr ()), w'))"

section \<open>Resuming a deployment\<close>

record ResumeDeploymentInput =
  rd_Name :: ResourceName
  rd_Auth :: DeliveryAuth
  rd_UserSignature :: bytes
  rd_ValidUntil :: go_time
  rd_Etag :: string
  rd_ExpectedGeneration :: Generation

definition staleError :: "string \<Rightarrow> error" where
  "staleError msg = TerminalErr (Wrapped '''' (Sentinel ErrStaleGeneration) ('': '' @ msg))"

text \<open>
  The guards of the mutation, in the order of the code: what the client sent against the entity tag
  and the generation of the resource as it is.
\<close>

definition refusedAt :: "string \<Rightarrow> Generation \<Rightarrow> string \<Rightarrow> Generation \<Rightarrow> bytes \<Rightarrow> error option" where
  "refusedAt current generation etag expected signature =
     (let nextGen = i64 (generation + 1)
      in if etag \<noteq> '''' \<and> etag \<noteq> current then
           Some (staleError (''etag mismatch (client sent '' @ quote etag @ '', current is '' @ quote current @ '')''))
         else if expected \<noteq> 0 \<and> expected \<noteq> nextGen then
           Some (staleError (''expected_generation mismatch (client sent '' @ itoa expected @
             '', server will produce '' @ itoa nextGen @ '')''))
         else if signature \<noteq> [] \<and> expected = 0 then
           Some (TerminalErr (invalidArgument ''expected_generation is required when user_signature is present''))
         else None)"

definition resumeRefused :: "(bytes \<Rightarrow> bytes) \<Rightarrow> ResumeDeploymentInput \<Rightarrow> DeploymentView \<Rightarrow> error option" where
  "resumeRefused sha256 inp view =
     refusedAt (EtagOf sha256 view) (f_generation (dv_Fulfillment view)) (rd_Etag inp) (rd_ExpectedGeneration inp)
       (rd_UserSignature inp)"

lemma refusedAt_None:
  "refusedAt current g etag expected signature = None \<longleftrightarrow>
     (etag = '''' \<or> etag = current) \<and> (expected = 0 \<or> expected = i64 (g + 1)) \<and> (signature = [] \<or> expected \<noteq> 0)"
  by (auto simp: refusedAt_def Let_def)

definition resumeProvenance ::
  "'k crypto \<Rightarrow> 'k ProvenanceService \<Rightarrow> go_time \<Rightarrow> ResumeDeploymentInput \<Rightarrow> Deployment \<Rightarrow> Fulfillment \<Rightarrow>
     Provenance option io" where
  "resumeProvenance C svc now inp dep f =
     (if f_provenance f \<noteq> None \<or> rd_UserSignature inp \<noteq> [] then
        andThen (wrap ''build provenance: ''
                  (BuildDeploymentProvenance C svc now (da_Caller (rd_Auth inp)) (dp_name dep) (f_manifestStrategy f)
                     (f_placementStrategy f)
                     (if rd_ExpectedGeneration inp = 0 then i64 (f_generation f + 1) else rd_ExpectedGeneration inp)
                     (rd_UserSignature inp) (rd_ValidUntil inp)))
          (\<lambda>p. ret (Some p))
      else ret None)"

definition MutateToResumed ::
  "'k crypto \<Rightarrow> 'k ProvenanceService \<Rightarrow> go_time \<Rightarrow> ResumeDeploymentInput \<Rightarrow> deploymentMutationResult io" where
  "MutateToResumed C svc now inp =
     andThen Begin (\<lambda>_.
     andThen (reads (deploymentsGet (rd_Name inp))) (\<lambda>dep.
     andThen (reads (fulfillmentsGet (dp_fulfillmentID dep))) (\<lambda>f.
     case resumeRefused (cr_sha256 C) inp \<lparr>dv_Deployment = dep, dv_Fulfillment = f\<rparr> of
       Some e \<Rightarrow> throw e
     | None \<Rightarrow>
         andThen (resumeProvenance C svc now inp dep f) (\<lambda>prov.
         case Resume (rd_Auth inp) prov f of
           Inl e \<Rightarrow> throw e
         | Inr f' \<Rightarrow>
             andThen (wrap ''update fulfillment: '' (writes (fulfillmentsUpdate f'))) (\<lambda>_.
             andThen (wrap ''commit: '' Commit) (\<lambda>_.
             ret (mutationResult dep f')))))))"

definition resumeDeploymentRun ::
  "nat \<Rightarrow> 'k crypto \<Rightarrow> 'k ProvenanceService \<Rightarrow> go_time \<Rightarrow> ResumeDeploymentInput \<Rightarrow> world \<Rightarrow>
     DeploymentView result option \<times> world" where
  "resumeDeploymentRun fuel C svc now inp w =
     (case RunActivity (MutateToResumed C svc now inp) w of
        (Inl e, w1) \<Rightarrow> (Some (Inl (Wrapped ''mutate to resumed: '' e '''')), w1)
      | (Inr out, w1) \<Rightarrow>
          (let mr = decodedResult out
           in convergeThen fuel (mut_FulfillmentID mr) (mut_MyGen mr) False (mut_View mr) w1))"

section \<open>The deployment service\<close>

text \<open>
  The authentication result of a request; \<open>None\<close> is an anonymous one. The client and transport
  details that the services do not read are left out.
\<close>

record AuthorizationContext =
  ac_Subject :: "SubjectClaims option"
  ac_Audience :: "Audience list"
  ac_Token :: RawToken

definition callerAuth :: "AuthorizationContext option \<Rightarrow> DeliveryAuth option" where
  "callerAuth ac =
     (case ac of
        None \<Rightarrow> None
      | Some a \<Rightarrow>
          (case ac_Subject a of
             None \<Rightarrow> None
           | Some s \<Rightarrow> Some \<lparr>da_Caller = Some s, da_Audience = ac_Audience a, da_Token = ac_Token a\<rparr>))"

definition createInput ::
  "'k crypto \<Rightarrow> 'k ProvenanceService \<Rightarrow> go_time \<Rightarrow> AuthorizationContext option \<Rightarrow> CreateDeploymentInput \<Rightarrow>
     CreateDeploymentInput io" where
  "createInput C svc now ac inp =
     (let inp1 = (case callerAuth ac of None \<Rightarrow> inp | Some a \<Rightarrow> inp\<lparr>ci_Auth := a\<rparr>)
      in if ci_UserSignature inp = [] then ret inp1
         else case callerAuth ac of
                None \<Rightarrow> throw (invalidArgument ''signing a deployment requires an authenticated caller'')
              | Some a \<Rightarrow>
                  andThen (beginTx ''begin read tx: '') (\<lambda>_.
                  andThen (wrap ''build provenance: ''
                            (BuildDeploymentProvenance C svc now (da_Caller a) (ci_Name inp) (ci_ManifestStrategy inp)
                               (ci_PlacementStrategy inp) 1 (ci_UserSignature inp) (ci_ValidUntil inp))) (\<lambda>prov.
                  andThen (wrap ''commit read tx: '' EndReadOnly) (\<lambda>_.
                  ret (inp1\<lparr>ci_Provenance := Some prov\<rparr>)))))"

definition serviceCreate ::
  "'k crypto \<Rightarrow> 'k ProvenanceService \<Rightarrow> go_time \<Rightarrow> AuthorizationContext option \<Rightarrow> CreateDeploymentInput \<Rightarrow>
     DeploymentView io" where
  "serviceCreate C svc now ac inp =
     andThen (createInput C svc now ac inp) (\<lambda>inp'.
     andThen (wrap ''start create-deployment workflow: '' (startWorkflow (CreateStarted (ci_Name inp')))) (\<lambda>_.
     wrap ''create-deployment workflow: '' (createDeploymentRun now inp')))"

definition serviceGet :: "ResourceName \<Rightarrow> DeploymentView io" where
  "serviceGet name =
     andThen (beginTx ''begin tx: '') (\<lambda>_.
     andThen (reads (deploymentsGetView name)) (\<lambda>view.
     andThen EndReadOnly (\<lambda>_. ret view)))"

text \<open>The inner join of the list query leaves out a deployment without its fulfillment.\<close>

definition deploymentsListView :: "store \<Rightarrow> DeploymentView list" where
  "deploymentsListView s =
     List.map_filter
       (\<lambda>d. case fulfillmentsGet (dp_fulfillmentID d) s of
              Inl _ \<Rightarrow> None | Inr f \<Rightarrow> Some \<lparr>dv_Deployment = d, dv_Fulfillment = f\<rparr>)
       (t_deployments s)"

definition serviceList :: "DeploymentView list io" where
  "serviceList =
     andThen (beginTx ''begin tx: '') (\<lambda>_.
     andThen (reads (\<lambda>s. Inr (deploymentsListView s))) (\<lambda>views.
     andThen EndReadOnly (\<lambda>_. ret views)))"

text \<open>The read that resume and delete start with.\<close>

definition readDeployment :: "ResourceName \<Rightarrow> (Deployment \<times> Fulfillment) io" where
  "readDeployment name =
     andThen (beginTx ''begin read tx: '') (\<lambda>_.
     andThen (reads (deploymentsGet name)) (\<lambda>dep.
     andThen (reads (fulfillmentsGet (dp_fulfillmentID dep))) (\<lambda>f.
     andThen (wrap ''commit read tx: '' EndReadOnly) (\<lambda>_. ret (dep, f)))))"

definition resultWrap :: "string \<Rightarrow> 'a result option \<times> world \<Rightarrow> 'a result option \<times> world" where
  "resultWrap p r =
     (case r of
        (Some (Inl e), w) \<Rightarrow> (Some (Inl (Wrapped p e '''')), w)
      | other \<Rightarrow> other)"

record ResumeInput =
  rs_Name :: ResourceName
  rs_UserSignature :: bytes
  rs_ValidUntil :: go_time
  rs_Etag :: string
  rs_ExpectedGeneration :: Generation

definition serviceResume ::
  "nat \<Rightarrow> 'k crypto \<Rightarrow> 'k ProvenanceService \<Rightarrow> go_time \<Rightarrow> AuthorizationContext option \<Rightarrow> ResumeInput \<Rightarrow> world \<Rightarrow>
     DeploymentView result option \<times> world" where
  "serviceResume fuel C svc now ac inp w =
     (case callerAuth ac of
        None \<Rightarrow> (Some (Inl (invalidArgument ''resuming a deployment requires an authenticated caller'')), w)
      | Some auth \<Rightarrow>
          (case readDeployment (rs_Name inp) w of
             (Inl e, w1) \<Rightarrow> (Some (Inl e), w1)
           | (Inr (dep, f), w1) \<Rightarrow>
               (case startWorkflow (ResumeStarted (rs_Name inp) (f_generation f)) w1 of
                  (Inl e, w2) \<Rightarrow> (Some (Inl (Wrapped ''start resume-deployment workflow: '' e '''')), w2)
                | (Inr _, w2) \<Rightarrow>
                    resultWrap ''resume-deployment workflow: ''
                      (resumeDeploymentRun fuel C svc now
                         \<lparr>rd_Name = rs_Name inp, rd_Auth = auth, rd_UserSignature = rs_UserSignature inp,
                          rd_ValidUntil = rs_ValidUntil inp, rd_Etag = rs_Etag inp,
                          rd_ExpectedGeneration = rs_ExpectedGeneration inp\<rparr> w2))))"

definition serviceDelete ::
  "nat \<Rightarrow> AuthorizationContext option \<Rightarrow> ResourceName \<Rightarrow> world \<Rightarrow> DeploymentView result option \<times> world" where
  "serviceDelete fuel ac name w =
     (let auth = (case callerAuth ac of None \<Rightarrow> zeroAuth | Some a \<Rightarrow> a)
      in case readDeployment name w of
           (Inl e, w1) \<Rightarrow> (Some (Inl e), w1)
         | (Inr (dep, f), w1) \<Rightarrow>
             if f_state f = FulfillmentStateDeleting \<and> \<not> Paused f
             then (Some (Inr \<lparr>dv_Deployment = dep, dv_Fulfillment = f\<rparr>), w1)
             else
               (case startWorkflow (DeleteStarted name (f_generation f)) w1 of
                  (Inl e, w2) \<Rightarrow> (Some (Inl (Wrapped ''start delete-deployment workflow: '' e '''')), w2)
                | (Inr _, w2) \<Rightarrow>
                    resultWrap ''delete-deployment workflow: ''
                      (deleteDeploymentRun fuel \<lparr>di_Name = name, di_Auth = auth\<rparr> w2)))"

section \<open>What each mutation commits\<close>

definition created :: "go_time \<Rightarrow> CreateDeploymentInput \<Rightarrow> store \<Rightarrow> DeploymentView \<Rightarrow> store \<Rightarrow> bool" where
  "created now inp s view s' \<longleftrightarrow>
     (\<exists>uid fID s1.
        view = \<lparr>dv_Deployment = NewDeployment (ci_Name inp) uid fID now,
                dv_Fulfillment = newDeploymentFulfillment fID now inp\<rparr> \<and>
        fulfillmentsCreate (newDeploymentFulfillment fID now inp) s = Inr s1 \<and>
        deploymentsCreate (NewDeployment (ci_Name inp) uid fID now) s1 = Inr s')"

lemma PersistDeployment_triple:
  "triple (at w) (PersistDeployment now inp)
     (\<lambda>view v. created now inp (dbAtBegin w) view (w_db v) \<and> w_started v = w_started w)
     (\<lambda>_ v. (w_db v = w_db w \<or> w_db v = dbAtBegin w) \<and> w_started v = w_started w)"
  unfolding PersistDeployment_def Let_def created_def
  by (intro run_rules) (auto simp: at_def, blast)

definition deleted :: "DeleteDeploymentInput \<Rightarrow> store \<Rightarrow> deploymentMutationResult \<Rightarrow> store \<Rightarrow> bool" where
  "deleted inp s mr s' \<longleftrightarrow>
     (\<exists>dep f. deploymentsGet (di_Name inp) s = Inr dep \<and> fulfillmentsGet (dp_fulfillmentID dep) s = Inr f \<and>
        mr = mutationResult dep (TransitionToDeleting (di_Auth inp) f) \<and>
        fulfillmentsUpdate (TransitionToDeleting (di_Auth inp) f) s = Inr s')"

lemma MutateToDeleting_triple:
  "triple (at w) (MutateToDeleting inp)
     (\<lambda>mr v. deleted inp (dbAtBegin w) mr (w_db v) \<and> w_started v = w_started w)
     (\<lambda>_ v. (w_db v = w_db w \<or> w_db v = dbAtBegin w) \<and> w_started v = w_started w)"
  unfolding MutateToDeleting_def Let_def deleted_def
  by (intro run_rules) (auto simp: at_def)

text \<open>Building provenance only reads, and it is made for exactly what it was asked for.\<close>

definition provenanceFor ::
  "'k crypto \<Rightarrow> 'k ProvenanceService \<Rightarrow> ResourceName \<Rightarrow> ManifestStrategySpec \<Rightarrow> PlacementStrategySpec \<Rightarrow>
     Generation \<Rightarrow> bytes \<Rightarrow> go_time \<Rightarrow> Provenance \<Rightarrow> bool" where
  "provenanceFor C svc name ms ps g userSig u p \<longleftrightarrow>
     pr_Content p = Some (OfDeployment \<lparr>dc_Name = name, dc_ManifestStrategy = ms, dc_PlacementStrategy = ps\<rparr>) \<and>
     pr_ExpectedGeneration p = g \<and> pr_ValidUntil p = u \<and> sg_SignatureBytes (pr_Sig p) = userSig \<and>
     (\<exists>enrollment e keys. BuildSignedInputEnvelope name ms ps u [] g = Inr e \<and>
        resolveSigningKeys C svc enrollment = Inr keys \<and> verifySignatureAgainstKeySet C e userSig keys = None)"

lemma steps_loadEnrollment: "steps w (loadEnrollment now caller) (\<lambda>_ w'. w' = w)"
  unfolding steps_def loadEnrollment_def
  by (intro run_rules) auto

lemma steps_provenance:
  "steps w (BuildDeploymentProvenance C svc now caller name ms ps g userSig u)
     (\<lambda>p w'. w' = w \<and> provenanceFor C svc name ms ps g userSig u p)"
proof -
  have over: "provenanceFor C svc name ms ps g userSig u p"
    if "BuildSignedInputEnvelope name ms ps u [] g = Inr e"
      "provenanceOver C svc caller enrollment e (OfDeployment \<lparr>dc_Name = name, dc_ManifestStrategy = ms, dc_PlacementStrategy = ps\<rparr>)
         g userSig u = Inr p" for e enrollment p
    using that by (auto simp: provenanceOver_def provenanceFor_def split: sum.splits option.splits)
  show ?thesis
    unfolding steps_def BuildDeploymentProvenance_def
    by (rule then_steps [OF steps_loadEnrollment]) (auto intro!: run_rules intro: over)
qed

definition resumed ::
  "'k crypto \<Rightarrow> 'k ProvenanceService \<Rightarrow> ResumeDeploymentInput \<Rightarrow> store \<Rightarrow> deploymentMutationResult \<Rightarrow> store \<Rightarrow> bool" where
  "resumed C svc inp s mr s' \<longleftrightarrow>
     (\<exists>dep f prov f'. deploymentsGet (rd_Name inp) s = Inr dep \<and> fulfillmentsGet (dp_fulfillmentID dep) s = Inr f \<and>
        resumeRefused (cr_sha256 C) inp \<lparr>dv_Deployment = dep, dv_Fulfillment = f\<rparr> = None \<and>
        (if f_provenance f \<noteq> None \<or> rd_UserSignature inp \<noteq> []
         then \<exists>p. prov = Some p \<and> provenanceFor C svc (dp_name dep) (f_manifestStrategy f) (f_placementStrategy f)
                (i64 (f_generation f + 1)) (rd_UserSignature inp) (rd_ValidUntil inp) p
         else prov = None) \<and>
        Resume (rd_Auth inp) prov f = Inr f' \<and> mr = mutationResult dep f' \<and> fulfillmentsUpdate f' s = Inr s')"

lemma steps_resumeProvenance:
  assumes "resumeRefused (cr_sha256 C) inp \<lparr>dv_Deployment = dep, dv_Fulfillment = f\<rparr> = None"
  shows "steps w (resumeProvenance C svc now inp dep f)
     (\<lambda>prov w'. w' = w \<and>
        (if f_provenance f \<noteq> None \<or> rd_UserSignature inp \<noteq> []
         then \<exists>p. prov = Some p \<and> provenanceFor C svc (dp_name dep) (f_manifestStrategy f) (f_placementStrategy f)
                (i64 (f_generation f + 1)) (rd_UserSignature inp) (rd_ValidUntil inp) p
         else prov = None))"
proof -
  have "(if rd_ExpectedGeneration inp = 0 then i64 (f_generation f + 1) else rd_ExpectedGeneration inp) =
      i64 (f_generation f + 1)"
    using assms by (auto simp: resumeRefused_def refusedAt_None)
  then show ?thesis
    unfolding steps_def resumeProvenance_def
    by (intro triple_if then_steps [OF steps_wrap [OF steps_provenance]]) (auto intro!: run_rules)
qed

lemma MutateToResumed_triple:
  "triple (at w) (MutateToResumed C svc now inp)
     (\<lambda>mr v. resumed C svc inp (dbAtBegin w) mr (w_db v) \<and> w_started v = w_started w)
     (\<lambda>e v. (w_db v = w_db w \<or> w_db v = dbAtBegin w) \<and> w_started v = w_started w)"
proof -
  have body: "triple (at (begun w)) (andThen (resumeProvenance C svc now inp dep f) (\<lambda>prov.
         case Resume (rd_Auth inp) prov f of
           Inl e \<Rightarrow> throw e
         | Inr f' \<Rightarrow>
             andThen (wrap ''update fulfillment: '' (writes (fulfillmentsUpdate f'))) (\<lambda>_.
             andThen (wrap ''commit: '' Commit) (\<lambda>_.
             ret (mutationResult dep f')))))
     (\<lambda>mr v. resumed C svc inp (dbAtBegin w) mr (w_db v) \<and> w_started v = w_started w)
     (\<lambda>e v. (w_db v = w_db w \<or> w_db v = dbAtBegin w) \<and> w_started v = w_started w)"
    if "deploymentsGet (rd_Name inp) (dbAtBegin w) = Inr dep" "fulfillmentsGet (dp_fulfillmentID dep) (dbAtBegin w) = Inr f"
      "resumeRefused (cr_sha256 C) inp \<lparr>dv_Deployment = dep, dv_Fulfillment = f\<rparr> = None" for dep f
    by (rule then_steps [OF steps_resumeProvenance [OF that(3)]], clarify, intro run_rules)
      (use that in \<open>auto simp: at_def resumed_def\<close>)
  show ?thesis
    unfolding MutateToResumed_def by (intro run_rules) (auto simp: at_def intro: body)
qed

section \<open>Reading back what was created\<close>

definition storedFresh :: "Fulfillment \<Rightarrow> Fulfillment" where
  "storedFresh f = (reloaded f)\<lparr>f_createdAt := storedTime (f_createdAt f), f_updatedAt := storedTime (f_updatedAt f)\<rparr>"

definition storedView :: "DeploymentView \<Rightarrow> DeploymentView" where
  "storedView v =
     \<lparr>dv_Deployment = (dv_Deployment v)\<lparr>dp_createdAt := storedTime (dp_createdAt (dv_Deployment v)),
                                         dp_updatedAt := storedTime (dp_updatedAt (dv_Deployment v))\<rparr>,
      dv_Fulfillment = storedFresh (dv_Fulfillment v)\<rparr>"

lemma i64_one: "i64 1 = 1"
  by (simp add: i64_def)

lemma freshFulfillment_fields [simp]:
  "f_id (freshFulfillment fID auth prov ref ms ps rs now) = fID"
  "f_generation (freshFulfillment fID auth prov ref ms ps rs now) = 1"
  "f_observedGeneration (freshFulfillment fID auth prov ref ms ps rs now) = 0"
  "f_state (freshFulfillment fID auth prov ref ms ps rs now) = FulfillmentStateCreating"
  "f_manifestStrategy (freshFulfillment fID auth prov ref ms ps rs now) = ms"
  "f_placementStrategy (freshFulfillment fID auth prov ref ms ps rs now) = ps"
  "f_rolloutStrategy (freshFulfillment fID auth prov ref ms ps rs now) = rs"
  "f_provenance (freshFulfillment fID auth prov ref ms ps rs now) = prov"
  "f_attestationRef (freshFulfillment fID auth prov ref ms ps rs now) = ref"
  "f_auth (freshFulfillment fID auth prov ref ms ps rs now) = auth"
  "f_manifestStrategyVersion (freshFulfillment fID auth prov ref ms ps rs now) = 1"
  "f_placementStrategyVersion (freshFulfillment fID auth prov ref ms ps rs now) = 1"
  "f_rolloutStrategyVersion (freshFulfillment fID auth prov ref ms ps rs now) = 1"
  "f_pendingManifest (freshFulfillment fID auth prov ref ms ps rs now) =
     [\<lparr>mr_FulfillmentID = fID, mr_Version = 1, mr_Spec = ms, mr_CreatedAt = now\<rparr>]"
  "f_pendingPlacement (freshFulfillment fID auth prov ref ms ps rs now) =
     [\<lparr>prr_FulfillmentID = fID, prr_Version = 1, prr_Spec = ps, prr_CreatedAt = now\<rparr>]"
  "f_pendingRollout (freshFulfillment fID auth prov ref ms ps rs now) =
     [\<lparr>ror_FulfillmentID = fID, ror_Version = 1, ror_Spec = rs, ror_CreatedAt = now\<rparr>]"
  by (simp_all add: freshFulfillment_def AdvanceRolloutStrategy_def AdvancePlacementStrategy_def
      AdvanceManifestStrategy_def NewFulfillment_def advanceGeneration_def Let_def i64_one)

lemma getRow_snoc_new: "getRow key k rows = None \<Longrightarrow> key r = k \<Longrightarrow> getRow key k (rows @ [r]) = Some r"
  by (simp add: getRow_append)

lemma getRow_snoc_other: "key r \<noteq> k \<Longrightarrow> getRow key k (rows @ [r]) = getRow key k rows"
  by (simp add: getRow_append split: option.split)

lemma fulfillmentsCreate_get:
  assumes "fulfillmentsCreate (freshFulfillment fID auth prov ref ms ps rs now) s = Inr s1"
  shows "fulfillmentsGet fID s1 = Inr (storedFresh (freshFulfillment fID auth prov ref ms ps rs now))"
    and "fulfillmentRow fID s = None" and "t_deployments s1 = t_deployments s"
    and "\<And>i. i \<noteq> fID \<Longrightarrow> fulfillmentsGet i s1 = fulfillmentsGet i s"
proof -
  let ?f = "freshFulfillment fID auth prov ref ms ps rs now"
  from assms have new: "fulfillmentRow fID s = None"
      "getRow manifestKey (fID, 1) (t_manifestStrategies s) = None"
      "getRow placementKey (fID, 1) (t_placementStrategies s) = None"
      "getRow rolloutKey (fID, 1) (t_rolloutStrategies s) = None"
    and s1: "s1 = s\<lparr>t_fulfillments := t_fulfillments s @ [storedFulfillment (storedTime (f_createdAt ?f)) ?f],
      t_manifestStrategies := t_manifestStrategies s @ map stampManifest (f_pendingManifest ?f),
      t_placementStrategies := t_placementStrategies s @ map stampPlacement (f_pendingPlacement ?f),
      t_rolloutStrategies := t_rolloutStrategies s @ map stampRollout (f_pendingRollout ?f)\<rparr>"
    by (auto simp: fulfillmentsCreate_def flushPendingStrategyRecords_def fulfillmentSnapshot_def
        manifestKey_def placementKey_def rolloutKey_def split: if_splits)
  have row: "fulfillmentRow fID s1 = Some (storedFulfillment (storedTime (f_createdAt ?f)) ?f)"
    using new(1) unfolding s1 fulfillmentRow_def
    by (simp add: getRow_snoc_new storedFulfillment_def fulfillmentSnapshot_def)
  have specs: "getRow manifestKey (fID, 1) (t_manifestStrategies s1) = Some (stampManifest (hd (f_pendingManifest ?f)))"
      "getRow placementKey (fID, 1) (t_placementStrategies s1) = Some (stampPlacement (hd (f_pendingPlacement ?f)))"
      "getRow rolloutKey (fID, 1) (t_rolloutStrategies s1) = Some (stampRollout (hd (f_pendingRollout ?f)))"
    unfolding s1 using new by (simp_all add: getRow_snoc_new manifestKey_def placementKey_def rolloutKey_def)
  have "FulfillmentFromSnapshot (joinedSnapshot s1 (storedFulfillment (storedTime (f_createdAt ?f)) ?f)) =
      storedFresh ?f"
    by (rule Fulfillment.equality)
      (use specs in \<open>simp_all add: joinedSnapshot_def storedFulfillment_def fulfillmentSnapshot_def
        FulfillmentFromSnapshot_def reloaded_def storedFresh_def\<close>)
  then show "fulfillmentsGet fID s1 = Inr (storedFresh ?f)"
    by (simp add: fulfillmentsGet_def row)
  show "fulfillmentRow fID s = None" by (rule new(1))
  show "t_deployments s1 = t_deployments s" by (simp add: s1)
  show "fulfillmentsGet i s1 = fulfillmentsGet i s" if "i \<noteq> fID" for i
  proof -
    have rows: "fulfillmentRow i s1 = fulfillmentRow i s"
      using that unfolding s1 fulfillmentRow_def
      by (simp add: getRow_snoc_other storedFulfillment_def fulfillmentSnapshot_def)
    have "joinedSnapshot s1 r = joinedSnapshot s r" if "fs_ID r = i" for r
      using that \<open>i \<noteq> fID\<close> unfolding s1
      by (simp add: joinedSnapshot_def getRow_snoc_other manifestKey_def placementKey_def rolloutKey_def)
    then show ?thesis
      unfolding fulfillmentsGet_def rows
      by (auto simp: fulfillmentRow_def dest: getRow_Some split: option.split)
  qed
qed

lemma created_view:
  assumes "created now inp s view s'"
  shows "deploymentsGetView (ci_Name inp) s' = Inr (storedView view)"
    and "deploymentsGet (ci_Name inp) s = notFound"
    and "\<And>n v. deploymentsGetView n s = Inr v \<Longrightarrow> deploymentsGetView n s' = Inr v"
proof -
  from assms obtain uid fID s1 where
      view: "view = \<lparr>dv_Deployment = NewDeployment (ci_Name inp) uid fID now,
                dv_Fulfillment = newDeploymentFulfillment fID now inp\<rparr>"
    and f: "fulfillmentsCreate (newDeploymentFulfillment fID now inp) s = Inr s1"
    and d: "deploymentsCreate (NewDeployment (ci_Name inp) uid fID now) s1 = Inr s'"
    by (auto simp: created_def)
  note get = fulfillmentsCreate_get [OF f [unfolded newDeploymentFulfillment_def]]
  let ?d = "(NewDeployment (ci_Name inp) uid fID now)\<lparr>dp_createdAt := storedTime now, dp_updatedAt := storedTime now\<rparr>"
  from d have free: "getRow dp_name (ci_Name inp) (t_deployments s) = None"
    and s': "s' = s1\<lparr>t_deployments := t_deployments s @ [?d]\<rparr>"
    by (auto simp: deploymentsCreate_def NewDeployment_def get(3) split: if_splits)
  have same: "fulfillmentsGet i s' = fulfillmentsGet i s1" for i
    by (simp add: s' fulfillmentsGet_def fulfillmentRow_def joinedSnapshot_def split: option.split)
  have "getRow dp_name (ci_Name inp) (t_deployments s') = Some ?d"
    using free unfolding s' by (simp add: getRow_snoc_new NewDeployment_def)
  then show "deploymentsGetView (ci_Name inp) s' = Inr (storedView view)"
    using get(1) by (simp add: deploymentsGetView_def same NewDeployment_def view storedView_def newDeploymentFulfillment_def)
  show "deploymentsGet (ci_Name inp) s = notFound" using free by (simp add: deploymentsGet_def orNotFound_def)
  show "deploymentsGetView n s' = Inr v" if v: "deploymentsGetView n s = Inr v" for n v
  proof -
    from v obtain e where e: "getRow dp_name n (t_deployments s) = Some e" "fulfillmentsGet (dp_fulfillmentID e) s \<noteq> notFound"
      by (auto simp: deploymentsGetView_def notFound_def split: option.splits sum.splits)
    with free have "n \<noteq> ci_Name inp" by auto
    then have "getRow dp_name n (t_deployments s') = getRow dp_name n (t_deployments s)"
      unfolding s' by (simp add: getRow_snoc_other NewDeployment_def)
    moreover have "dp_fulfillmentID e \<noteq> fID" using e(2) get(2) by (auto simp: fulfillmentsGet_def)
    ultimately show ?thesis using v e same get(4) by (simp add: deploymentsGetView_def)
  qed
qed

lemma loaded_baseline: "fulfillmentsGet i s = Inr f \<Longrightarrow> f_loadedGeneration f = f_generation f"
  by (auto elim!: fulfillmentsGet_Inr simp: FulfillmentFromSnapshot_def)

section \<open>Properties\<close>

text \<open>
  C10: creating a deployment is all or nothing. The activity either fails and commits nothing of
  its own, or commits a deployment that was not there before: it reads back as the view that is
  returned (times cut to seconds), in state creating, at generation one and not yet observed, with
  the strategies and the provenance of the request; every deployment that was readable before
  reads the same.
\<close>

theorem create_all_or_nothing:
  "case PersistDeployment now inp w of
     (Inl e, w') \<Rightarrow> w_db w' = w_db w \<or> w_db w' = dbAtBegin w
   | (Inr view, w') \<Rightarrow>
       deploymentsGet (ci_Name inp) (dbAtBegin w) = notFound \<and>
       deploymentsGetView (ci_Name inp) (w_db w') = Inr (storedView view) \<and>
       (let f = dv_Fulfillment view
        in f_generation f = 1 \<and> f_observedGeneration f = 0 \<and> f_state f = FulfillmentStateCreating \<and>
           f_manifestStrategy f = ci_ManifestStrategy inp \<and> f_placementStrategy f = ci_PlacementStrategy inp \<and>
           f_rolloutStrategy f = ci_RolloutStrategy inp \<and> f_provenance f = ci_Provenance inp) \<and>
       {v. \<exists>n. deploymentsGetView n (dbAtBegin w) = Inr v} \<subseteq> {v. \<exists>n. deploymentsGetView n (w_db w') = Inr v}"
proof -
  obtain r w' where run: "PersistDeployment now inp w = (r, w')" by (cases "PersistDeployment now inp w")
  show ?thesis
  proof (cases r)
    case (Inl e)
    with run show ?thesis using tripleD_Inl [OF PersistDeployment_triple at_refl, of now inp w e w'] by simp
  next
    case (Inr view)
    then have c: "created now inp (dbAtBegin w) view (w_db w')"
      using run tripleD_Inr [OF PersistDeployment_triple at_refl] by auto
    then obtain fID where "dv_Fulfillment view = newDeploymentFulfillment fID now inp" by (auto simp: created_def)
    with Inr run created_view [OF c] show ?thesis by (auto simp: Let_def newDeploymentFulfillment_def)
  qed
qed

text \<open>
  C11: a resumed deployment is signed for the generation it gets. A resume that succeeds has found a
  matching entity tag and a matching expected generation, where the client sent them; it commits
  the fulfillment with fresh credentials, no reason to pause and the next generation; and if the
  fulfillment carries provenance afterwards, this was verified for the strategies it has and for
  exactly that generation, which is the one an agent checks. A resume that fails commits nothing.
\<close>

theorem resume_signs_next_generation:
  "case MutateToResumed C svc now inp w of
     (Inl e, w') \<Rightarrow> w_db w' = w_db w \<or> w_db w' = dbAtBegin w
   | (Inr mr, w') \<Rightarrow>
       \<exists>dep f. deploymentsGet (rd_Name inp) (dbAtBegin w) = Inr dep \<and>
         fulfillmentsGet (dp_fulfillmentID dep) (dbAtBegin w) = Inr f \<and>
         (rd_Etag inp = '''' \<or> rd_Etag inp = EtagOf (cr_sha256 C) \<lparr>dv_Deployment = dep, dv_Fulfillment = f\<rparr>) \<and>
         (rd_ExpectedGeneration inp = 0 \<or> rd_ExpectedGeneration inp = i64 (f_generation f + 1)) \<and>
         (let f' = dv_Fulfillment (mut_View mr)
          in f_generation f' = i64 (f_generation f + 1) \<and> mut_MyGen mr = f_generation f' \<and> f_pauseReason f' = '''' \<and>
             f_pauseReason f \<noteq> '''' \<and> f_auth f' = rd_Auth inp \<and> f_state f' = f_state f \<and>
             fulfillmentsUpdate f' (dbAtBegin w) = Inr (w_db w') \<and>
             (case f_provenance f' of
                None \<Rightarrow> f_provenance f = None \<and> rd_UserSignature inp = []
              | Some p \<Rightarrow> provenanceFor C svc (dp_name dep) (f_manifestStrategy f') (f_placementStrategy f')
                            (f_generation f') (rd_UserSignature inp) (rd_ValidUntil inp) p))"
proof -
  obtain r w' where run: "MutateToResumed C svc now inp w = (r, w')" by (cases "MutateToResumed C svc now inp w")
  show ?thesis
  proof (cases r)
    case (Inl e)
    with run show ?thesis using tripleD_Inl [OF MutateToResumed_triple at_refl, of C svc now inp w e w'] by simp
  next
    case (Inr mr)
    then have "resumed C svc inp (dbAtBegin w) mr (w_db w')"
      using run tripleD_Inr [OF MutateToResumed_triple at_refl, of C svc now inp w mr w'] by simp
    then obtain dep f prov f' where dep: "deploymentsGet (rd_Name inp) (dbAtBegin w) = Inr dep"
      and f: "fulfillmentsGet (dp_fulfillmentID dep) (dbAtBegin w) = Inr f"
      and ok: "resumeRefused (cr_sha256 C) inp \<lparr>dv_Deployment = dep, dv_Fulfillment = f\<rparr> = None"
      and prov: "if f_provenance f \<noteq> None \<or> rd_UserSignature inp \<noteq> []
         then \<exists>p. prov = Some p \<and> provenanceFor C svc (dp_name dep) (f_manifestStrategy f) (f_placementStrategy f)
                (i64 (f_generation f + 1)) (rd_UserSignature inp) (rd_ValidUntil inp) p
         else prov = None"
      and f': "Resume (rd_Auth inp) prov f = Inr f'" "mr = mutationResult dep f'"
        "fulfillmentsUpdate f' (dbAtBegin w) = Inr (w_db w')"
      by (auto simp: resumed_def)
    note loaded = loaded_baseline [OF f]
    from ok have "rd_Etag inp = '''' \<or> rd_Etag inp = EtagOf (cr_sha256 C) \<lparr>dv_Deployment = dep, dv_Fulfillment = f\<rparr>"
      "rd_ExpectedGeneration inp = 0 \<or> rd_ExpectedGeneration inp = i64 (f_generation f + 1)"
      by (auto simp: resumeRefused_def refusedAt_None)
    with f' dep f loaded prov Inr run show ?thesis
      by (auto simp: Resume_def Let_def mutationResult_def advanceGeneration_def split: if_splits option.splits)
  qed
qed

section \<open>The convergence loop\<close>

text \<open>What every step of the loop keeps: calls are counted, the engine and its workflows stay.\<close>

definition onward :: "world \<Rightarrow> world \<Rightarrow> bool" where
  "onward w v \<longleftrightarrow> w_step w \<le> w_step v \<and> w_engine v = w_engine w \<and> w_started v = w_started w"

interpretation advancing: world_relation onward
  by unfold_locales (auto simp: onward_def)

lemma keeps_onward_load: "keeps onward (LoadFulfillment i)"
proof -
  have begin_tx: "keeps onward (beginTx what)" for what
    unfolding beginTx_def
    by (intro advancing.keeps_wrap advancing.keeps_infra keepsI) (auto simp: onward_def)
  have reading: "keeps onward (reads r)" for r :: "store \<Rightarrow> 'a result"
    unfolding reads_def by (intro advancing.keeps_infra keepsI) (auto simp: onward_def)
  have ending: "keeps onward EndReadOnly"
    unfolding EndReadOnly_def by (intro advancing.keeps_infra keepsI) (auto simp: onward_def ret_def)
  show ?thesis
    unfolding LoadFulfillment_def by (intro advancing.rules begin_tx reading ending)
qed

lemma LoadFulfillment_Inr:
  assumes "LoadFulfillment i w = (Inr r, v)"
  shows "case r of None \<Rightarrow> fulfillmentRow i (w_db v) = None | Some f \<Rightarrow> fulfillmentsGet i (w_db v) = Inr f"
  using assms
  by (auto simp: LoadFulfillment_def andThen_def caught_def beginTx_def wrap_def reads_def infra_def EndReadOnly_def
      ret_def throw_def fulfillmentsGet_def split: prod.splits sum.splits option.splits if_splits)

lemma loaded_row:
  assumes "RunActivity (LoadFulfillment i) w = (Inr r, v)"
  shows "case r of None \<Rightarrow> fulfillmentRow i (w_db v) = None | Some f \<Rightarrow> fulfillmentsGet i (w_db v) = Inr f"
proof -
  obtain u where "LoadFulfillment i u = (Inr r, v)" using RunActivity_Inr [OF assms] by blast
  then show ?thesis by (rule LoadFulfillment_Inr)
qed

text \<open>How the loop may end when it was started in a world with the workflows \<open>started\<close>.\<close>

definition converged ::
  "workflow_start list \<Rightarrow> FulfillmentID \<Rightarrow> Generation \<Rightarrow> bool \<Rightarrow> unit result option \<times> world \<Rightarrow> bool" where
  "converged started i myGen missingMeansDone outcome \<longleftrightarrow>
     (case outcome of
        (None, w') \<Rightarrow> False
      | (Some (Inl e), w') \<Rightarrow> w_started w' = started
      | (Some (Inr _), w') \<Rightarrow>
          if w_started w' = started
          then (case fulfillmentsGet i (w_db w') of
                  Inl e \<Rightarrow> missingMeansDone \<and> fulfillmentRow i (w_db w') = None
                | Inr f \<Rightarrow> myGen \<le> f_observedGeneration f \<or> myGen < f_generation f)
          else w_started w' = started @ [OrchestrationStarted i])"

lemma converged_round:
  "converged (w_started w) i myGen b (convergenceLoop (Suc n) i myGen b w) \<or>
   (\<exists>w3 k e. convergenceLoop (Suc n) i myGen b w = convergenceLoop n i myGen b w3 \<and>
      w_step w \<le> k \<and> k < w_step w3 \<and> w_engine w k = Some e \<and> errorsIs e ErrAlreadyRunning \<and>
      w_engine w3 = w_engine w \<and> w_started w3 = w_started w)"
proof -
  obtain r w1 where load: "RunActivity (LoadFulfillment i) w = (r, w1)" by fastforce
  then have on: "w_step w \<le> w_step w1" "w_engine w1 = w_engine w" "w_started w1 = w_started w"
    using keepsD [OF advancing.keeps_RunActivity [OF keeps_onward_load]] by (simp_all add: onward_def)
  show ?thesis
  proof (cases r)
    case (Inl e)
    then show ?thesis using load on by (simp add: converged_def)
  next
    case (Inr x)
    with load have x: "case x of None \<Rightarrow> fulfillmentRow i (w_db w1) = None | Some f \<Rightarrow> fulfillmentsGet i (w_db w1) = Inr f"
      by (intro loaded_row) simp
    show ?thesis
    proof (cases x)
      case None
      then show ?thesis using load Inr x on by (simp add: converged_def fulfillmentsGet_def notFound_def)
    next
      case (Some f)
      with x have f: "fulfillmentsGet i (w_db w1) = Inr f" by simp
      show ?thesis
      proof (cases "w_engine w1 (w_step w1)")
        case None
        then show ?thesis using load Inr Some f on by (simp add: converged_def startWorkflow_def)
      next
        case engine: (Some e)
        let ?w2 = "w1\<lparr>w_step := Suc (w_step w1)\<rparr>" and ?w3 = "w1\<lparr>w_step := Suc (Suc (w_step w1))\<rparr>"
        show ?thesis
        proof (cases "myGen \<le> f_observedGeneration f \<or> myGen < f_generation f \<or> \<not> errorsIs e ErrAlreadyRunning \<or>
            w_faults w1 (Suc (w_step w1)) \<noteq> None")
          case True
          then show ?thesis
            using load Inr Some f on engine
            by (auto simp: converged_def startWorkflow_def Sleep_def infra_def)
        next
          case False
          then have "convergenceLoop (Suc n) i myGen b w = convergenceLoop n i myGen b ?w3"
            using load Inr Some f engine by (simp add: startWorkflow_def Sleep_def infra_def ret_def)
          then show ?thesis using False on engine by (intro disjI2 exI [of _ ?w3] exI [of _ "w_step w1"] exI [of _ e]) auto
        qed
      qed
    qed
  qed
qed

text \<open>
  C12: the convergence loop ends, and for a reason. If from some call on the engine no longer
  answers that an instance is running, the loop returns after finitely many rounds, whatever else
  fails. When it returns without an error, the row of the fulfillment is gone and this counts as
  done, or the generation of the mutation has been observed, or a newer one has replaced it, or
  the loop has started the orchestration itself, once.
\<close>

theorem convergence_loop_ends:
  assumes "\<forall>k \<ge> N. case w_engine w k of None \<Rightarrow> True | Some e \<Rightarrow> \<not> errorsIs e ErrAlreadyRunning"
    and "N \<le> w_step w + rounds"
  shows "case convergenceLoop (Suc rounds) i myGen missingMeansDone w of
    (None, w') \<Rightarrow> False
  | (Some (Inl e), w') \<Rightarrow> w_started w' = w_started w
  | (Some (Inr _), w') \<Rightarrow>
      if w_started w' = w_started w
      then (case fulfillmentsGet i (w_db w') of
              Inl e \<Rightarrow> missingMeansDone \<and> fulfillmentRow i (w_db w') = None
            | Inr f \<Rightarrow> myGen \<le> f_observedGeneration f \<or> myGen < f_generation f)
      else w_started w' = w_started w @ [OrchestrationStarted i]"
proof -
  have "converged (w_started w) i myGen missingMeansDone (convergenceLoop (Suc rounds) i myGen missingMeansDone w)"
    using assms
  proof (induction rounds arbitrary: w)
    case (0 w)
    have "\<not> (w_step w \<le> k \<and> w_engine w k = Some e \<and> errorsIs e ErrAlreadyRunning)" for k e
      using 0 by (auto dest!: spec [of _ k])
    then show ?case using converged_round [of w i myGen missingMeansDone 0] by blast
  next
    case (Suc n w)
    consider (ended) "converged (w_started w) i myGen missingMeansDone (convergenceLoop (Suc (Suc n)) i myGen missingMeansDone w)"
      | (again) w3 where "convergenceLoop (Suc (Suc n)) i myGen missingMeansDone w = convergenceLoop (Suc n) i myGen missingMeansDone w3"
          "w_step w < w_step w3" "w_engine w3 = w_engine w" "w_started w3 = w_started w"
      using converged_round [of w i myGen missingMeansDone "Suc n"] by (metis le_less_trans)
    then show ?case
    proof cases
      case again
      have "converged (w_started w3) i myGen missingMeansDone (convergenceLoop (Suc n) i myGen missingMeansDone w3)"
        by (rule Suc.IH) (use Suc.prems again in auto)
      with again show ?thesis by simp
    qed
  qed
  then show ?thesis unfolding converged_def .
qed

text \<open>A world in which an instance is running for the first calls, and a deployment to converge on.\<close>

definition busyWorld :: world where
  "busyWorld = (calmWorld (emptyStore\<lparr>t_fulfillments := [storedFulfillment 0 ((NewFulfillment ''f'' zeroAuth None None 0)\<lparr>f_generation := 1\<rparr>)]\<rparr>))
     \<lparr>w_engine := (\<lambda>n. if n < 4 then Some (Sentinel ErrAlreadyRunning) else None)\<rparr>"

theorem convergence_loop_ends_witness:
  "\<exists>w'. convergenceLoop 5 ''f'' 1 False busyWorld = (Some (Inr ()), w') \<and> w_started w' = [OrchestrationStarted ''f'']"
proof -
  have five: "Suc 4 = (5::nat)" by simp
  have ends: "fst (convergenceLoop 5 ''f'' 1 False busyWorld) \<noteq> None"
    using convergence_loop_ends [where N = 4 and w = busyWorld and rounds = 4 and i = "''f''" and myGen = 1 and missingMeansDone = False]
    unfolding five
    by (auto simp: busyWorld_def calmWorld_def split: prod.splits option.splits)
  then show ?thesis
    by (simp add: eval_nat_numeral LoadFulfillment_def RunActivity_def activityMaxAttempts_def busyWorld_def calmWorld_def
        beginTx_def wrap_def infra_def andThen_def caught_def reads_def EndReadOnly_def ret_def throw_def dbAtBegin_def
        fulfillmentsGet_def fulfillmentRow_def storedFulfillment_def fulfillmentSnapshot_def NewFulfillment_def
        FulfillmentFromSnapshot_def joinedSnapshot_def startWorkflow_def Sleep_def emptyStore_def)
qed

section \<open>The rows are removed together\<close>

lemma steps_unlessNotFound:
  "steps w (unlessNotFound p (writes u))
     (\<lambda>_ w'. (\<exists>s. u (w_tx w) = Inr s \<and> w' = w\<lparr>w_tx := s\<rparr>) \<or>
        (\<exists>e. u (w_tx w) = Inl e \<and> errorsIs e ErrNotFound \<and> w' = w))"
  unfolding steps_def
  by (rule tripleI)
    (auto simp: unlessNotFound_def writes_def infra_def andThen_def caught_def ret_def throw_def at_def
      split: option.splits sum.splits if_splits)

lemma getRow_filter_kept:
  "(\<And>r. key r = k \<Longrightarrow> P r) \<Longrightarrow> getRow key k (filter P rows) = getRow key k rows"
  by (induction rows) (auto simp: getRow_def)

lemma fulfillmentsDelete_get:
  assumes "fulfillmentsDelete i s = Inr s'"
  shows "fulfillmentsGet j s' = (if j = i then notFound else fulfillmentsGet j s)" "t_deployments s' = t_deployments s"
proof -
  from assms have s': "s' = s\<lparr>t_manifestStrategies := filter (\<lambda>r. mr_FulfillmentID r \<noteq> i) (t_manifestStrategies s),
        t_placementStrategies := filter (\<lambda>r. prr_FulfillmentID r \<noteq> i) (t_placementStrategies s),
        t_rolloutStrategies := filter (\<lambda>r. ror_FulfillmentID r \<noteq> i) (t_rolloutStrategies s),
        t_fulfillments := deleteRow fs_ID i (t_fulfillments s)\<rparr>"
    by (auto simp: fulfillmentsDelete_def Let_def split: if_splits)
  have row: "fulfillmentRow j s' = (if j = i then None else fulfillmentRow j s)"
    by (simp add: s' fulfillmentRow_def getRow_delete)
  have "joinedSnapshot s' r = joinedSnapshot s r" if "fs_ID r \<noteq> i" for r
  proof -
    have "getRow manifestKey (fs_ID r, v) (t_manifestStrategies s') = getRow manifestKey (fs_ID r, v) (t_manifestStrategies s)"
        "getRow placementKey (fs_ID r, v) (t_placementStrategies s') = getRow placementKey (fs_ID r, v) (t_placementStrategies s)"
        "getRow rolloutKey (fs_ID r, v) (t_rolloutStrategies s') = getRow rolloutKey (fs_ID r, v) (t_rolloutStrategies s)" for v
      unfolding s' using that
      by (auto intro!: getRow_filter_kept simp: manifestKey_def placementKey_def rolloutKey_def)
    then show ?thesis by (simp add: joinedSnapshot_def)
  qed
  moreover have "fs_ID r = j" if "fulfillmentRow j s = Some r" for r
    using that by (auto simp: fulfillmentRow_def dest: getRow_Some)
  ultimately show "fulfillmentsGet j s' = (if j = i then notFound else fulfillmentsGet j s)"
    unfolding fulfillmentsGet_def row by (auto split: option.split)
  show "t_deployments s' = t_deployments s" by (simp add: s')
qed

text \<open>What the two deletions do to a store, present rows or not.\<close>

definition removedRows :: "ResourceName \<Rightarrow> FulfillmentID \<Rightarrow> store \<Rightarrow> store \<Rightarrow> bool" where
  "removedRows name i s s' \<longleftrightarrow>
     (\<forall>n. deploymentsGet n s' = (if n = name then notFound else deploymentsGet n s)) \<and>
     (\<forall>j. fulfillmentsGet j s' = (if j = i then notFound else fulfillmentsGet j s))"

lemma removedRowsI:
  assumes "deploymentsDelete name s = Inr s1 \<or> (\<exists>e. deploymentsDelete name s = Inl e) \<and> s1 = s"
    and "fulfillmentsDelete i s1 = Inr s' \<or> (\<exists>e. fulfillmentsDelete i s1 = Inl e \<and> errorsIs e ErrNotFound) \<and> s' = s1"
  shows "removedRows name i s s'"
proof -
  have first: "deploymentsGet n s1 = (if n = name then notFound else deploymentsGet n s)"
      "fulfillmentsGet j s1 = fulfillmentsGet j s" for n j
    using assms(1)
    by (auto simp: deploymentsDelete_def deploymentsGet_def orNotFound_def getRow_delete fulfillmentsGet_def
        fulfillmentRow_def joinedSnapshot_def split: if_splits option.splits)
  have "fulfillmentsGet j s' = (if j = i then notFound else fulfillmentsGet j s1)" "t_deployments s' = t_deployments s1" for j
    using assms(2)
    by (auto simp: fulfillmentsDelete_get, auto simp: fulfillmentsDelete_def fulfillmentsGet_def foreignKeyViolation_def
        Let_def split: if_splits)
  with first show ?thesis by (simp add: removedRows_def deploymentsGet_def)
qed

lemma DeleteDeploymentAndFulfillment_triple:
  "triple (at w) (DeleteDeploymentAndFulfillment name i)
     (\<lambda>_ v. removedRows name i (dbAtBegin w) (w_db v))
     (\<lambda>_ v. w_db v = w_db w \<or> w_db v = dbAtBegin w)"
proof -
  have rest: "triple (at w1) (andThen (unlessNotFound q (writes (fulfillmentsDelete i))) (\<lambda>_. Commit))
      (\<lambda>_ v. removedRows name i (dbAtBegin w) (w_db v)) (\<lambda>_ v. w_db v = w_db w \<or> w_db v = dbAtBegin w)"
    if "w_db w1 = dbAtBegin w"
      "deploymentsDelete name (dbAtBegin w) = Inr (w_tx w1) \<or>
       (\<exists>e. deploymentsDelete name (dbAtBegin w) = Inl e) \<and> w_tx w1 = dbAtBegin w" for w1 q
    using that
    by (intro then_steps [OF steps_unlessNotFound] last_steps [OF steps_Commit])
      (auto simp: at_def intro: removedRowsI)
  show ?thesis
    unfolding DeleteDeploymentAndFulfillment_def
    by (intro then_steps [OF steps_Begin] then_steps [OF steps_unlessNotFound] rest) (auto simp: at_def)
qed

text \<open>
  C13: a deployment and its fulfillment disappear together. The activity of the clean-up workflow
  either commits nothing of its own, or leaves neither row, whether they were there before or not,
  and every other deployment and fulfillment as it was.
\<close>

theorem cleanup_removes_both:
  "case DeleteDeploymentAndFulfillment name i w of
     (Inl e, w') \<Rightarrow> w_db w' = w_db w \<or> w_db w' = dbAtBegin w
   | (Inr _, w') \<Rightarrow>
       (\<forall>n. deploymentsGet n (w_db w') = (if n = name then notFound else deploymentsGet n (dbAtBegin w))) \<and>
       (\<forall>j. fulfillmentsGet j (w_db w') = (if j = i then notFound else fulfillmentsGet j (dbAtBegin w)))"
  using tripleD_Inr [OF DeleteDeploymentAndFulfillment_triple at_refl, of name i w]
    tripleD_Inl [OF DeleteDeploymentAndFulfillment_triple at_refl, of name i w]
  by (auto simp: removedRows_def split: prod.splits sum.splits)

section \<open>Deleting twice\<close>

lemma readDeployment_triple:
  "triple (at w) (readDeployment name)
     (\<lambda>r v. deploymentsGet name (dbAtBegin w) = Inr (fst r) \<and>
        fulfillmentsGet (dp_fulfillmentID (fst r)) (dbAtBegin w) = Inr (snd r) \<and> at (begun w) v)
     (\<lambda>_ v. at w v \<or> at (begun w) v)"
  unfolding readDeployment_def by (rule then_steps [OF steps_beginTx]) (clarify, intro run_rules, auto simp: at_def)

text \<open>
  Deleting a deployment again is harmless. If the deployment is already being deleted and is not
  paused, the service reports it as it is or fails to read it; either way it commits nothing, starts
  no workflow and does not advance the generation. A paused deletion is different: it is started
  again.
\<close>

theorem second_delete_changes_nothing:
  assumes "deploymentsGet name (dbAtBegin w) = Inr dep" "fulfillmentsGet (dp_fulfillmentID dep) (dbAtBegin w) = Inr f"
    and "f_state f = FulfillmentStateDeleting" "\<not> Paused f"
  shows "case serviceDelete fuel ac name w of
      (None, w') \<Rightarrow> False
    | (Some r, w') \<Rightarrow>
        w_db w' \<in> {w_db w, dbAtBegin w} \<and> w_started w' = w_started w \<and>
        (case r of Inl e \<Rightarrow> True | Inr v \<Rightarrow> v = \<lparr>dv_Deployment = dep, dv_Fulfillment = f\<rparr>)"
proof -
  obtain r w1 where read: "readDeployment name w = (r, w1)" by (cases "readDeployment name w")
  show ?thesis
  proof (cases r)
    case (Inl e)
    with read have "at w w1 \<or> at (begun w) w1" using tripleD_Inl [OF readDeployment_triple at_refl] by blast
    with read Inl show ?thesis by (auto simp: serviceDelete_def Let_def at_def)
  next
    case (Inr p)
    with read have "at (begun w) w1" "fst p = dep" "snd p = f"
      using tripleD_Inr [OF readDeployment_triple at_refl, of name w p w1] assms by auto
    with read Inr assms show ?thesis by (cases p) (auto simp: serviceDelete_def Let_def at_def)
  qed
qed

definition deletingStore :: store where
  "deletingStore = emptyStore\<lparr>t_deployments := [NewDeployment ''d'' ''u'' ''f'' 0],
     t_fulfillments := [storedFulfillment 0 ((NewFulfillment ''f'' zeroAuth None None 0)\<lparr>f_generation := 2, f_state := FulfillmentStateDeleting\<rparr>)]\<rparr>"

theorem second_delete_changes_nothing_witness:
  "w_db (snd (serviceDelete 3 None ''d'' (calmWorld deletingStore))) = deletingStore \<and>
   w_started (snd (serviceDelete 3 None ''d'' (calmWorld deletingStore))) = []"
proof -
  obtain f where f: "fulfillmentsGet ''f'' deletingStore = Inr f" "f_state f = FulfillmentStateDeleting" "\<not> Paused f"
    by (simp add: deletingStore_def fulfillmentsGet_def fulfillmentRow_def storedFulfillment_def fulfillmentSnapshot_def
        NewFulfillment_def FulfillmentFromSnapshot_def joinedSnapshot_def Paused_def)
  have db: "dbAtBegin (calmWorld deletingStore) = deletingStore" "w_db (calmWorld deletingStore) = deletingStore"
    "w_started (calmWorld deletingStore) = []"
    by (simp_all add: calmWorld_def dbAtBegin_def)
  have d: "deploymentsGet ''d'' deletingStore = Inr (NewDeployment ''d'' ''u'' ''f'' 0)"
    "dp_fulfillmentID (NewDeployment ''d'' ''u'' ''f'' 0) = ''f''"
    by (simp_all add: deletingStore_def deploymentsGet_def orNotFound_def NewDeployment_def)
  show ?thesis
    using second_delete_changes_nothing [of "''d''" "calmWorld deletingStore" "NewDeployment ''d'' ''u'' ''f'' 0" f 3 None] f d
    by (auto simp: db split: prod.splits option.splits)
qed

end
