(* ===== verification/FS_Managed.thy ===== *)
theory FS_Managed
  imports FS_Extension FS_Workflows
begin

text \<open>
  The workflows of managed resources: create (\<^verbatim>\<open>domain/create_managed_resource.go\<close>), delete
  (\<^verbatim>\<open>delete_managed_resource.go\<close>), the clean-up of the rows
  (\<^verbatim>\<open>delete_managed_resource_cleanup.go\<close>), resume (\<^verbatim>\<open>resume_managed_resource.go\<close>),
  and the service in front of them (\<^verbatim>\<open>application/extension_resource_service.go\<close>). They
  end with the convergence loop of \<open>FS_Workflows\<close>.
\<close>

section \<open>Creating a managed resource\<close>

record CreateManagedResourceInput =
  cm_ResourceType :: ResourceType
  cm_Name :: ResourceName
  cm_Spec :: bytes
  cm_Labels :: string_map
  cm_TypeDef :: ExtensionResourceType
  cm_Provenance :: "Provenance option"
  cm_Auth :: DeliveryAuth

definition newManagedResource :: "ExtensionResourceUID \<Rightarrow> FulfillmentID \<Rightarrow> go_time \<Rightarrow> CreateManagedResourceInput \<Rightarrow> ExtensionResource" where
  "newManagedResource uid fID now inp =
     NewExtensionResource uid (cm_ResourceType inp) (cm_Name inp) now [WithManagedState fID, WithExtensionLabels (cm_Labels inp)]"

definition derivedFulfillment ::
  "FulfillmentID \<Rightarrow> go_time \<Rightarrow> CreateManagedResourceInput \<Rightarrow> FulfillmentRelation \<Rightarrow> ResourceIntent \<Rightarrow> Fulfillment" where
  "derivedFulfillment fID now inp relation intent =
     (case DeriveStrategies relation intent of
        (ms, ps, rs) \<Rightarrow>
          freshFulfillment fID (cm_Auth inp) (cm_Provenance inp)
            (if cm_Provenance inp \<noteq> None then Some \<lparr>ar_RelationRef = Some (cm_ResourceType inp)\<rparr> else None) ms ps rs now)"

definition PersistManagedResource :: "go_time \<Rightarrow> CreateManagedResourceInput \<Rightarrow> ExtensionResourceView io" where
  "PersistManagedResource now inp =
     andThen Begin (\<lambda>_.
     case et_management (cm_TypeDef inp) of
       None \<Rightarrow> throw (Wrapped '''' (Sentinel ErrInvalidArgument)
                 ('': type '' @ quote (cm_ResourceType inp) @ '' has no management metadata''))
     | Some mgmt \<Rightarrow>
         andThen newUUID (\<lambda>fID.
         andThen newUUID (\<lambda>uid.
         case RecordIntent (cm_Spec inp) now (newManagedResource uid fID now inp) of
           Inl e \<Rightarrow> throw (Wrapped ''record intent: '' e '''')
         | Inr (intent, er) \<Rightarrow>
             (let f = derivedFulfillment fID now inp (mt_relation mgmt) intent
              in andThen (wrap ''create fulfillment: '' (writes (fulfillmentsCreate f))) (\<lambda>_.
                 andThen (wrap ''create extension resource: '' (writes (extCreate er))) (\<lambda>_.
                 andThen (wrap ''commit: '' Commit) (\<lambda>_.
                 ret \<lparr>ev_Resource = er, ev_Intent = Some intent, ev_Fulfillment = Some f\<rparr>)))))))"

text \<open>
  The JSON round trip of the activity. The specification is a raw document: it is rejected unless it
  is JSON, and it arrives without insignificant space.
\<close>

definition decodedCreateInput :: "CreateManagedResourceInput \<Rightarrow> CreateManagedResourceInput result" where
  "decodedCreateInput inp =
     (case encodeRaw (cm_Spec inp) of
        Inl e \<Rightarrow> Inl e
      | Inr spec \<Rightarrow> Inr (inp\<lparr>cm_Spec := spec\<rparr>))"

definition decodedExtView :: "ExtensionResourceView \<Rightarrow> ExtensionResourceView" where
  "decodedExtView v =
     v\<lparr>ev_Resource := (ev_Resource v)\<lparr>er_pendingIntents := []\<rparr>, ev_Fulfillment := map_option reloaded (ev_Fulfillment v)\<rparr>"

definition createManagedRun :: "go_time \<Rightarrow> CreateManagedResourceInput \<Rightarrow> ExtensionResourceView io" where
  "createManagedRun now inp =
     (case decodedCreateInput inp of
        Inl e \<Rightarrow> throw (Wrapped ''persist managed resource: ''
                   (Wrapped (''memworkflow: round-trip activity '' @ quote ''persist-managed-resource'' @ '' input: '') e '''') '''')
      | Inr inp' \<Rightarrow>
          andThen (wrap ''persist managed resource: '' (RunActivity (PersistManagedResource now inp'))) (\<lambda>out.
          let view = decodedExtView out
          in case ev_Fulfillment view of
               None \<Rightarrow> throw (Plain ''workflow panicked: nil fulfillment'')
             | Some f \<Rightarrow>
                 andThen (wrap ''start orchestration: '' (RunActivity (StartOrchestration (f_id f)))) (\<lambda>_. ret view)))"

section \<open>Loading what is mutated\<close>

record managedResourceMutationResult =
  mm_View :: ExtensionResourceView
  mm_FulfillmentID :: FulfillmentID
  mm_MyGen :: Generation

definition noManagedState :: "FullResourceName \<Rightarrow> error" where
  "noManagedState n = Wrapped '''' (Sentinel ErrInvalidArgument) ('': extension resource '' @ n @ '' has no managed state'')"

definition loadManaged :: "ResourceType \<Rightarrow> ResourceName \<Rightarrow> (ExtensionResource \<times> ManagedState \<times> ResourceIntent \<times> Fulfillment) io" where
  "loadManaged rt name =
     andThen (reads (extGet (rtFullName rt name))) (\<lambda>er.
     case er_managed er of
       None \<Rightarrow> throw (noManagedState (rtFullName rt name))
     | Some managed \<Rightarrow>
         andThen (wrap ''get intent: '' (reads (extGetIntent (er_uid er) (mgd_currentVersion managed)))) (\<lambda>intent.
         andThen (reads (fulfillmentsGet (mgd_fulfillmentID managed))) (\<lambda>f.
         ret (er, managed, intent, f))))"

definition managedView :: "ExtensionResource \<Rightarrow> ResourceIntent \<Rightarrow> Fulfillment \<Rightarrow> ExtensionResourceView" where
  "managedView er intent f = \<lparr>ev_Resource = er, ev_Intent = Some intent, ev_Fulfillment = Some f\<rparr>"

definition managedResult :: "ExtensionResource \<Rightarrow> ManagedState \<Rightarrow> ResourceIntent \<Rightarrow> Fulfillment \<Rightarrow> managedResourceMutationResult" where
  "managedResult er managed intent f =
     \<lparr>mm_View = managedView er intent f, mm_FulfillmentID = mgd_fulfillmentID managed, mm_MyGen = f_generation f\<rparr>"

section \<open>Deleting a managed resource\<close>

record DeleteManagedResourceInput =
  dm_ResourceType :: ResourceType
  dm_Name :: ResourceName
  dm_Auth :: DeliveryAuth
  dm_TypeDef :: ExtensionResourceType

definition managedMutateToDeleting :: "DeleteManagedResourceInput \<Rightarrow> managedResourceMutationResult io" where
  "managedMutateToDeleting inp =
     andThen Begin (\<lambda>_.
     andThen (loadManaged (dm_ResourceType inp) (dm_Name inp)) (\<lambda>(er, managed, intent, f).
     let f' = TransitionToDeleting (dm_Auth inp) f
     in andThen (wrap ''update fulfillment: '' (writes (fulfillmentsUpdate f'))) (\<lambda>_.
        andThen (wrap ''commit: '' Commit) (\<lambda>_.
        ret (managedResult er managed intent f')))))"

definition managedStartCleanup :: "ResourceType \<Rightarrow> ResourceName \<Rightarrow> FulfillmentID \<Rightarrow> unit io" where
  "managedStartCleanup rt name i =
     andThen (caught (startWorkflow (ManagedCleanupStarted rt name i))) (\<lambda>r.
     case r of
       Inr _ \<Rightarrow> ret ()
     | Inl e \<Rightarrow> if errorsIs e ErrAlreadyRunning then ret () else throw e)"

definition managedDeleteRun :: "nat \<Rightarrow> DeleteManagedResourceInput \<Rightarrow> world \<Rightarrow> ExtensionResourceView result option \<times> world" where
  "managedDeleteRun fuel inp w =
     (case RunActivity (managedMutateToDeleting inp) w of
        (Inl e, w1) \<Rightarrow> (Some (Inl (Wrapped ''mutate to deleting: '' e '''')), w1)
      | (Inr mr, w1) \<Rightarrow>
          (case RunActivity (managedStartCleanup (dm_ResourceType inp) (dm_Name inp) (mm_FulfillmentID mr)) w1 of
             (Inl e, w2) \<Rightarrow> (Some (Inl (Wrapped ''start cleanup: '' e '''')), w2)
           | (Inr _, w2) \<Rightarrow>
               convergeThen fuel (mm_FulfillmentID mr) (mm_MyGen mr) True (decodedExtView (mm_View mr)) w2))"

section \<open>Removing the rows\<close>

definition DeleteManagedResourceAndFulfillment :: "ResourceType \<Rightarrow> ResourceName \<Rightarrow> FulfillmentID \<Rightarrow> unit io" where
  "DeleteManagedResourceAndFulfillment rt name i =
     andThen Begin (\<lambda>_.
     andThen (unlessNotFound ''delete extension resource row: '' (writes (extDelete (rtFullName rt name)))) (\<lambda>_.
     andThen (unlessNotFound ''delete fulfillment row: '' (writes (fulfillmentsDelete i))) (\<lambda>_.
     Commit)))"

definition managedCleanupRun :: "ResourceType \<Rightarrow> ResourceName \<Rightarrow> FulfillmentID \<Rightarrow> world \<Rightarrow> unit result option \<times> world" where
  "managedCleanupRun rt name i w =
     (if i \<notin> set (w_cleanups w) then (None, w)
      else case RunActivity (DeleteManagedResourceAndFulfillment rt name i) (w\<lparr>w_cleanups := remove1 i (w_cleanups w)\<rparr>) of
             (Inl e, w') \<Rightarrow> (Some (Inl (Wrapped ''delete managed resource and fulfillment: '' e '''')), w')
           | (Inr _, w') \<Rightarrow> (Some (Inr ()), w'))"

section \<open>Resuming a managed resource\<close>

record ResumeManagedResourceInput =
  rm_ResourceType :: ResourceType
  rm_Name :: ResourceName
  rm_Auth :: DeliveryAuth
  rm_UserSignature :: bytes
  rm_ValidUntil :: go_time
  rm_Etag :: string
  rm_ExpectedGeneration :: Generation

definition managedResumeProvenance ::
  "'k crypto \<Rightarrow> 'k ProvenanceService \<Rightarrow> go_time \<Rightarrow> ResumeManagedResourceInput \<Rightarrow> ResourceIntent \<Rightarrow> Fulfillment \<Rightarrow>
     Provenance option io" where
  "managedResumeProvenance C svc now inp intent f =
     (if f_provenance f \<noteq> None \<or> rm_UserSignature inp \<noteq> [] then
        andThen (wrap ''build provenance: ''
                  (BuildManagedResourceProvenance C svc now (da_Caller (rm_Auth inp)) (rm_ResourceType inp) (rm_Name inp)
                     (ri_Spec intent)
                     (if rm_ExpectedGeneration inp = 0 then i64 (f_generation f + 1) else rm_ExpectedGeneration inp)
                     (rm_UserSignature inp) (rm_ValidUntil inp)))
          (\<lambda>p. ret (Some p))
      else ret None)"

definition managedMutateToResumed ::
  "'k crypto \<Rightarrow> 'k ProvenanceService \<Rightarrow> go_time \<Rightarrow> ResumeManagedResourceInput \<Rightarrow> managedResourceMutationResult io" where
  "managedMutateToResumed C svc now inp =
     andThen Begin (\<lambda>_.
     andThen (loadManaged (rm_ResourceType inp) (rm_Name inp)) (\<lambda>(er, managed, intent, f).
     case refusedAt (extEtag (cr_sha256 C) (managedView er intent f)) (f_generation f) (rm_Etag inp)
            (rm_ExpectedGeneration inp) (rm_UserSignature inp) of
       Some e \<Rightarrow> throw e
     | None \<Rightarrow>
         andThen (managedResumeProvenance C svc now inp intent f) (\<lambda>prov.
         case Resume (rm_Auth inp) prov f of
           Inl e \<Rightarrow> throw e
         | Inr f' \<Rightarrow>
             andThen (wrap ''update fulfillment: '' (writes (fulfillmentsUpdate f'))) (\<lambda>_.
             andThen (wrap ''commit: '' Commit) (\<lambda>_.
             ret (managedResult er managed intent f'))))))"

definition managedResumeRun ::
  "nat \<Rightarrow> 'k crypto \<Rightarrow> 'k ProvenanceService \<Rightarrow> go_time \<Rightarrow> ResumeManagedResourceInput \<Rightarrow> world \<Rightarrow>
     ExtensionResourceView result option \<times> world" where
  "managedResumeRun fuel C svc now inp w =
     (case RunActivity (managedMutateToResumed C svc now inp) w of
        (Inl e, w1) \<Rightarrow> (Some (Inl (Wrapped ''mutate to resumed: '' e '''')), w1)
      | (Inr mr, w1) \<Rightarrow> convergeThen fuel (mm_FulfillmentID mr) (mm_MyGen mr) False (decodedExtView (mm_View mr)) w1)"

section \<open>The extension-resource service\<close>

record CreateExtensionResourceInput =
  cx_ResourceType :: ResourceType
  cx_Name :: ResourceName
  cx_Spec :: bytes
  cx_Labels :: string_map
  cx_Provenance :: "Provenance option"
  cx_UserSignature :: bytes
  cx_ValidUntil :: go_time

definition lookupManagedType :: "string \<Rightarrow> ResourceType \<Rightarrow> ExtensionResourceType io" where
  "lookupManagedType purpose rt =
     andThen (wrap (''lookup type '' @ quote rt @ '': '') (reads (extGetType rt))) (\<lambda>typeDef.
     if et_management typeDef = None
     then throw (Wrapped '''' (Sentinel ErrInvalidArgument)
            ('': type '' @ quote rt @ '' has no management metadata; cannot '' @ purpose @ '' managed instance''))
     else ret typeDef)"

definition createProvenance ::
  "'k crypto \<Rightarrow> 'k ProvenanceService \<Rightarrow> go_time \<Rightarrow> AuthorizationContext option \<Rightarrow> CreateExtensionResourceInput \<Rightarrow>
     Provenance option io" where
  "createProvenance C svc now ac inp =
     (if cx_UserSignature inp = [] then ret (cx_Provenance inp)
      else case callerAuth ac of
             None \<Rightarrow> throw (invalidArgument ''signing a resource requires an authenticated caller'')
           | Some a \<Rightarrow>
               andThen (wrap ''build provenance: ''
                         (BuildManagedResourceProvenance C svc now (da_Caller a) (cx_ResourceType inp) (cx_Name inp) (cx_Spec inp)
                            1 (cx_UserSignature inp) (cx_ValidUntil inp)))
                 (\<lambda>p. ret (Some p)))"

definition authOf :: "AuthorizationContext option \<Rightarrow> DeliveryAuth" where
  "authOf ac = (case callerAuth ac of None \<Rightarrow> zeroAuth | Some a \<Rightarrow> a)"

definition extServiceCreate ::
  "'k crypto \<Rightarrow> 'k ProvenanceService \<Rightarrow> go_time \<Rightarrow> AuthorizationContext option \<Rightarrow> CreateExtensionResourceInput \<Rightarrow>
     ExtensionResourceView io" where
  "extServiceCreate C svc now ac inp =
     (if cx_Spec inp = [] then throw (invalidArgument ''spec is required'')
      else
        andThen (beginTx ''begin tx: '') (\<lambda>_.
        andThen (lookupManagedType ''create'' (cx_ResourceType inp)) (\<lambda>typeDef.
        andThen (createProvenance C svc now ac inp) (\<lambda>prov.
        andThen (wrap ''commit read tx: '' EndReadOnly) (\<lambda>_.
        andThen (wrap ''start create workflow: '' (startWorkflow (ManagedCreateStarted (cx_ResourceType inp) (cx_Name inp)))) (\<lambda>_.
        createManagedRun now
          \<lparr>cm_ResourceType = cx_ResourceType inp, cm_Name = cx_Name inp, cm_Spec = cx_Spec inp, cm_Labels = cx_Labels inp,
           cm_TypeDef = typeDef, cm_Provenance = prov, cm_Auth = authOf ac\<rparr>))))))"

definition extServiceGet :: "ResourceType \<Rightarrow> ResourceName \<Rightarrow> ExtensionResourceView io" where
  "extServiceGet rt name =
     andThen (beginTx ''begin tx: '') (\<lambda>_.
     andThen (reads (extGetView (rtFullName rt name))) (\<lambda>view.
     andThen EndReadOnly (\<lambda>_. ret view)))"

definition extServiceList :: "ResourceType \<Rightarrow> ExtensionResourceView list io" where
  "extServiceList rt =
     andThen (beginTx ''begin tx: '') (\<lambda>_.
     andThen (reads (\<lambda>s. Inr (extListViewsByType rt s))) (\<lambda>views.
     andThen EndReadOnly (\<lambda>_. ret views)))"

text \<open>The reads that delete and resume start with.\<close>

definition readForDelete :: "ResourceType \<Rightarrow> ResourceName \<Rightarrow> ExtensionResourceType io" where
  "readForDelete rt name =
     andThen (beginTx ''begin read tx: '') (\<lambda>_.
     andThen (lookupManagedType ''delete'' rt) (\<lambda>typeDef.
     andThen (reads (extGet (rtFullName rt name))) (\<lambda>er.
     if er_managed er = None then throw (noManagedState (rtFullName rt name))
     else andThen (wrap ''commit read tx: '' EndReadOnly) (\<lambda>_. ret typeDef))))"

definition extServiceDelete ::
  "nat \<Rightarrow> AuthorizationContext option \<Rightarrow> ResourceType \<Rightarrow> ResourceName \<Rightarrow> world \<Rightarrow> ExtensionResourceView result option \<times> world" where
  "extServiceDelete fuel ac rt name w =
     (case readForDelete rt name w of
        (Inl e, w1) \<Rightarrow> (Some (Inl e), w1)
      | (Inr typeDef, w1) \<Rightarrow>
          (case startWorkflow (ManagedDeleteStarted rt name) w1 of
             (Inl e, w2) \<Rightarrow> (Some (Inl (Wrapped ''start delete workflow: '' e '''')), w2)
           | (Inr _, w2) \<Rightarrow> managedDeleteRun fuel \<lparr>dm_ResourceType = rt, dm_Name = name, dm_Auth = authOf ac, dm_TypeDef = typeDef\<rparr> w2))"

record ResumeExtensionResourceInput =
  rx_ResourceType :: ResourceType
  rx_Name :: ResourceName
  rx_UserSignature :: bytes
  rx_ValidUntil :: go_time
  rx_Etag :: string
  rx_ExpectedGeneration :: Generation

definition readForResume :: "ResourceType \<Rightarrow> ResourceName \<Rightarrow> Fulfillment io" where
  "readForResume rt name =
     andThen (beginTx ''begin read tx: '') (\<lambda>_.
     andThen (reads (extGet (rtFullName rt name))) (\<lambda>er.
     case er_managed er of
       None \<Rightarrow> throw (noManagedState (rtFullName rt name))
     | Some m \<Rightarrow>
         andThen (reads (fulfillmentsGet (mgd_fulfillmentID m))) (\<lambda>f.
         andThen (wrap ''commit read tx: '' EndReadOnly) (\<lambda>_. ret f))))"

definition extServiceResume ::
  "nat \<Rightarrow> 'k crypto \<Rightarrow> 'k ProvenanceService \<Rightarrow> go_time \<Rightarrow> AuthorizationContext option \<Rightarrow> ResumeExtensionResourceInput \<Rightarrow> world \<Rightarrow>
     ExtensionResourceView result option \<times> world" where
  "extServiceResume fuel C svc now ac inp w =
     (case callerAuth ac of
        None \<Rightarrow> (Some (Inl (invalidArgument ''resuming a resource requires an authenticated caller'')), w)
      | Some auth \<Rightarrow>
          (case readForResume (rx_ResourceType inp) (rx_Name inp) w of
             (Inl e, w1) \<Rightarrow> (Some (Inl e), w1)
           | (Inr f, w1) \<Rightarrow>
               (case startWorkflow (ManagedResumeStarted (rx_ResourceType inp) (rx_Name inp) (f_generation f)) w1 of
                  (Inl e, w2) \<Rightarrow> (Some (Inl (Wrapped ''start resume workflow: '' e '''')), w2)
                | (Inr _, w2) \<Rightarrow>
                    managedResumeRun fuel C svc now
                      \<lparr>rm_ResourceType = rx_ResourceType inp, rm_Name = rx_Name inp, rm_Auth = auth,
                       rm_UserSignature = rx_UserSignature inp, rm_ValidUntil = rx_ValidUntil inp, rm_Etag = rx_Etag inp,
                       rm_ExpectedGeneration = rx_ExpectedGeneration inp\<rparr> w2)))"

section \<open>What each mutation commits\<close>

definition managedCreated :: "go_time \<Rightarrow> CreateManagedResourceInput \<Rightarrow> store \<Rightarrow> ExtensionResourceView \<Rightarrow> store \<Rightarrow> bool" where
  "managedCreated now inp s view s' \<longleftrightarrow>
     (\<exists>uid fID mgmt intent er s1.
        et_management (cm_TypeDef inp) = Some mgmt \<and>
        RecordIntent (cm_Spec inp) now (newManagedResource uid fID now inp) = Inr (intent, er) \<and>
        view = managedView er intent (derivedFulfillment fID now inp (mt_relation mgmt) intent) \<and>
        fulfillmentsCreate (derivedFulfillment fID now inp (mt_relation mgmt) intent) s = Inr s1 \<and> extCreate er s1 = Inr s')"

lemma PersistManagedResource_triple:
  "triple (at w) (PersistManagedResource now inp)
     (\<lambda>view v. managedCreated now inp (dbAtBegin w) view (w_db v) \<and> w_started v = w_started w)
     (\<lambda>_ v. (w_db v = w_db w \<or> w_db v = dbAtBegin w) \<and> w_started v = w_started w)"
  unfolding PersistManagedResource_def Let_def managedCreated_def managedView_def
  by (intro run_rules triple_prod) (auto simp: at_def, blast)

lemma steps_loadManaged:
  "steps w (loadManaged rt name)
     (\<lambda>r w'. w' = w \<and>
        (case r of (er, m, intent, f) \<Rightarrow>
           extGet (rtFullName rt name) (w_tx w) = Inr er \<and> er_managed er = Some m \<and>
           extGetIntent (er_uid er) (mgd_currentVersion m) (w_tx w) = Inr intent \<and>
           fulfillmentsGet (mgd_fulfillmentID m) (w_tx w) = Inr f))"
  unfolding steps_def loadManaged_def by (intro run_rules) auto

definition managedLoaded :: "ResourceType \<Rightarrow> ResourceName \<Rightarrow> store \<Rightarrow> ExtensionResource \<Rightarrow> ManagedState \<Rightarrow> ResourceIntent \<Rightarrow> Fulfillment \<Rightarrow> bool" where
  "managedLoaded rt name s er m intent f \<longleftrightarrow>
     extRow (keyOf (rtServiceName rt) name) s = Some er \<and> er_managed er = Some m \<and>
     extGetIntent (er_uid er) (mgd_currentVersion m) s = Inr intent \<and> fulfillmentsGet (mgd_fulfillmentID m) s = Inr f"

lemma managedMutateToDeleting_triple:
  "triple (at w) (managedMutateToDeleting inp)
     (\<lambda>mr v. \<exists>er m intent f. managedLoaded (dm_ResourceType inp) (dm_Name inp) (dbAtBegin w) er m intent f \<and>
        mr = managedResult er m intent (TransitionToDeleting (dm_Auth inp) f) \<and>
        fulfillmentsUpdate (TransitionToDeleting (dm_Auth inp) f) (dbAtBegin w) = Inr (w_db v) \<and> w_started v = w_started w)
     (\<lambda>_ v. (w_db v = w_db w \<or> w_db v = dbAtBegin w) \<and> w_started v = w_started w)"
  unfolding managedMutateToDeleting_def Let_def
  by (rule then_steps [OF steps_Begin], clarify, rule then_steps [OF steps_loadManaged], clarify, intro run_rules)
    (auto simp: at_def managedLoaded_def extGet_def fullKey_rtFullName)

definition managedProvenanceFor ::
  "'k crypto \<Rightarrow> 'k ProvenanceService \<Rightarrow> ResourceType \<Rightarrow> ResourceName \<Rightarrow> bytes \<Rightarrow> Generation \<Rightarrow> bytes \<Rightarrow> go_time \<Rightarrow>
     Provenance \<Rightarrow> bool" where
  "managedProvenanceFor C svc rt name spec g userSig u p \<longleftrightarrow>
     pr_Content p = Some (OfManagedResource \<lparr>mc_ResourceType = rt, mc_ResourceName = name, mc_Spec = spec\<rparr>) \<and>
     pr_ExpectedGeneration p = g \<and> pr_ValidUntil p = u \<and> sg_SignatureBytes (pr_Sig p) = userSig \<and>
     (\<exists>enrollment e keys. BuildManagedResourceEnvelope rt name spec u [] g = Inr e \<and>
        resolveSigningKeys C svc enrollment = Inr keys \<and> verifySignatureAgainstKeySet C e userSig keys = None)"

lemma steps_managed_provenance:
  "steps w (BuildManagedResourceProvenance C svc now caller rt name spec g userSig u)
     (\<lambda>p w'. w' = w \<and> managedProvenanceFor C svc rt name spec g userSig u p)"
proof -
  have over: "managedProvenanceFor C svc rt name spec g userSig u p"
    if "BuildManagedResourceEnvelope rt name spec u [] g = Inr e"
      "provenanceOver C svc caller enrollment e (OfManagedResource \<lparr>mc_ResourceType = rt, mc_ResourceName = name, mc_Spec = spec\<rparr>)
         g userSig u = Inr p" for e enrollment p
    using that by (auto simp: provenanceOver_def managedProvenanceFor_def split: sum.splits option.splits)
  show ?thesis
    unfolding steps_def BuildManagedResourceProvenance_def
    by (rule then_steps [OF steps_loadEnrollment]) (auto intro!: run_rules intro: over)
qed

lemma steps_managedResumeProvenance:
  assumes "refusedAt tag (f_generation f) (rm_Etag inp) (rm_ExpectedGeneration inp) (rm_UserSignature inp) = None"
  shows "steps w (managedResumeProvenance C svc now inp intent f)
     (\<lambda>prov w'. w' = w \<and>
        (if f_provenance f \<noteq> None \<or> rm_UserSignature inp \<noteq> []
         then \<exists>p. prov = Some p \<and> managedProvenanceFor C svc (rm_ResourceType inp) (rm_Name inp) (ri_Spec intent)
                (i64 (f_generation f + 1)) (rm_UserSignature inp) (rm_ValidUntil inp) p
         else prov = None))"
proof -
  have "(if rm_ExpectedGeneration inp = 0 then i64 (f_generation f + 1) else rm_ExpectedGeneration inp) =
      i64 (f_generation f + 1)"
    using assms by (auto simp: refusedAt_None)
  then show ?thesis
    unfolding steps_def managedResumeProvenance_def
    by (intro triple_if then_steps [OF steps_wrap [OF steps_managed_provenance]]) (auto intro!: run_rules)
qed

definition managedResumed ::
  "'k crypto \<Rightarrow> 'k ProvenanceService \<Rightarrow> ResumeManagedResourceInput \<Rightarrow> store \<Rightarrow> managedResourceMutationResult \<Rightarrow> store \<Rightarrow> bool" where
  "managedResumed C svc inp s mr s' \<longleftrightarrow>
     (\<exists>er m intent f prov f'. managedLoaded (rm_ResourceType inp) (rm_Name inp) s er m intent f \<and>
        refusedAt (extEtag (cr_sha256 C) (managedView er intent f)) (f_generation f) (rm_Etag inp)
          (rm_ExpectedGeneration inp) (rm_UserSignature inp) = None \<and>
        (if f_provenance f \<noteq> None \<or> rm_UserSignature inp \<noteq> []
         then \<exists>p. prov = Some p \<and> managedProvenanceFor C svc (rm_ResourceType inp) (rm_Name inp) (ri_Spec intent)
                (i64 (f_generation f + 1)) (rm_UserSignature inp) (rm_ValidUntil inp) p
         else prov = None) \<and>
        Resume (rm_Auth inp) prov f = Inr f' \<and> mr = managedResult er m intent f' \<and> fulfillmentsUpdate f' s = Inr s')"

lemma managedResumedI:
  assumes "managedLoaded (rm_ResourceType inp) (rm_Name inp) s er m intent f"
    and "refusedAt (extEtag (cr_sha256 C) (managedView er intent f)) (f_generation f) (rm_Etag inp)
          (rm_ExpectedGeneration inp) (rm_UserSignature inp) = None"
    and "if f_provenance f \<noteq> None \<or> rm_UserSignature inp \<noteq> []
         then \<exists>p. prov = Some p \<and> managedProvenanceFor C svc (rm_ResourceType inp) (rm_Name inp) (ri_Spec intent)
                (i64 (f_generation f + 1)) (rm_UserSignature inp) (rm_ValidUntil inp) p
         else prov = None"
    and "Resume (rm_Auth inp) prov f = Inr f'" "fulfillmentsUpdate f' s = Inr s'"
  shows "managedResumed C svc inp s (managedResult er m intent f') s'"
  unfolding managedResumed_def using assms by blast

lemma managedMutateToResumed_triple:
  "triple (at w) (managedMutateToResumed C svc now inp)
     (\<lambda>mr v. managedResumed C svc inp (dbAtBegin w) mr (w_db v) \<and> w_started v = w_started w)
     (\<lambda>e v. (w_db v = w_db w \<or> w_db v = dbAtBegin w) \<and> w_started v = w_started w)"
proof -
  have body: "triple (at (begun w)) (andThen (managedResumeProvenance C svc now inp intent f) (\<lambda>prov.
         case Resume (rm_Auth inp) prov f of
           Inl e \<Rightarrow> throw e
         | Inr f' \<Rightarrow>
             andThen (wrap ''update fulfillment: '' (writes (fulfillmentsUpdate f'))) (\<lambda>_.
             andThen (wrap ''commit: '' Commit) (\<lambda>_.
             ret (managedResult er m intent f')))))
     (\<lambda>mr v. managedResumed C svc inp (dbAtBegin w) mr (w_db v) \<and> w_started v = w_started w)
     (\<lambda>e v. (w_db v = w_db w \<or> w_db v = dbAtBegin w) \<and> w_started v = w_started w)"
    if "managedLoaded (rm_ResourceType inp) (rm_Name inp) (dbAtBegin w) er m intent f"
      "refusedAt (extEtag (cr_sha256 C) (managedView er intent f)) (f_generation f) (rm_Etag inp)
          (rm_ExpectedGeneration inp) (rm_UserSignature inp) = None" for er m intent f
    by (rule then_steps [OF steps_managedResumeProvenance [OF that(2)]], clarify, intro run_rules)
      (auto simp: at_def intro!: managedResumedI [OF that] simp del: if_split)
  show ?thesis
    unfolding managedMutateToResumed_def
    by (rule then_steps [OF steps_Begin], clarify, rule then_steps [OF steps_loadManaged], clarify, intro triple_option at_throw)
      (auto simp: at_def managedLoaded_def extGet_def fullKey_rtFullName intro!: body)
qed

section \<open>Reading back what was created\<close>

lemma fulfillmentsCreate_frame:
  assumes "fulfillmentsCreate f s = Inr s1"
  shows "t_extResources s1 = t_extResources s" "t_intents s1 = t_intents s" "t_extTypes s1 = t_extTypes s"
  using assms
  by (auto simp: fulfillmentsCreate_def flushPendingStrategyRecords_def split: if_splits sum.splits)

lemma extCreate_fulfillments:
  assumes "extCreate r s = Inr s'"
  shows "fulfillmentsGet i s' = fulfillmentsGet i s"
  using assms
  by (auto simp: extCreate_def fulfillmentsGet_def fulfillmentRow_def joinedSnapshot_def
      split: if_splits sum.splits option.splits)

definition storedExtView :: "ExtensionResourceView \<Rightarrow> ExtensionResourceView" where
  "storedExtView v =
     \<lparr>ev_Resource = storedResource (ev_Resource v), ev_Intent = ev_Intent v,
      ev_Fulfillment = map_option storedFresh (ev_Fulfillment v)\<rparr>"

lemma RecordIntent_fresh:
  assumes "RecordIntent spec now (newManagedResource uid fID now inp) = Inr (intent, er)"
  shows "intent = \<lparr>ri_ExtensionResourceUID = uid, ri_Version = 1, ri_Spec = spec, ri_CreatedAt = now\<rparr>"
    and "er = (newManagedResource uid fID now inp)
      \<lparr>er_managed := Some \<lparr>mgd_currentVersion = 1, mgd_fulfillmentID = fID\<rparr>, er_pendingIntents := [intent]\<rparr>"
  using assms
  by (auto simp: RecordIntent_def newManagedResource_def NewExtensionResource_def WithManagedState_def
      WithExtensionLabels_def Let_def i64_one)

lemma newManagedResource_fields [simp]:
  "er_uid (newManagedResource uid fID now inp) = uid" "er_name (newManagedResource uid fID now inp) = cm_Name inp"
  "er_resourceType (newManagedResource uid fID now inp) = cm_ResourceType inp"
  "er_labels (newManagedResource uid fID now inp) = cm_Labels inp"
  by (simp_all add: newManagedResource_def NewExtensionResource_def WithManagedState_def WithExtensionLabels_def)

lemma managedCreated_view:
  assumes "managedCreated now inp s view s'"
  defines "k \<equiv> keyOf (rtServiceName (cm_ResourceType inp)) (cm_Name inp)"
  shows "extRow k s = None"
    and "extGetView (rtFullName (cm_ResourceType inp) (cm_Name inp)) s' = Inr (storedExtView view)"
    and "\<And>k'. k' \<noteq> k \<Longrightarrow> extRow k' s' = extRow k' s"
    and "\<And>i f. fulfillmentsGet i s = Inr f \<Longrightarrow> fulfillmentsGet i s' = Inr f"
    and "\<exists>mgmt f intent uid. et_management (cm_TypeDef inp) = Some mgmt \<and> ev_Fulfillment view = Some f \<and> ev_Intent view = Some intent \<and>
       uid = er_uid (ev_Resource view) \<and> ri_Spec intent = cm_Spec inp \<and>
       DeriveStrategies (mt_relation mgmt) intent = (f_manifestStrategy f, f_placementStrategy f, f_rolloutStrategy f) \<and>
       f_generation f = 1 \<and> f_state f = FulfillmentStateCreating \<and> f_provenance f = cm_Provenance inp \<and>
       extGetIntent uid 1 s' = Inr intent \<and> extGetByUID uid s' = Inr (storedResource (ev_Resource view))"
proof -
  from assms(1) obtain uid fID mgmt intent er s1 where mgmt: "et_management (cm_TypeDef inp) = Some mgmt"
    and rec: "RecordIntent (cm_Spec inp) now (newManagedResource uid fID now inp) = Inr (intent, er)"
    and view: "view = managedView er intent (derivedFulfillment fID now inp (mt_relation mgmt) intent)"
    and f: "fulfillmentsCreate (derivedFulfillment fID now inp (mt_relation mgmt) intent) s = Inr s1"
    and e: "extCreate er s1 = Inr s'"
    by (auto simp: managedCreated_def)
  obtain ms ps rs where derive: "DeriveStrategies (mt_relation mgmt) intent = (ms, ps, rs)" by (metis prod_cases3)
  note get = fulfillmentsCreate_get [OF f [unfolded derivedFulfillment_def derive prod.case]]
  note frame = fulfillmentsCreate_frame [OF f]
  note new = RecordIntent_fresh [OF rec]
  have key: "rowKey er = k" by (simp add: new(2) rowKey_def k_def)
  show "extRow k s = None" using extCreate_Inr(1) [OF e] frame by (simp add: key extRow_def)
  show "extRow k' s' = extRow k' s" if "k' \<noteq> k" for k'
    using extRow_create [OF e, of k'] that frame by (simp add: key extRow_def)
  have row: "extRow k s' = Some (storedResource er)" using extRow_create [OF e] by (simp add: key)
  have intents: "t_intents s' = t_intents s1 @ [intent]" "getRow intentKey (uid, 1) (t_intents s1) = None"
    using extCreate_Inr(6) [OF e] by (auto simp: new intentKey_def split: if_splits)
  then have intent: "getRow intentKey (uid, 1) (t_intents s') = Some intent"
    by (simp add: getRow_append new(1) intentKey_def)
  have ful: "fulfillmentsGet fID s' = Inr (storedFresh (derivedFulfillment fID now inp (mt_relation mgmt) intent))"
    using get(1) extCreate_fulfillments [OF e] by (simp add: derivedFulfillment_def derive)
  have "viewOf (storedResource er) s' = storedExtView view"
    using intent ful by (simp add: viewOf_def storedExtView_def view managedView_def new(2))
  then show "extGetView (rtFullName (cm_ResourceType inp) (cm_Name inp)) s' = Inr (storedExtView view)"
    using row by (simp add: extGetView_def fullKey_rtFullName k_def)
  show "fulfillmentsGet i s' = Inr g" if "fulfillmentsGet i s = Inr g" for i g
  proof -
    have "i \<noteq> fID" using that get(2) by (auto simp: fulfillmentsGet_def notFound_def)
    then show ?thesis using that get(4) extCreate_fulfillments [OF e] by simp
  qed
  have uidRow: "getRow er_uid uid (t_extResources s') = Some (storedResource er)"
    using extCreate_Inr(2,3) [OF e] by (auto simp: getRow_append getRow_None new(2) split: option.split dest: getRow_Some)
  show "\<exists>mgmt f intent uid. et_management (cm_TypeDef inp) = Some mgmt \<and> ev_Fulfillment view = Some f \<and> ev_Intent view = Some intent \<and>
       uid = er_uid (ev_Resource view) \<and> ri_Spec intent = cm_Spec inp \<and>
       DeriveStrategies (mt_relation mgmt) intent = (f_manifestStrategy f, f_placementStrategy f, f_rolloutStrategy f) \<and>
       f_generation f = 1 \<and> f_state f = FulfillmentStateCreating \<and> f_provenance f = cm_Provenance inp \<and>
       extGetIntent uid 1 s' = Inr intent \<and> extGetByUID uid s' = Inr (storedResource (ev_Resource view))"
    using mgmt intent uidRow derive
    by (simp add: view managedView_def derivedFulfillment_def new extGetIntent_def intentKey_def [abs_def] extGetByUID_def)
qed

text \<open>
  C14: creating a managed resource is all or nothing, and what is stored is what will be delivered.
  The activity either fails and commits nothing of its own, or commits a resource whose name was
  free: its view reads back as the one returned; the fulfillment starts at generation one with the
  strategies that the relation of the type derives from the intent; the intent these strategies
  refer to is stored with the specification of the request, and so is the resource they name. Every
  other resource and every fulfillment reads as before.
\<close>

theorem managed_create_all_or_nothing:
  "case PersistManagedResource now inp w of
     (Inl e, w') \<Rightarrow> w_db w' = w_db w \<or> w_db w' = dbAtBegin w
   | (Inr view, w') \<Rightarrow>
       extGet (rtFullName (cm_ResourceType inp) (cm_Name inp)) (dbAtBegin w) = notFound \<and>
       extGetView (rtFullName (cm_ResourceType inp) (cm_Name inp)) (w_db w') = Inr (storedExtView view) \<and>
       (\<exists>mgmt f intent uid. et_management (cm_TypeDef inp) = Some mgmt \<and> ev_Fulfillment view = Some f \<and> ev_Intent view = Some intent \<and>
          uid = er_uid (ev_Resource view) \<and> ri_Spec intent = cm_Spec inp \<and>
          DeriveStrategies (mt_relation mgmt) intent = (f_manifestStrategy f, f_placementStrategy f, f_rolloutStrategy f) \<and>
          f_generation f = 1 \<and> f_state f = FulfillmentStateCreating \<and> f_provenance f = cm_Provenance inp \<and>
          extGetIntent uid 1 (w_db w') = Inr intent \<and> extGetByUID uid (w_db w') = Inr (storedResource (ev_Resource view))) \<and>
       (\<forall>k. extRow k (w_db w') = (if k = keyOf (rtServiceName (cm_ResourceType inp)) (cm_Name inp)
            then Some (storedResource (ev_Resource view)) else extRow k (dbAtBegin w))) \<and>
       {f. \<exists>i. fulfillmentsGet i (dbAtBegin w) = Inr f} \<subseteq> {f. \<exists>i. fulfillmentsGet i (w_db w') = Inr f}"
proof -
  obtain r w' where run: "PersistManagedResource now inp w = (r, w')" by (cases "PersistManagedResource now inp w")
  show ?thesis
  proof (cases r)
    case (Inl e)
    with run show ?thesis using tripleD_Inl [OF PersistManagedResource_triple at_refl, of now inp w e w'] by simp
  next
    case (Inr view)
    then have c: "managedCreated now inp (dbAtBegin w) view (w_db w')"
      using run tripleD_Inr [OF PersistManagedResource_triple at_refl, of now inp w view w'] by simp
    note v = managedCreated_view [OF c]
    have "extRow (keyOf (rtServiceName (cm_ResourceType inp)) (cm_Name inp)) (w_db w') = Some (storedResource (ev_Resource view))"
      using v(2) by (auto simp: extGetView_def fullKey_rtFullName storedExtView_def viewOf_def notFound_def split: option.splits)
    moreover have "{f. \<exists>i. fulfillmentsGet i (dbAtBegin w) = Inr f} \<subseteq> {f. \<exists>i. fulfillmentsGet i (w_db w') = Inr f}"
      using v(4) by blast
    ultimately show ?thesis using v(1,2,3,5) Inr run by (simp add: extGet_def fullKey_rtFullName)
  qed
qed

section \<open>Removing the rows, proved\<close>

definition removedManaged :: "natural_key \<Rightarrow> FulfillmentID \<Rightarrow> store \<Rightarrow> store \<Rightarrow> bool" where
  "removedManaged k i s s' \<longleftrightarrow>
     (\<forall>k'. extRow k' s' = (if k' = k then None else extRow k' s)) \<and>
     (\<forall>j. fulfillmentsGet j s' = (if j = i then notFound else fulfillmentsGet j s)) \<and>
     t_intents s' = filter (\<lambda>t. \<not> list_ex (\<lambda>r. rowKey r = k \<and> er_uid r = ri_ExtensionResourceUID t) (t_extResources s)) (t_intents s)"

lemma extDelete_frame:
  assumes "extDelete n s = Inr s1 \<or> (\<exists>e. extDelete n s = Inl e) \<and> s1 = s"
  shows "extRow k s1 = (if k = fullKey n then None else extRow k s)"
    and "fulfillmentsGet j s1 = fulfillmentsGet j s"
    and "t_intents s1 = filter (\<lambda>t. \<not> list_ex (\<lambda>r. rowKey r = fullKey n \<and> er_uid r = ri_ExtensionResourceUID t) (t_extResources s)) (t_intents s)"
proof -
  let ?gone = "\<lambda>r. rowKey r = fullKey n"
  have "s1 = dropResources ?gone s"
  proof (cases "extRow (fullKey n) s = None")
    case True
    then have "fullKey n \<notin> rowKey ` set (t_extResources s)" by (simp add: extRow_def getRow_None)
    then have "filter (\<lambda>r. \<not> ?gone r) (t_extResources s) = t_extResources s"
        "\<not> list_ex (\<lambda>r. ?gone r \<and> er_uid r = u) (t_extResources s)" for u
      by (force simp: filter_id_conv list_ex_iff)+
    with True assms show ?thesis by (auto simp: extDelete_def dropResources_def)
  qed (use assms in \<open>auto simp: extDelete_def\<close>)
  then show "extRow k s1 = (if k = fullKey n then None else extRow k s)"
      "fulfillmentsGet j s1 = fulfillmentsGet j s"
      "t_intents s1 = filter (\<lambda>t. \<not> list_ex (\<lambda>r. rowKey r = fullKey n \<and> er_uid r = ri_ExtensionResourceUID t) (t_extResources s)) (t_intents s)"
    using getRow_delete [of rowKey k "fullKey n" "t_extResources s"]
    by (auto simp: extRow_def dropResources_def deleteRow_def fulfillmentsGet_def fulfillmentRow_def joinedSnapshot_def
        split: option.splits)
qed

lemma fulfillmentsDelete_frame:
  assumes "fulfillmentsDelete i s1 = Inr s' \<or> (\<exists>e. fulfillmentsDelete i s1 = Inl e \<and> errorsIs e ErrNotFound) \<and> s' = s1"
  shows "fulfillmentsGet j s' = (if j = i then notFound else fulfillmentsGet j s1)"
    and "t_extResources s' = t_extResources s1" "t_intents s' = t_intents s1"
  using assms
  by (auto simp: fulfillmentsDelete_get)
    (auto simp: fulfillmentsDelete_def fulfillmentsGet_def foreignKeyViolation_def Let_def split: if_splits)

lemma removedManagedI:
  assumes "extDelete n s = Inr s1 \<or> (\<exists>e. extDelete n s = Inl e) \<and> s1 = s"
    and "fulfillmentsDelete i s1 = Inr s' \<or> (\<exists>e. fulfillmentsDelete i s1 = Inl e \<and> errorsIs e ErrNotFound) \<and> s' = s1"
  shows "removedManaged (fullKey n) i s s'"
  using extDelete_frame [OF assms(1)] fulfillmentsDelete_frame [OF assms(2)]
  by (simp add: removedManaged_def extRow_def)

lemma DeleteManagedResourceAndFulfillment_triple:
  "triple (at w) (DeleteManagedResourceAndFulfillment rt name i)
     (\<lambda>_ v. removedManaged (keyOf (rtServiceName rt) name) i (dbAtBegin w) (w_db v))
     (\<lambda>_ v. w_db v = w_db w \<or> w_db v = dbAtBegin w)"
proof -
  let ?n = "rtFullName rt name"
  have rest: "triple (at w1) (andThen (unlessNotFound q (writes (fulfillmentsDelete i))) (\<lambda>_. Commit))
      (\<lambda>_ v. removedManaged (keyOf (rtServiceName rt) name) i (dbAtBegin w) (w_db v))
      (\<lambda>_ v. w_db v = w_db w \<or> w_db v = dbAtBegin w)"
    if "w_db w1 = dbAtBegin w"
      "extDelete ?n (dbAtBegin w) = Inr (w_tx w1) \<or> (\<exists>e. extDelete ?n (dbAtBegin w) = Inl e) \<and> w_tx w1 = dbAtBegin w" for w1 q
    using that(1) removedManagedI [OF that(2)]
    by (intro then_steps [OF steps_unlessNotFound] last_steps [OF steps_Commit])
      (auto simp: at_def fullKey_rtFullName)
  show ?thesis
    unfolding DeleteManagedResourceAndFulfillment_def
    by (intro then_steps [OF steps_Begin] then_steps [OF steps_unlessNotFound] rest) (auto simp: at_def)
qed

text \<open>
  A managed resource, its intents and its fulfillment disappear together. The activity of the
  clean-up workflow either commits nothing of its own, or leaves neither the resource nor an intent
  of it nor the fulfillment, whether they were there before or not; every other resource, every
  intent of another resource and every other fulfillment are as they were.
\<close>

theorem managed_cleanup_removes_all:
  "case DeleteManagedResourceAndFulfillment rt name i w of
     (Inl e, w') \<Rightarrow> w_db w' = w_db w \<or> w_db w' = dbAtBegin w
   | (Inr _, w') \<Rightarrow>
       (\<forall>k. extRow k (w_db w') = (if k = keyOf (rtServiceName rt) name then None else extRow k (dbAtBegin w))) \<and>
       (\<forall>j. fulfillmentsGet j (w_db w') = (if j = i then notFound else fulfillmentsGet j (dbAtBegin w))) \<and>
       t_intents (w_db w') =
         filter (\<lambda>t. \<not> list_ex (\<lambda>r. rowKey r = keyOf (rtServiceName rt) name \<and> er_uid r = ri_ExtensionResourceUID t)
                  (t_extResources (dbAtBegin w))) (t_intents (dbAtBegin w))"
  using tripleD_Inr [OF DeleteManagedResourceAndFulfillment_triple at_refl, of rt name i w]
    tripleD_Inl [OF DeleteManagedResourceAndFulfillment_triple at_refl, of rt name i w]
  by (auto simp: removedManaged_def simp del: split_paired_All split: prod.splits sum.splits)

end
