(* ===== verification/FS_Identity.thy ===== *)
theory FS_Identity
  imports FS_Extension
begin

text \<open>
  The identities of platform resources: the SQLite repository
  (\<^verbatim>\<open>infrastructure/sqlite/resource_identity_repo.go\<close>) and the service in front of it
  (\<^verbatim>\<open>application/platform_resource_service.go\<close>). A platform resource is stored only when
  it has labels or relationships of its own; a name that has representations and no row is read as a
  virtual resource. The table of alias contributions is left out: no statement of the program
  inserts into it, so every count of contributions is zero.
\<close>

section \<open>Rows\<close>

type_synonym platform_key = "CollectionName \<times> ResourceID"

definition nameKey :: "ResourceName \<Rightarrow> platform_key" where
  "nameKey n = (nameCollection n, nameID n)"

definition rowName :: "platform_key \<Rightarrow> ResourceName" where
  "rowName k = fst k @ [slash] @ snd k"

definition platformKey :: "platform_row \<Rightarrow> platform_key" where
  "platformKey r = (pw_collection r, pw_resourceID r)"

definition claimOwner :: "alias_claim \<Rightarrow> platform_key" where
  "claimOwner c = (cl_collection c, cl_resourceID c)"

definition relationKey :: "ResourceRelationship \<Rightarrow> platform_key \<times> RelationshipType \<times> platform_key" where
  "relationKey r = (nameKey (rl_sourceName r), rl_relType r, nameKey (rl_targetName r))"

section \<open>Reconciling the children\<close>

definition aliasText :: "Alias \<Rightarrow> string" where
  "aliasText a = al_namespace a @ ''/'' @ al_key a @ ''/'' @ al_value a"

definition newClaim :: "go_time \<Rightarrow> ResourceName \<Rightarrow> Alias \<Rightarrow> alias_claim" where
  "newClaim clock name a =
     \<lparr>cl_alias = a, cl_collection = nameCollection name, cl_resourceID = nameID name, cl_platformOwned = True,
      cl_createdAt = storedTime clock\<rparr>"

fun assertAliases :: "go_time \<Rightarrow> ResourceName \<Rightarrow> Alias list \<Rightarrow> alias_claim list \<Rightarrow> alias_claim list result" where
  "assertAliases clock name [] claims = Inr claims"
| "assertAliases clock name (a # as) claims =
     (case getRow cl_alias a claims of
        Some c \<Rightarrow>
          if claimOwner c \<noteq> nameKey name
          then Inl (Wrapped (''alias '' @ aliasText a @ '' owned by '' @ rowName (claimOwner c) @ '', not '' @ name @ '': '')
                      (Sentinel ErrAlreadyExists) '''')
          else if cl_platformOwned c then assertAliases clock name as claims
          else assertAliases clock name as
                 (map (\<lambda>x. if cl_alias x = a then x\<lparr>cl_platformOwned := True\<rparr> else x) claims)
      | None \<Rightarrow>
          if list_ex (\<lambda>x. aliasRef (cl_alias x) = aliasRef a \<and> claimOwner x = nameKey name) claims
          then Inl (Wrapped (''alias '' @ aliasText a @ '': '') (Sentinel ErrAlreadyExists) '''')
          else assertAliases clock name as (claims @ [newClaim clock name a]))"

definition retractAbsentPlatformOwnedAliases :: "ResourceName \<Rightarrow> Alias list \<Rightarrow> alias_claim list \<Rightarrow> alias_claim list" where
  "retractAbsentPlatformOwnedAliases name asserted claims =
     filter (\<lambda>c. \<not> (claimOwner c = nameKey name \<and> cl_platformOwned c \<and> cl_alias c \<notin> set asserted)) claims"

definition reconcileAliases :: "go_time \<Rightarrow> PlatformResource \<Rightarrow> store \<Rightarrow> store result" where
  "reconcileAliases clock p s =
     (case assertAliases clock (pr_name p) (pr_aliases p) (t_aliasClaims s) of
        Inl e \<Rightarrow> Inl e
      | Inr claims \<Rightarrow> Inr (s\<lparr>t_aliasClaims := retractAbsentPlatformOwnedAliases (pr_name p) (pr_aliases p) claims\<rparr>))"

definition relationRow :: "ResourceName \<Rightarrow> ResourceRelationship \<Rightarrow> ResourceRelationship" where
  "relationRow source rel =
     \<lparr>rl_sourceName = rowName (nameKey source), rl_relType = rl_relType rel,
      rl_targetName = rowName (nameKey (rl_targetName rel)), rl_sourceService = rl_sourceService rel,
      rl_createdAt = storedTime (rl_createdAt rel)\<rparr>"

text \<open>Both ends of a relationship are foreign keys into the table of platform resources.\<close>

fun reconcileRelationships :: "ResourceName \<Rightarrow> ResourceRelationship list \<Rightarrow> store \<Rightarrow> store result" where
  "reconcileRelationships source [] s = Inr s"
| "reconcileRelationships source (rel # rels) s =
     (let row = relationRow source rel
      in if getRow relationKey (relationKey row) (t_relationships s) = None \<and>
            (getRow platformKey (nameKey source) (t_platform s) = None \<or>
             getRow platformKey (nameKey (rl_targetName rel)) (t_platform s) = None)
         then Inl (Wrapped ''upsert relationship: '' (Plain ''FOREIGN KEY constraint failed'') '''')
         else reconcileRelationships source rels
                (s\<lparr>t_relationships :=
                     upsertRow relationKey (\<lambda>old new. old\<lparr>rl_sourceService := rl_sourceService new\<rparr>) row (t_relationships s)\<rparr>))"

definition reconcile :: "go_time \<Rightarrow> PlatformResource \<Rightarrow> store \<Rightarrow> store result" where
  "reconcile clock p s =
     (case reconcileAliases clock p s of
        Inl e \<Rightarrow> Inl e
      | Inr s1 \<Rightarrow> reconcileRelationships (pr_name p) (pr_relationships p) s1)"

section \<open>Create and update\<close>

definition platformCreate :: "go_time \<Rightarrow> PlatformResource \<Rightarrow> store \<Rightarrow> store result" where
  "platformCreate clock p s =
     (if getRow platformKey (nameKey (pr_name p)) (t_platform s) \<noteq> None
      then Inl (rowExists ''platform resource'' (pr_name p))
      else reconcile clock p
             (s\<lparr>t_platform := t_platform s @
                  [\<lparr>pw_collection = nameCollection (pr_name p), pw_resourceID = nameID (pr_name p), pw_labels = pr_labels p,
                    pw_createdAt = storedTime (pr_createdAt p), pw_updatedAt = storedTime (pr_updatedAt p)\<rparr>]\<rparr>))"

definition platformUpdate :: "go_time \<Rightarrow> PlatformResource \<Rightarrow> store \<Rightarrow> store result" where
  "platformUpdate clock p s =
     (if getRow platformKey (nameKey (pr_name p)) (t_platform s) = None
      then Inl (noRow ''platform resource'' (pr_name p))
      else reconcile clock p
             (s\<lparr>t_platform := map (\<lambda>r. if platformKey r = nameKey (pr_name p)
                  then r\<lparr>pw_labels := pr_labels p, pw_updatedAt := storedTime (pr_updatedAt p)\<rparr> else r) (t_platform s)\<rparr>))"

section \<open>Reading\<close>

text \<open>
  The \<^verbatim>\<open>time.RFC3339Nano\<close> text of an instant, as far as its order matters: within one second
  the texts differ in the fraction, whose trailing zeros are dropped.
\<close>

definition nanoText :: "go_time \<Rightarrow> int \<times> string" where
  "nanoText t =
     (let n = t mod 1000000000;
          digits = itoa n;
          padded = replicate (9 - length digits) (CHR ''0'') @ digits;
          trimmed = rev (dropWhile (\<lambda>c. c = CHR ''0'') (rev padded))
      in (t div 1000000000, if n = 0 then ''Z'' else ''.'' @ trimmed @ ''Z''))"

text \<open>\<^verbatim>\<open>MIN\<close> and \<^verbatim>\<open>MAX\<close> over a text column.\<close>

definition minText :: "go_time list \<Rightarrow> go_time" where
  "minText ts = foldr (\<lambda>t m. if nanoText t \<le> nanoText m then t else m) (butlast ts) (last ts)"

definition maxText :: "go_time list \<Rightarrow> go_time" where
  "maxText ts = foldr (\<lambda>t m. if nanoText m \<le> nanoText t then t else m) (butlast ts) (last ts)"

definition atName :: "platform_key \<Rightarrow> store \<Rightarrow> ExtensionResource list" where
  "atName k s = filter (\<lambda>r. nameKey (er_name r) = k) (t_extResources s)"

text \<open>The representations of a name: its extension resources, joined with their types.\<close>

definition representations :: "platform_key \<Rightarrow> store \<Rightarrow> ResourceRepresentation list" where
  "representations k s =
     concat (map (\<lambda>r.
       case getRow rowTypeKey (typeKey (er_resourceType r)) (t_extTypes s) of
         None \<Rightarrow> []
       | Some t \<Rightarrow> [\<lparr>rp_serviceName = rtServiceName (er_resourceType r), rp_version = et_apiVersion t, rp_name = rowName k,
                     rp_extensionResourceUID = er_uid r, rp_createdAt = er_createdAt r, rp_updatedAt = er_updatedAt r\<rparr>])
       (sort_key (\<lambda>r. rtServiceName (er_resourceType r)) (atName k s)))"

definition platformAggregate :: "platform_key \<Rightarrow> string_map \<Rightarrow> go_time \<Rightarrow> go_time \<Rightarrow> store \<Rightarrow> PlatformResource" where
  "platformAggregate k labels created updated s =
     PlatformResourceFromSnapshot
       \<lparr>prs_Name = rowName k, prs_Labels = labels, prs_CreatedAt = created, prs_UpdatedAt = updated,
        prs_Representations = representations k s,
        prs_Aliases = map (\<lambda>c. (al_namespace (cl_alias c), al_key (cl_alias c), al_value (cl_alias c), cl_createdAt c))
          (sort_key (\<lambda>c. aliasRef (cl_alias c)) (filter (\<lambda>c. claimOwner c = k) (t_aliasClaims s))),
        prs_Relationships =
          sort_key (\<lambda>r. (rl_relType r, nameKey (rl_targetName r)))
            (filter (\<lambda>r. nameKey (rl_sourceName r) = k) (t_relationships s))\<rparr>"

text \<open>The physical row of a name, or the virtual resource that its representations give.\<close>

definition platformAt :: "platform_key \<Rightarrow> store \<Rightarrow> PlatformResource option" where
  "platformAt k s =
     (case getRow platformKey k (t_platform s) of
        Some r \<Rightarrow> Some (platformAggregate k (pw_labels r) (pw_createdAt r) (pw_updatedAt r) s)
      | None \<Rightarrow>
          (case atName k s of
             [] \<Rightarrow> None
           | ers \<Rightarrow> Some (platformAggregate k fmempty (minText (map er_createdAt ers)) (maxText (map er_updatedAt ers)) s)))"

definition platformGetByName :: "ResourceName \<Rightarrow> store \<Rightarrow> PlatformResource result" where
  "platformGetByName name s = orNotFound (platformAt (nameKey name) s)"

definition platformListByCollection :: "CollectionName \<Rightarrow> store \<Rightarrow> PlatformResource list" where
  "platformListByCollection c s =
     (let ids = map pw_resourceID (filter (\<lambda>r. pw_collection r = c) (t_platform s)) @
                map (\<lambda>r. nameID (er_name r)) (filter (\<lambda>r. nameCollection (er_name r) = c) (t_extResources s))
      in concat (map (\<lambda>i. case platformAt (c, i) s of None \<Rightarrow> [] | Some p \<Rightarrow> [p]) (sort (remdups ids))))"

definition ResolveAliasesBatch :: "Alias list \<Rightarrow> store \<Rightarrow> Alias \<Rightarrow> ResourceName option" where
  "ResolveAliasesBatch aliases s a =
     (if a \<in> set aliases then map_option (\<lambda>c. rowName (claimOwner c)) (getRow cl_alias a (t_aliasClaims s)) else None)"

section \<open>The platform-resource service\<close>

definition platformServiceCreate :: "go_time \<Rightarrow> go_time \<Rightarrow> ResourceName \<Rightarrow> string_map \<Rightarrow> PlatformResource io" where
  "platformServiceCreate now clock name labels =
     andThen Begin (\<lambda>_.
     let p = NewPlatformResource name labels now
     in andThen (wrap ''create: '' (writes (platformCreate clock p))) (\<lambda>_.
        andThen (wrap ''commit: '' Commit) (\<lambda>_. ret p)))"

definition platformServiceGet :: "ResourceName \<Rightarrow> PlatformResource io" where
  "platformServiceGet name =
     andThen (beginTx ''begin tx: '') (\<lambda>_.
     andThen (reads (platformGetByName name)) (\<lambda>p.
     andThen EndReadOnly (\<lambda>_. ret p)))"

definition platformServiceList :: "CollectionName \<Rightarrow> PlatformResource list io" where
  "platformServiceList c =
     andThen (beginTx ''begin tx: '') (\<lambda>_.
     andThen (reads (\<lambda>s. Inr (platformListByCollection c s))) (\<lambda>ps.
     andThen EndReadOnly (\<lambda>_. ret ps)))"

section \<open>Integrity of the identity tables\<close>

lemma nameKey_row [simp]: "nameKey (rowName (nameKey n)) = nameKey n"
  by (simp add: nameKey_def rowName_def)

definition claimRef :: "alias_claim \<Rightarrow> AliasRef \<times> platform_key" where
  "claimRef c = (aliasRef (cl_alias c), claimOwner c)"

text \<open>One owner per alias, one value per resource and reference; every claim is asserted by its resource.\<close>

definition claimsOK :: "alias_claim list \<Rightarrow> bool" where
  "claimsOK claims \<longleftrightarrow>
     distinct (map cl_alias claims) \<and> distinct (map claimRef claims) \<and>
     list_all (\<lambda>c. cl_platformOwned c \<and> nameKey (rowName (claimOwner c)) = claimOwner c) claims"

definition relationsOK :: "platform_row list \<Rightarrow> ResourceRelationship list \<Rightarrow> bool" where
  "relationsOK rows rels \<longleftrightarrow>
     distinct (map relationKey rels) \<and>
     (\<Union>r \<in> set rels. {nameKey (rl_sourceName r), nameKey (rl_targetName r)}) \<subseteq> platformKey ` set rows"

definition identityOK :: "store \<Rightarrow> bool" where
  "identityOK s \<longleftrightarrow>
     distinct (map platformKey (t_platform s)) \<and> claimsOK (t_aliasClaims s) \<and> relationsOK (t_platform s) (t_relationships s)"

lemma claimOwner_new [simp]: "claimOwner (newClaim clock name a) = nameKey name" "cl_alias (newClaim clock name a) = a"
    "cl_platformOwned (newClaim clock name a)"
  by (simp_all add: claimOwner_def newClaim_def nameKey_def)

lemma assertAliases_Inr:
  assumes "assertAliases clock name as claims = Inr claims'" "claimsOK claims"
  shows "claimsOK claims' \<and> (\<forall>c \<in> set claims. cl_alias c \<in> set as \<longrightarrow> claimOwner c = nameKey name) \<and>
    (\<exists>news. claims' = claims @ map (newClaim clock name) news \<and> set news = set as - cl_alias ` set claims)"
  using assms
proof (induction clock name as claims rule: assertAliases.induct)
  case (2 clock name a as claims)
  show ?case
  proof (cases "getRow cl_alias a claims")
    case None
    with "2.prems" have fresh: "a \<notin> cl_alias ` set claims"
        "\<not> list_ex (\<lambda>x. aliasRef (cl_alias x) = aliasRef a \<and> claimOwner x = nameKey name) claims"
      and rest: "assertAliases clock name as (claims @ [newClaim clock name a]) = Inr claims'"
      by (auto simp: getRow_None split: if_splits)
    then have "claimsOK (claims @ [newClaim clock name a])"
      using "2.prems"(2) by (auto simp: claimsOK_def claimRef_def list_ex_iff)
    from "2.IH"(1) [OF None fresh(2) rest this] obtain news where
      "claimsOK claims'" "\<forall>c \<in> set claims. cl_alias c \<in> set as \<longrightarrow> claimOwner c = nameKey name"
      "claims' = claims @ map (newClaim clock name) (a # news)" "set news = set as - cl_alias ` set (claims @ [newClaim clock name a])"
      by auto
    moreover from this fresh have "set (a # news) = set (a # as) - cl_alias ` set claims" by auto
    ultimately show ?thesis using fresh by (metis (no_types, lifting) image_eqI set_ConsD)
  next
    case (Some c)
    then have c: "c \<in> set claims" "cl_alias c = a" by (auto dest: getRow_Some)
    with "2.prems"(2) have "cl_platformOwned c" by (auto simp: claimsOK_def list_all_iff)
    with Some "2.prems" have own: "claimOwner c = nameKey name" and rest: "assertAliases clock name as claims = Inr claims'"
      by (auto split: if_splits)
    have same: "claimOwner d = nameKey name" if "d \<in> set claims" "cl_alias d = a" for d
      using that c own "2.prems"(2) by (auto simp: claimsOK_def distinct_map inj_on_def)
    from "2.IH"(2) [OF Some _ _ rest "2.prems"(2)] own \<open>cl_platformOwned c\<close> c same show ?thesis by fastforce
  qed
qed auto

lemma reconcileAliases_Inr:
  assumes "reconcileAliases clock p s = Inr s'" "claimsOK (t_aliasClaims s)"
  defines "k \<equiv> nameKey (pr_name p)"
  shows "\<exists>claims. s' = s\<lparr>t_aliasClaims := claims\<rparr> \<and> claimsOK claims \<and>
      cl_alias ` {c \<in> set claims. claimOwner c = k} = set (pr_aliases p) \<and>
      (\<forall>k'. k' \<noteq> k \<longrightarrow> filter (\<lambda>c. claimOwner c = k') claims = filter (\<lambda>c. claimOwner c = k') (t_aliasClaims s))"
proof -
  from assms(1) obtain claims where run: "assertAliases clock (pr_name p) (pr_aliases p) (t_aliasClaims s) = Inr claims"
    and s': "s' = s\<lparr>t_aliasClaims := retractAbsentPlatformOwnedAliases (pr_name p) (pr_aliases p) claims\<rparr>"
    by (auto simp: reconcileAliases_def split: sum.splits)
  from assertAliases_Inr [OF run assms(2)] obtain news where ok: "claimsOK claims"
    and own: "\<forall>c \<in> set (t_aliasClaims s). cl_alias c \<in> set (pr_aliases p) \<longrightarrow> claimOwner c = k"
    and claims: "claims = t_aliasClaims s @ map (newClaim clock (pr_name p)) news"
    and news: "set news = set (pr_aliases p) - cl_alias ` set (t_aliasClaims s)"
    by (auto simp: k_def)
  let ?kept = "retractAbsentPlatformOwnedAliases (pr_name p) (pr_aliases p) claims"
  have kept: "set ?kept = {c \<in> set claims. claimOwner c = k \<longrightarrow> cl_alias c \<in> set (pr_aliases p)}"
    using ok by (auto simp: retractAbsentPlatformOwnedAliases_def claimsOK_def list_all_iff k_def)
  have "claimsOK ?kept"
    using ok by (auto simp: retractAbsentPlatformOwnedAliases_def claimsOK_def distinct_map inj_on_def list_all_iff)
  moreover have "cl_alias ` {c \<in> set ?kept. claimOwner c = k} = set (pr_aliases p)"
  proof (intro equalityI subsetI)
    fix a assume a: "a \<in> set (pr_aliases p)"
    show "a \<in> cl_alias ` {c \<in> set ?kept. claimOwner c = k}"
    proof (cases "a \<in> cl_alias ` set (t_aliasClaims s)")
      case True
      then obtain c where c: "c \<in> set (t_aliasClaims s)" "cl_alias c = a" by auto
      then have "c \<in> set claims" by (simp add: claims)
      with a own c show ?thesis by (intro image_eqI [of _ _ c]) (auto simp: kept)
    next
      case False
      with a news have "newClaim clock (pr_name p) a \<in> set claims" by (auto simp: claims)
      then show ?thesis using a by (intro image_eqI [of _ _ "newClaim clock (pr_name p) a"]) (auto simp: kept k_def)
    qed
  qed (auto simp: kept)
  moreover have "filter (\<lambda>c. claimOwner c = k') ?kept = filter (\<lambda>c. claimOwner c = k') (t_aliasClaims s)" if "k' \<noteq> k" for k'
  proof -
    have "filter (\<lambda>c. claimOwner c = k') (map (newClaim clock (pr_name p)) news) = []"
      using that by (simp add: filter_empty_conv k_def)
    moreover have "filter (\<lambda>c. claimOwner c = k') ?kept = filter (\<lambda>c. claimOwner c = k') claims"
      unfolding retractAbsentPlatformOwnedAliases_def filter_filter
      by (rule filter_cong) (use that in \<open>auto simp: k_def\<close>)
    ultimately show ?thesis by (simp add: claims)
  qed
  ultimately show ?thesis using s' by blast
qed

lemma keys_map:
  assumes "\<And>x. key (f x) = key x"
  shows "map key (map f xs) = map key xs" "key ` set (map f xs) = key ` set xs"
  using assms by (simp_all add: comp_def image_image)

lemma filter_upsertRow_other:
  assumes "\<not> P r" "\<And>x. key x = key r \<Longrightarrow> \<not> P x \<and> \<not> P (merge x r)"
  shows "filter P (upsertRow key merge r rows) = filter P rows"
proof -
  have "filter P (map (\<lambda>x. if key x = key r then merge x r else x) rows) = filter P rows"
    using assms by (induction rows) auto
  then show ?thesis using assms by (simp add: upsertRow_def)
qed

lemma keys_upsertRow:
  assumes "\<And>x. key x = key r \<Longrightarrow> key (merge x r) = key r"
  shows "key ` set (upsertRow key merge r rows) = insert (key r) (key ` set rows)"
    and "distinct (map key rows) \<Longrightarrow> distinct (map key (upsertRow key merge r rows))"
proof -
  have keys: "map key (map (\<lambda>x. if key x = key r then merge x r else x) rows) = map key rows"
    using assms by (auto simp: comp_def)
  show "key ` set (upsertRow key merge r rows) = insert (key r) (key ` set rows)"
    unfolding upsertRow_def using arg_cong [OF keys, of set] by (auto simp: getRow_None simp del: map_map)
  show "distinct (map key (upsertRow key merge r rows))" if "distinct (map key rows)"
    unfolding upsertRow_def using that keys by (auto simp: getRow_None simp del: map_map)
qed

lemma relationKey_row: "relationKey (relationRow source rel) = (nameKey source, rl_relType rel, nameKey (rl_targetName rel))"
  by (simp add: relationKey_def relationRow_def)

lemma relationsOK_keys:
  "relationsOK rows rels \<longleftrightarrow>
     distinct (map relationKey rels) \<and>
     (\<forall>q \<in> relationKey ` set rels. {fst q, snd (snd q)} \<subseteq> platformKey ` set rows)"
  by (auto simp: relationsOK_def relationKey_def)

lemma reconcileRelationships_Inr:
  assumes "reconcileRelationships source rels s = Inr s'" "relationsOK (t_platform s) (t_relationships s)"
  shows "\<exists>rows. s' = s\<lparr>t_relationships := rows\<rparr> \<and> relationsOK (t_platform s) rows \<and>
      relationKey ` set rows =
        relationKey ` set (t_relationships s) \<union> (\<lambda>r. (nameKey source, rl_relType r, nameKey (rl_targetName r))) ` set rels \<and>
      (\<forall>k'. k' \<noteq> nameKey source \<longrightarrow>
         filter (\<lambda>r. nameKey (rl_sourceName r) = k') rows = filter (\<lambda>r. nameKey (rl_sourceName r) = k') (t_relationships s))"
  using assms
proof (induction source rels s rule: reconcileRelationships.induct)
  case (1 source s)
  then show ?case by (intro exI [of _ "t_relationships s"]) simp
next
  case (2 source rel rels s)
  let ?row = "relationRow source rel"
  let ?rows = "upsertRow relationKey (\<lambda>old new. old\<lparr>rl_sourceService := rl_sourceService new\<rparr>) ?row (t_relationships s)"
  from "2.prems" have rest: "reconcileRelationships source rels (s\<lparr>t_relationships := ?rows\<rparr>) = Inr s'"
    and ends: "relationKey ?row \<in> relationKey ` set (t_relationships s) \<or>
      {nameKey source, nameKey (rl_targetName rel)} \<subseteq> platformKey ` set (t_platform s)"
    by (auto simp: Let_def getRow_None split: if_splits)
  have keep: "relationKey (x\<lparr>rl_sourceService := v\<rparr>) = relationKey x" for x v by (simp add: relationKey_def)
  have keys: "relationKey ` set ?rows = insert (relationKey ?row) (relationKey ` set (t_relationships s))"
      "distinct (map relationKey ?rows)"
    using keys_upsertRow [of relationKey ?row "\<lambda>old new. old\<lparr>rl_sourceService := rl_sourceService new\<rparr>" "t_relationships s"]
      "2.prems"(2) by (simp_all add: keep relationsOK_def)
  from ends "2.prems"(2) have "{fst (relationKey ?row), snd (snd (relationKey ?row))} \<subseteq> platformKey ` set (t_platform s)"
    unfolding relationsOK_keys by (elim disjE) (blast, simp add: relationKey_row)
  then have "relationsOK (t_platform s) ?rows"
    using keys "2.prems"(2) by (simp add: relationsOK_keys)
  then have ok: "relationsOK (t_platform (s\<lparr>t_relationships := ?rows\<rparr>)) (t_relationships (s\<lparr>t_relationships := ?rows\<rparr>))" by simp
  have other: "filter (\<lambda>r. nameKey (rl_sourceName r) = k') ?rows = filter (\<lambda>r. nameKey (rl_sourceName r) = k') (t_relationships s)"
    if "k' \<noteq> nameKey source" for k'
    by (rule filter_upsertRow_other) (use that in \<open>auto simp: relationRow_def relationKey_def\<close>)
  have "\<not> (getRow relationKey (relationKey ?row) (t_relationships s) = None \<and>
      (getRow platformKey (nameKey source) (t_platform s) = None \<or>
       getRow platformKey (nameKey (rl_targetName rel)) (t_platform s) = None))"
    using ends by (auto simp: getRow_None)
  from "2.IH" [OF refl this rest ok] obtain rows where "s' = s\<lparr>t_relationships := rows\<rparr>" "relationsOK (t_platform s) rows"
    "relationKey ` set rows = relationKey ` set ?rows \<union> (\<lambda>r. (nameKey source, rl_relType r, nameKey (rl_targetName r))) ` set rels"
    "\<forall>k'. k' \<noteq> nameKey source \<longrightarrow>
       filter (\<lambda>r. nameKey (rl_sourceName r) = k') rows = filter (\<lambda>r. nameKey (rl_sourceName r) = k') ?rows"
    by auto
  then show ?case using keys other by (intro exI [of _ rows]) (simp add: relationKey_row)
qed

section \<open>Reading after writing\<close>

lemma set_NewAliasSet: "distinct (map aliasRef xs) \<Longrightarrow> set (NewAliasSet xs) = set xs"
proof -
  assume d: "distinct (map aliasRef xs)"
  have "x \<in> set (NewAliasSet xs) \<longleftrightarrow> aliasGet (NewAliasSet xs) (aliasRef x) = Some x" for x
    using aliasGet_index [of "NewAliasSet xs"] index_by_distinct [of aliasRef "NewAliasSet xs"] index_by_SomeD canonical_NewAliasSet
    by (metis canonical_def)
  moreover have "x \<in> set xs \<longleftrightarrow> index_by aliasRef xs (aliasRef x) = Some x" for x
    using d index_by_distinct index_by_SomeD by metis
  ultimately show "set (NewAliasSet xs) = set xs" by (auto simp: aliasGet_NewAliasSet)
qed

lemma aggregate_fields:
  "pr_labels (platformAggregate k labels c u s) = labels" "pr_createdAt (platformAggregate k labels c u s) = c"
  "pr_updatedAt (platformAggregate k labels c u s) = u" "pr_name (platformAggregate k labels c u s) = rowName k"
  "pr_representations (platformAggregate k labels c u s) = representations k s"
  "set (pr_relationships (platformAggregate k labels c u s)) = {r \<in> set (t_relationships s). nameKey (rl_sourceName r) = k}"
  by (simp_all add: platformAggregate_def PlatformResourceFromSnapshot_def)

lemma alias_eta [simp]: "\<lparr>al_namespace = al_namespace a, al_key = al_key a, al_value = al_value a\<rparr> = a"
  by (cases a) simp

lemma aggregate_aliases:
  assumes "claimsOK (t_aliasClaims s)" "canonical as" "cl_alias ` {c \<in> set (t_aliasClaims s). claimOwner c = k} = set as"
  shows "pr_aliases (platformAggregate k labels c u s) = as"
proof -
  let ?cs = "sort_key (\<lambda>c. aliasRef (cl_alias c)) (filter (\<lambda>c. claimOwner c = k) (t_aliasClaims s))"
  have "distinct (map (\<lambda>c. aliasRef (cl_alias c)) (filter (\<lambda>c. claimOwner c = k) (t_aliasClaims s)))"
    using assms(1) by (auto simp: claimsOK_def claimRef_def distinct_map inj_on_def)
  then have "distinct (map aliasRef (map cl_alias ?cs))" by (simp add: distinct_map inj_on_def)
  then have "set (NewAliasSet (map cl_alias ?cs)) = set as" using assms(3) by (simp add: set_NewAliasSet)
  then have "NewAliasSet (map cl_alias ?cs) = as"
    using assms(2) canonical_NewAliasSet by (intro sort_rank_unique) auto
  then show ?thesis by (simp add: platformAggregate_def PlatformResourceFromSnapshot_def AliasFromSnapshot_def comp_def)
qed

lemma platformAt_cong:
  assumes "getRow platformKey k (t_platform s') = getRow platformKey k (t_platform s)"
    and "t_extResources s' = t_extResources s" "t_extTypes s' = t_extTypes s"
    and "filter (\<lambda>c. claimOwner c = k) (t_aliasClaims s') = filter (\<lambda>c. claimOwner c = k) (t_aliasClaims s)"
    and "filter (\<lambda>r. nameKey (rl_sourceName r) = k) (t_relationships s') = filter (\<lambda>r. nameKey (rl_sourceName r) = k) (t_relationships s)"
  shows "platformAt k s' = platformAt k s"
proof -
  have "atName k s' = atName k s" by (simp add: atName_def assms(2))
  moreover from this have "platformAggregate k l c u s' = platformAggregate k l c u s" for l c u
    by (simp add: platformAggregate_def representations_def assms(3,4,5))
  ultimately show ?thesis unfolding platformAt_def assms(1) by (simp split: option.split list.split)
qed

lemma claims_by_alias:
  assumes "claimsOK claims" "claimsOK claims'"
    and "cl_alias ` {c \<in> set claims'. claimOwner c = k} = A"
    and "\<And>k'. k' \<noteq> k \<Longrightarrow> filter (\<lambda>c. claimOwner c = k') claims' = filter (\<lambda>c. claimOwner c = k') claims"
  shows "map_option claimOwner (getRow cl_alias a claims') =
    (if a \<in> A then Some k else if map_option claimOwner (getRow cl_alias a claims) = Some k then None
     else map_option claimOwner (getRow cl_alias a claims))"
proof -
  have find: "map_option claimOwner (getRow cl_alias a cs) = Some q \<longleftrightarrow> a \<in> cl_alias ` {c \<in> set cs. claimOwner c = q}"
    if "claimsOK cs" for cs q
  proof
    assume "a \<in> cl_alias ` {c \<in> set cs. claimOwner c = q}"
    then obtain c where c: "c \<in> set cs" "cl_alias c = a" "claimOwner c = q" by auto
    then obtain d where d: "getRow cl_alias a cs = Some d" using getRow_None [of cl_alias a cs] by fastforce
    with getRow_Some [OF d] c that have "d = c" by (auto simp: claimsOK_def distinct_map inj_on_def)
    with d c show "map_option claimOwner (getRow cl_alias a cs) = Some q" by simp
  qed (auto dest: getRow_Some)
  have "{c \<in> set claims'. claimOwner c = q} = {c \<in> set claims. claimOwner c = q}" if "q \<noteq> k" for q
    using arg_cong [OF assms(4) [OF that], of set] by auto
  then have "map_option claimOwner (getRow cl_alias a claims') = Some q \<longleftrightarrow>
      (if q = k then a \<in> A else map_option claimOwner (getRow cl_alias a claims) = Some q)" for q
    using find [OF assms(1), of q] find [OF assms(2), of q] assms(3) by simp
  then show ?thesis by (metis not_None_eq)
qed

text \<open>What reconciling leaves of every name: \<open>s\<close> already holds the row of the resource.\<close>

lemma reconcile_Inr:
  assumes "reconcile clock p s = Inr s'" "identityOK s" "canonical (pr_aliases p)"
  defines "k \<equiv> nameKey (pr_name p)"
  shows "identityOK s'" "t_platform s' = t_platform s \<and> t_extResources s' = t_extResources s \<and> t_extTypes s' = t_extTypes s"
    and "pr_aliases (platformAggregate k labels c u s') = pr_aliases p"
    and "relationKey ` {r \<in> set (t_relationships s'). nameKey (rl_sourceName r) = k} =
      relationKey ` {r \<in> set (t_relationships s). nameKey (rl_sourceName r) = k} \<union>
      (\<lambda>r. (k, rl_relType r, nameKey (rl_targetName r))) ` set (pr_relationships p)"
    and "k' \<noteq> k \<Longrightarrow> platformAt k' s' = platformAt k' s"
    and "map_option claimOwner (getRow cl_alias a (t_aliasClaims s')) =
      (if a \<in> set (pr_aliases p) then Some k
       else if map_option claimOwner (getRow cl_alias a (t_aliasClaims s)) = Some k then None
       else map_option claimOwner (getRow cl_alias a (t_aliasClaims s)))"
proof -
  from assms(1) obtain s1 where s1: "reconcileAliases clock p s = Inr s1"
    and s': "reconcileRelationships (pr_name p) (pr_relationships p) s1 = Inr s'"
    by (auto simp: reconcile_def split: sum.splits)
  from reconcileAliases_Inr [OF s1] assms(2) obtain claims where s1_eq: "s1 = s\<lparr>t_aliasClaims := claims\<rparr>"
    and claims: "claimsOK claims" "cl_alias ` {c \<in> set claims. claimOwner c = k} = set (pr_aliases p)"
      "\<And>k'. k' \<noteq> k \<Longrightarrow> filter (\<lambda>c. claimOwner c = k') claims = filter (\<lambda>c. claimOwner c = k') (t_aliasClaims s)"
    unfolding identityOK_def k_def by blast
  from reconcileRelationships_Inr [OF s'] assms(2) obtain rows where s'_eq: "s' = s1\<lparr>t_relationships := rows\<rparr>"
    and rows: "relationsOK (t_platform s) rows"
      "relationKey ` set rows = relationKey ` set (t_relationships s) \<union>
         (\<lambda>r. (k, rl_relType r, nameKey (rl_targetName r))) ` set (pr_relationships p)"
      "\<And>k'. k' \<noteq> k \<Longrightarrow> filter (\<lambda>r. nameKey (rl_sourceName r) = k') rows =
         filter (\<lambda>r. nameKey (rl_sourceName r) = k') (t_relationships s)"
    unfolding identityOK_def k_def s1_eq by auto
  show "identityOK s'" using assms(2) claims(1) rows(1) by (simp add: identityOK_def s'_eq s1_eq)
  show "t_platform s' = t_platform s \<and> t_extResources s' = t_extResources s \<and> t_extTypes s' = t_extTypes s" by (simp add: s'_eq s1_eq)
  show "pr_aliases (platformAggregate k labels c u s') = pr_aliases p"
    using aggregate_aliases [of s' "pr_aliases p" k labels c u] assms(3) claims by (simp add: s'_eq s1_eq)
  show "platformAt k' s' = platformAt k' s" if "k' \<noteq> k"
    using claims(3) [OF that] rows(3) [OF that] by (intro platformAt_cong) (simp_all add: s'_eq s1_eq)
  show "map_option claimOwner (getRow cl_alias a (t_aliasClaims s')) =
      (if a \<in> set (pr_aliases p) then Some k
       else if map_option claimOwner (getRow cl_alias a (t_aliasClaims s)) = Some k then None
       else map_option claimOwner (getRow cl_alias a (t_aliasClaims s)))"
    using claims_by_alias [of "t_aliasClaims s" claims k "set (pr_aliases p)" a] claims assms(2)
    by (simp add: identityOK_def s'_eq s1_eq)
  have from_k: "relationKey ` {r \<in> set rs. nameKey (rl_sourceName r) = k} = {q \<in> relationKey ` set rs. fst q = k}" for rs
  proof -
    have "nameKey (rl_sourceName r) = fst (relationKey r)" for r by (simp add: relationKey_def)
    then show ?thesis by auto
  qed
  show "relationKey ` {r \<in> set (t_relationships s'). nameKey (rl_sourceName r) = k} =
      relationKey ` {r \<in> set (t_relationships s). nameKey (rl_sourceName r) = k} \<union>
      (\<lambda>r. (k, rl_relType r, nameKey (rl_targetName r))) ` set (pr_relationships p)"
    unfolding from_k using rows(2) by (auto simp: s'_eq s1_eq)
qed

text \<open>The row a write leaves: a new one keeps its creation time, an old one the time it was created.\<close>

definition writtenRow :: "PlatformResource \<Rightarrow> store \<Rightarrow> platform_row" where
  "writtenRow p s =
     \<lparr>pw_collection = nameCollection (pr_name p), pw_resourceID = nameID (pr_name p), pw_labels = pr_labels p,
      pw_createdAt = (case getRow platformKey (nameKey (pr_name p)) (t_platform s) of
         None \<Rightarrow> storedTime (pr_createdAt p) | Some old \<Rightarrow> pw_createdAt old),
      pw_updatedAt = storedTime (pr_updatedAt p)\<rparr>"

lemma write_platform:
  assumes "(if fresh then platformCreate else platformUpdate) clock p s = Inr s'" "identityOK s"
  obtains s1 where "reconcile clock p s1 = Inr s'" "identityOK s1" "t_aliasClaims s1 = t_aliasClaims s"
    "t_relationships s1 = t_relationships s" "t_extResources s1 = t_extResources s" "t_extTypes s1 = t_extTypes s"
    "\<And>k. getRow platformKey k (t_platform s1) =
       (if k = nameKey (pr_name p) then Some (writtenRow p s) else getRow platformKey k (t_platform s))"
proof -
  let ?k = "nameKey (pr_name p)"
  let ?set = "\<lambda>r. if platformKey r = ?k then r\<lparr>pw_labels := pr_labels p, pw_updatedAt := storedTime (pr_updatedAt p)\<rparr> else r"
  have keyW: "platformKey (writtenRow p s) = ?k" by (simp add: platformKey_def writtenRow_def nameKey_def)
  show ?thesis
  proof (cases "getRow platformKey ?k (t_platform s)")
    case None
    then have "reconcile clock p (s\<lparr>t_platform := t_platform s @ [writtenRow p s]\<rparr>) = Inr s'"
      using assms(1) by (auto simp: platformCreate_def platformUpdate_def writtenRow_def split: if_splits)
    moreover have "identityOK (s\<lparr>t_platform := t_platform s @ [writtenRow p s]\<rparr>)"
      using assms(2) None keyW by (auto simp: identityOK_def getRow_None relationsOK_def)
    ultimately show ?thesis using None keyW
      by (intro that [of "s\<lparr>t_platform := t_platform s @ [writtenRow p s]\<rparr>"]) (auto simp: getRow_append split: option.split)
  next
    case (Some old)
    then have upd: "reconcile clock p (s\<lparr>t_platform := map ?set (t_platform s)\<rparr>) = Inr s'"
      using assms(1) by (auto simp: platformCreate_def platformUpdate_def split: if_splits)
    have keys: "platformKey (?set r) = platformKey r" for r by (simp add: platformKey_def)
    note kept = keys_map [of platformKey ?set "t_platform s", OF keys]
    have "identityOK (s\<lparr>t_platform := map ?set (t_platform s)\<rparr>)"
      using assms(2) by (simp add: identityOK_def relationsOK_def kept del: map_map set_map)
    moreover have "getRow platformKey k (map ?set (t_platform s)) =
        (if k = ?k then Some (writtenRow p s) else getRow platformKey k (t_platform s))" for k
    proof -
      have "getRow platformKey k (map ?set (t_platform s)) = map_option ?set (getRow platformKey k (t_platform s))"
        by (rule getRow_map) (rule keys)
      moreover have "?set old = writtenRow p s"
        using Some getRow_Some [OF Some] by (cases old) (simp add: writtenRow_def platformKey_def nameKey_def)
      moreover have "map_option ?set (getRow platformKey k (t_platform s)) = getRow platformKey k (t_platform s)" if "k \<noteq> ?k"
        using that getRow_Some [of platformKey k "t_platform s"] by (cases "getRow platformKey k (t_platform s)") simp_all
      ultimately show ?thesis using Some by (cases "k = ?k") simp_all
    qed
    ultimately show ?thesis using upd by (intro that [of "s\<lparr>t_platform := map ?set (t_platform s)\<rparr>"]) auto
  qed
qed

text \<open>
  An alias conflicts with the claims of a store when another resource owns it, or when this resource
  has another value for the same reference.
\<close>

definition aliasConflict :: "PlatformResource \<Rightarrow> store \<Rightarrow> bool" where
  "aliasConflict p s \<longleftrightarrow>
     list_ex (\<lambda>a. list_ex (\<lambda>c.
       if cl_alias c = a then claimOwner c \<noteq> nameKey (pr_name p)
       else claimOwner c = nameKey (pr_name p) \<and> aliasRef (cl_alias c) = aliasRef a) (t_aliasClaims s)) (pr_aliases p)"

lemma assertAliases_Inl:
  assumes "assertAliases clock name as claims = Inl e" "distinct (map aliasRef as)" "claimsOK claims"
  shows "\<exists>a \<in> set as. \<exists>c \<in> set claims.
    if cl_alias c = a then claimOwner c \<noteq> nameKey name else claimOwner c = nameKey name \<and> aliasRef (cl_alias c) = aliasRef a"
  using assms
proof (induction clock name as claims rule: assertAliases.induct)
  case (2 clock name a as claims)
  show ?case
  proof (cases "getRow cl_alias a claims")
    case None
    then have new: "a \<notin> cl_alias ` set claims" by (simp add: getRow_None)
    show ?thesis
    proof (cases "list_ex (\<lambda>x. aliasRef (cl_alias x) = aliasRef a \<and> claimOwner x = nameKey name) claims")
      case True
      with new show ?thesis by (auto simp: list_ex_iff image_iff)
    next
      case False
      with None "2.prems" have run: "assertAliases clock name as (claims @ [newClaim clock name a]) = Inl e" by simp
      have "claimsOK (claims @ [newClaim clock name a])"
        using "2.prems"(3) new False by (auto simp: claimsOK_def claimRef_def list_ex_iff)
      from "2.IH"(1) [OF None False run _ this] "2.prems"(2) show ?thesis by (fastforce split: if_splits)
    qed
  next
    case (Some c)
    then have c: "c \<in> set claims" "cl_alias c = a" by (auto dest: getRow_Some)
    with "2.prems"(3) have owned: "cl_platformOwned c" by (auto simp: claimsOK_def list_all_iff)
    show ?thesis
    proof (cases "claimOwner c = nameKey name")
      case True
      with Some owned "2.prems" "2.IH"(2) [OF Some] show ?thesis by auto
    qed (use c in auto)
  qed
qed simp

lemma reconcileRelationships_Inl:
  assumes "reconcileRelationships source rels s = Inl e" "nameKey source \<in> platformKey ` set (t_platform s)"
  shows "\<exists>rel \<in> set rels. nameKey (rl_targetName rel) \<notin> platformKey ` set (t_platform s)"
  using assms
proof (induction source rels s rule: reconcileRelationships.induct)
  case (2 source rel rels s)
  then show ?case by (fastforce simp: Let_def getRow_None split: if_splits)
qed simp

lemma write_refused:
  assumes "(if fresh then platformCreate else platformUpdate) clock p s = Inl e" "identityOK s" "canonical (pr_aliases p)"
  defines "row \<equiv> getRow platformKey (nameKey (pr_name p)) (t_platform s)"
  shows "(if fresh then row \<noteq> None else row = None) \<or> aliasConflict p s \<or>
    list_ex (\<lambda>rel. nameKey (rl_targetName rel) \<noteq> nameKey (pr_name p) \<and>
      getRow platformKey (nameKey (rl_targetName rel)) (t_platform s) = None) (pr_relationships p)"
proof -
  have reconciled: "aliasConflict p s \<or> (\<exists>rel \<in> set (pr_relationships p). nameKey (rl_targetName rel) \<notin> platformKey ` set (t_platform s1))"
    if "reconcile clock p s1 = Inl e" "t_aliasClaims s1 = t_aliasClaims s" "nameKey (pr_name p) \<in> platformKey ` set (t_platform s1)" for s1
  proof (cases "reconcileAliases clock p s1")
    case (Inl e')
    then have "assertAliases clock (pr_name p) (pr_aliases p) (t_aliasClaims s) = Inl e'"
      using that(2) by (auto simp: reconcileAliases_def split: sum.splits)
    from assertAliases_Inl [OF this] assms(2,3) show ?thesis by (auto simp: canonical_def identityOK_def aliasConflict_def list_ex_iff)
  next
    case (Inr s2)
    then have "t_platform s2 = t_platform s1" by (auto simp: reconcileAliases_def split: sum.splits)
    with Inr that reconcileRelationships_Inl [of "pr_name p" "pr_relationships p" s2 e] show ?thesis by (simp add: reconcile_def)
  qed
  have finish: ?thesis
    if run: "reconcile clock p s1 = Inl e" "t_aliasClaims s1 = t_aliasClaims s"
      and keys: "platformKey ` set (t_platform s1) = insert (nameKey (pr_name p)) (platformKey ` set (t_platform s))" for s1
  proof -
    consider "aliasConflict p s"
      | rel where "rel \<in> set (pr_relationships p)" "nameKey (rl_targetName rel) \<notin> platformKey ` set (t_platform s1)"
      using reconciled [OF run] keys by blast
    then show ?thesis
    proof cases
      case 2
      then show ?thesis unfolding list_ex_iff getRow_None keys by blast
    qed simp
  qed
  show ?thesis
  proof (cases row)
    case None
    let ?s1 = "s\<lparr>t_platform := t_platform s @ [writtenRow p s]\<rparr>"
    have "reconcile clock p ?s1 = Inl e" if fresh
      using that None assms(1) by (simp add: platformCreate_def row_def writtenRow_def)
    moreover have "platformKey ` set (t_platform ?s1) = insert (nameKey (pr_name p)) (platformKey ` set (t_platform s))"
      by (simp add: platformKey_def writtenRow_def nameKey_def)
    ultimately show ?thesis using None finish [of ?s1] by (cases fresh) simp_all
  next
    case (Some r)
    let ?s1 = "s\<lparr>t_platform := map (\<lambda>r. if platformKey r = nameKey (pr_name p)
        then r\<lparr>pw_labels := pr_labels p, pw_updatedAt := storedTime (pr_updatedAt p)\<rparr> else r) (t_platform s)\<rparr>"
    have "nameKey (pr_name p) \<in> platformKey ` set (t_platform s)"
      using getRow_Some [of platformKey "nameKey (pr_name p)" "t_platform s" r] Some unfolding row_def by (metis image_eqI)
    then have "platformKey ` set (t_platform ?s1) = insert (nameKey (pr_name p)) (platformKey ` set (t_platform s))"
      using keys_map(2) [of platformKey "\<lambda>r. if platformKey r = nameKey (pr_name p)
        then r\<lparr>pw_labels := pr_labels p, pw_updatedAt := storedTime (pr_updatedAt p)\<rparr> else r" "t_platform s"]
      by (simp add: platformKey_def insert_absorb)
    moreover have "reconcile clock p ?s1 = Inl e" if "\<not> fresh"
      using that Some assms(1) by (simp add: platformUpdate_def row_def)
    ultimately show ?thesis using Some finish [of ?s1] by (cases fresh) simp_all
  qed
qed

lemma resolve_owner:
  assumes "claimsOK (t_aliasClaims s)"
  shows "ResolveAliasesBatch [a] s a = Some (rowName (nameKey n)) \<longleftrightarrow>
    map_option claimOwner (getRow cl_alias a (t_aliasClaims s)) = Some (nameKey n)"
proof (cases "getRow cl_alias a (t_aliasClaims s)")
  case (Some c)
  then have "nameKey (rowName (claimOwner c)) = claimOwner c"
    using assms by (auto simp: claimsOK_def list_all_iff dest: getRow_Some)
  then have "rowName (claimOwner c) = rowName (nameKey n) \<longleftrightarrow> claimOwner c = nameKey n" by (metis nameKey_row)
  with Some show ?thesis by (simp add: ResolveAliasesBatch_def)
qed (simp add: ResolveAliasesBatch_def)

lemma resolve_written:
  assumes "map_option claimOwner (getRow cl_alias a (t_aliasClaims s')) =
      (if a \<in> A then Some (nameKey n)
       else if map_option claimOwner (getRow cl_alias a (t_aliasClaims s)) = Some (nameKey n) then None
       else map_option claimOwner (getRow cl_alias a (t_aliasClaims s)))"
    and "claimsOK (t_aliasClaims s)"
  shows "ResolveAliasesBatch [a] s' a =
      (if a \<in> A then Some (rowName (nameKey n))
       else if ResolveAliasesBatch [a] s a = Some (rowName (nameKey n)) then None
       else ResolveAliasesBatch [a] s a)"
proof -
  have res: "ResolveAliasesBatch [a] t a = map_option rowName (map_option claimOwner (getRow cl_alias a (t_aliasClaims t)))" for t
    by (simp add: ResolveAliasesBatch_def option.map_comp comp_def)
  have "ResolveAliasesBatch [a] s' a = map_option rowName
      (if a \<in> A then Some (nameKey n)
       else if ResolveAliasesBatch [a] s a = Some (rowName (nameKey n)) then None
       else map_option claimOwner (getRow cl_alias a (t_aliasClaims s)))"
    using assms(1) resolve_owner [OF assms(2), of a n] by (simp only: res [of s'])
  then show ?thesis by (simp only: if_distrib [of "map_option rowName"] res [of s, symmetric] option.map)
qed

text \<open>
  C19: what is written of a platform resource is what is read, and an alias has one owner. In a store
  whose identity tables are consistent, creating or updating a resource is refused only if the row
  is already there (or is missing, for an update), if one of its aliases belongs to another resource
  or contradicts a value the resource has, or if a relationship leads to a resource without a row.
  Otherwise the tables stay consistent; the name reads back with these labels and exactly these
  aliases, the relationships it had together with these, and its representations; every other name
  reads as before; the aliases resolve to this resource, those it no longer has resolve to nothing,
  and all others as before.
\<close>

theorem platform_write_read:
  assumes "identityOK s" "canonical (pr_aliases p)"
  shows "case (if fresh then platformCreate else platformUpdate) clock p s of
      Inl e \<Rightarrow>
        (if fresh then getRow platformKey (nameKey (pr_name p)) (t_platform s) \<noteq> None
         else getRow platformKey (nameKey (pr_name p)) (t_platform s) = None) \<or>
        aliasConflict p s \<or>
        list_ex (\<lambda>rel. nameKey (rl_targetName rel) \<noteq> nameKey (pr_name p) \<and>
          getRow platformKey (nameKey (rl_targetName rel)) (t_platform s) = None) (pr_relationships p)
    | Inr s' \<Rightarrow>
        identityOK s' \<and>
        (\<exists>q. platformGetByName (pr_name p) s' = Inr q \<and> pr_labels q = pr_labels p \<and> pr_aliases q = pr_aliases p \<and>
           pr_updatedAt q = storedTime (pr_updatedAt p) \<and> pr_representations q = representations (nameKey (pr_name p)) s \<and>
           relationKey ` set (pr_relationships q) =
             relationKey ` {r \<in> set (t_relationships s). nameKey (rl_sourceName r) = nameKey (pr_name p)} \<union>
             (\<lambda>r. (nameKey (pr_name p), rl_relType r, nameKey (rl_targetName r))) ` set (pr_relationships p)) \<and>
        (\<forall>n. platformGetByName n s' =
           platformGetByName (if nameKey n = nameKey (pr_name p) then pr_name p else n)
             (if nameKey n = nameKey (pr_name p) then s' else s)) \<and>
        (\<forall>a. ResolveAliasesBatch [a] s' a =
           (if a \<in> set (pr_aliases p) then Some (rowName (nameKey (pr_name p)))
            else if ResolveAliasesBatch [a] s a = Some (rowName (nameKey (pr_name p))) then None
            else ResolveAliasesBatch [a] s a))"
proof (cases "(if fresh then platformCreate else platformUpdate) clock p s")
  case (Inl e)
  with write_refused [OF Inl assms] show ?thesis by simp
next
  case (Inr s')
  from write_platform [OF Inr assms(1)] obtain s1 where run: "reconcile clock p s1 = Inr s'" "identityOK s1"
    and s1: "t_aliasClaims s1 = t_aliasClaims s" "t_relationships s1 = t_relationships s" "t_extResources s1 = t_extResources s"
      "t_extTypes s1 = t_extTypes s"
      "\<And>k. getRow platformKey k (t_platform s1) =
         (if k = nameKey (pr_name p) then Some (writtenRow p s) else getRow platformKey k (t_platform s))"
    by metis
  note r = reconcile_Inr [OF run assms(2)]
  have frame: "representations k s' = representations k s" for k
    using r(2) s1(3,4) by (simp add: representations_def atName_def)
  have read: "platformGetByName (pr_name p) s' =
      Inr (platformAggregate (nameKey (pr_name p)) (pr_labels p) (pw_createdAt (writtenRow p s)) (storedTime (pr_updatedAt p)) s')"
    by (simp add: platformGetByName_def platformAt_def r(2) s1(5) writtenRow_def)
  have others: "platformGetByName n s' = platformGetByName n s" if "nameKey n \<noteq> nameKey (pr_name p)" for n
    using r(5) [OF that] platformAt_cong [of "nameKey n" s1 s] that s1 by (simp add: platformGetByName_def)
  have resolve: "ResolveAliasesBatch [a] s' a =
      (if a \<in> set (pr_aliases p) then Some (rowName (nameKey (pr_name p)))
       else if ResolveAliasesBatch [a] s a = Some (rowName (nameKey (pr_name p))) then None
       else ResolveAliasesBatch [a] s a)" for a
    using resolve_written [OF r(6) [unfolded s1(1)]] assms(1) by (simp add: identityOK_def)
  have "relationKey ` set (pr_relationships q) =
      relationKey ` {r \<in> set (t_relationships s). nameKey (rl_sourceName r) = nameKey (pr_name p)} \<union>
      (\<lambda>r. (nameKey (pr_name p), rl_relType r, nameKey (rl_targetName r))) ` set (pr_relationships p)"
    if "q = platformAggregate (nameKey (pr_name p)) l c u s'" for q l c u
    using r(4) s1(2) by (simp add: that aggregate_fields(6))
  with read r(1,3) have "\<exists>q. platformGetByName (pr_name p) s' = Inr q \<and> pr_labels q = pr_labels p \<and> pr_aliases q = pr_aliases p \<and>
      pr_updatedAt q = storedTime (pr_updatedAt p) \<and> pr_representations q = representations (nameKey (pr_name p)) s \<and>
      relationKey ` set (pr_relationships q) =
        relationKey ` {r \<in> set (t_relationships s). nameKey (rl_sourceName r) = nameKey (pr_name p)} \<union>
        (\<lambda>r. (nameKey (pr_name p), rl_relType r, nameKey (rl_targetName r))) ` set (pr_relationships p)"
    by (intro exI conjI) (assumption | simp add: aggregate_fields(1-5) frame)+
  moreover have "platformGetByName n s' =
      platformGetByName (if nameKey n = nameKey (pr_name p) then pr_name p else n)
        (if nameKey n = nameKey (pr_name p) then s' else s)" for n
    using others [of n] by (simp add: platformGetByName_def)
  ultimately show ?thesis unfolding Inr sum.case using r(1) resolve by blast
qed

definition exampleAlias :: Alias where
  "exampleAlias = \<lparr>al_namespace = ''gcp'', al_key = ''project'', al_value = ''p1''\<rparr>"

definition examplePlatform :: PlatformResource where
  "examplePlatform = (NewPlatformResource ''clusters/prod'' fmempty 0)\<lparr>pr_aliases := [exampleAlias]\<rparr>"

theorem platform_write_read_witness:
  "\<exists>s'. platformCreate 0 examplePlatform emptyStore = Inr s' \<and> identityOK s' \<and>
     ResolveAliasesBatch [exampleAlias] s' exampleAlias = Some ''clusters/prod''"
proof -
  have ok: "identityOK emptyStore" "canonical (pr_aliases examplePlatform)"
    by (simp_all add: identityOK_def emptyStore_def claimsOK_def relationsOK_def examplePlatform_def canonical_def)
  obtain s' where s': "platformCreate 0 examplePlatform emptyStore = Inr s'"
    by (simp add: platformCreate_def emptyStore_def reconcile_def reconcileAliases_def examplePlatform_def NewPlatformResource_def)
  have "rowName (nameKey (pr_name examplePlatform)) = ''clusters/prod''"
    by (simp add: examplePlatform_def NewPlatformResource_def rowName_def nameKey_def nameCollection_def nameID_def cut_last_def
        cut_first_def)
  with platform_write_read [OF ok, where fresh = True and clock = 0] s' show ?thesis
    by (simp add: examplePlatform_def)
qed

text \<open>
  The times of a virtual resource are a minimum and a maximum of texts, and the texts drop trailing
  zeros: within one second they are not ordered as the instants are.
\<close>

lemma nanoText_examples: "nanoText 900000000 = (0, ''.9Z'')" "nanoText 910000000 = (0, ''.91Z'')"
  by (simp_all add: nanoText_def itoa_def nat_digits.simps char_of_def bit_0)

lemma text_order_is_not_time_order:
  "maxText [900000000, 910000000] = 900000000" "minText [900000000, 910000000] = 910000000"
  by (simp_all add: maxText_def minText_def nanoText_examples less_char_def)

end
