(* ===== verification/FS_Inventory.thy ===== *)
theory FS_Inventory
  imports FS_Identity
begin

text \<open>
  Inventory: the commands and their validation (\<^verbatim>\<open>domain/repository.go\<close>) and the writes of the
  SQLite repository (\<^verbatim>\<open>infrastructure/sqlite/extension_resource_repo.go\<close>). Replacements and
  deltas find or create their rows by natural key and then update them by identifier; the lemmas
  show what a batch leaves under every key, and that a batch may be split.
\<close>

section \<open>Commands\<close>

record InventoryReplacement =
  ir_ResourceType :: ResourceType
  ir_Name :: ResourceName
  ir_IsDelete :: bool
  ir_CandidateUID :: ExtensionResourceUID
  ir_Aliases :: AliasSet
  ir_Labels :: string_map
  ir_Observation :: "bytes option"
  ir_Conditions :: "Condition list"
  ir_ObservedAt :: go_time
  ir_ReceivedAt :: go_time

text \<open>A \<^verbatim>\<open>nil\<close> replacement of labels or conditions is \<open>None\<close>, an empty one is not.\<close>

record InventoryDelta =
  dl_ResourceType :: ResourceType
  dl_Name :: ResourceName
  dl_CandidateUID :: ExtensionResourceUID
  dl_UpsertAliases :: AliasSet
  dl_DeleteAliases :: "AliasRef list"
  dl_ReplaceAliases :: AliasSet
  dl_ReplaceLabels :: "string_map option"
  dl_UpsertLabels :: string_map
  dl_DeleteLabels :: "string list"
  dl_Observation :: "bytes option"
  dl_ReplaceConditions :: "Condition list option"
  dl_UpsertConditions :: "Condition list"
  dl_DeleteConditions :: "string list"
  dl_ObservedAt :: go_time
  dl_ReceivedAt :: go_time

definition zeroUID :: ExtensionResourceUID where
  "zeroUID = ''00000000-0000-0000-0000-000000000000''"

definition badReplacement :: "nat \<Rightarrow> string \<Rightarrow> error" where
  "badReplacement i what =
     Wrapped '''' (Sentinel ErrInvalidArgument) ('': replacement '' @ itoa (int i) @ '': '' @ what)"

definition badShape :: "nat \<Rightarrow> InventoryReplacement \<Rightarrow> error option" where
  "badShape i rep =
     (if ir_ResourceType rep = '''' then Some (badReplacement i ''ResourceType is required'')
      else if ir_Name rep = '''' then Some (badReplacement i ''Name is required'')
      else if \<not> ir_IsDelete rep then None
      else if ir_Aliases rep \<noteq> [] then Some (badReplacement i ''IsDelete rejects non-empty Aliases'')
      else if ir_Labels rep \<noteq> fmempty then Some (badReplacement i ''IsDelete rejects non-empty Labels'')
      else if ir_Observation rep \<noteq> None then Some (badReplacement i ''IsDelete rejects Observation'')
      else if ir_Conditions rep \<noteq> [] then Some (badReplacement i ''IsDelete rejects non-empty Conditions'')
      else if ir_ObservedAt rep \<noteq> 0 \<or> ir_ReceivedAt rep \<noteq> 0
      then Some (badReplacement i ''IsDelete rejects ObservedAt/ReceivedAt'')
      else if ir_CandidateUID rep \<noteq> zeroUID then Some (badReplacement i ''IsDelete rejects CandidateUID'')
      else None)"

definition replacementFullName :: "InventoryReplacement \<Rightarrow> FullResourceName" where
  "replacementFullName rep = rtFullName (ir_ResourceType rep) (ir_Name rep)"

definition repeatedName :: "bool \<Rightarrow> bool \<Rightarrow> FullResourceName \<Rightarrow> error" where
  "repeatedName before now full =
     Wrapped '''' (Sentinel ErrInvalidArgument) ('': resource '' @ full @
       (if before = now then '' appears more than once as a '' @ (if now then ''delete'' else ''replacement'') @ '' in this batch''
        else '' has both a replacement and a delete in this batch''))"

text \<open>The fate that a name has in the batch so far: whether it was seen as a delete.\<close>

fun checkReplacements :: "nat \<Rightarrow> (FullResourceName \<rightharpoonup> bool) \<Rightarrow> InventoryReplacement list \<Rightarrow> error option" where
  "checkReplacements i seen [] = None"
| "checkReplacements i seen (rep # reps) =
     (case badShape i rep of
        Some e \<Rightarrow> Some e
      | None \<Rightarrow>
          (case seen (replacementFullName rep) of
             None \<Rightarrow> checkReplacements (Suc i) (seen(replacementFullName rep \<mapsto> ir_IsDelete rep)) reps
           | Some prev \<Rightarrow> Some (repeatedName prev (ir_IsDelete rep) (replacementFullName rep))))"

definition ValidateInventoryReplacements :: "InventoryReplacement list \<Rightarrow> error option" where
  "ValidateInventoryReplacements reps = checkReplacements 0 Map.empty reps"

definition invalidInput :: "string \<Rightarrow> error" where
  "invalidInput what = Wrapped '''' (Sentinel ErrInvalidArgument) ('': '' @ what)"

definition bothLabel :: "string \<Rightarrow> error" where
  "bothLabel k = invalidInput (''label key '' @ quote k @ '' is present in both UpsertLabels and DeleteLabels'')"

definition ValidateInventoryDelta :: "InventoryDelta \<Rightarrow> error option" where
  "ValidateInventoryDelta d =
     (if dl_ReplaceLabels d \<noteq> None \<and> (dl_UpsertLabels d \<noteq> fmempty \<or> dl_DeleteLabels d \<noteq> [])
      then Some (invalidInput ''ReplaceLabels cannot be combined with UpsertLabels or DeleteLabels'')
      else case find (\<lambda>k. k \<in> set (dl_DeleteLabels d)) (sorted_list_of_fset (fmdom (dl_UpsertLabels d))) of
        Some k \<Rightarrow> Some (bothLabel k)
      | None \<Rightarrow>
          if dl_ReplaceConditions d \<noteq> None \<and> (dl_UpsertConditions d \<noteq> [] \<or> dl_DeleteConditions d \<noteq> [])
          then Some (invalidInput ''ReplaceConditions cannot be combined with UpsertConditions or DeleteConditions'')
          else case find (\<lambda>c. cd_type c \<in> set (dl_DeleteConditions d)) (dl_UpsertConditions d) of
            Some c \<Rightarrow> Some (invalidInput (''condition type '' @ quote (cd_type c) @
                        '' is present in both UpsertConditions and DeleteConditions''))
          | None \<Rightarrow>
              if dl_DeleteAliases d \<noteq> []
              then Some (Wrapped '''' (Sentinel ErrUnimplemented)
                          '': DeleteAliases is not yet implemented against the reported-alias payload'')
              else if dl_ReplaceAliases d \<noteq> []
              then Some (Wrapped '''' (Sentinel ErrUnimplemented)
                          '': ReplaceAliases is not yet implemented against the reported-alias payload'')
              else None)"

section \<open>Observations\<close>

text \<open>
  The white space that \<^verbatim>\<open>bytes.TrimSpace\<close> removes: the ASCII characters, and the other
  space characters of Unicode in UTF-8.
\<close>

definition spaceRunes :: "bytes list" where
  "spaceRunes =
     [[CHR 0x09], [CHR 0x0A], [CHR 0x0B], [CHR 0x0C], [CHR 0x0D], [CHR 0x20], [CHR 0xC2, CHR 0x85], [CHR 0xC2, CHR 0xA0],
      [CHR 0xE1, CHR 0x9A, CHR 0x80], [CHR 0xE2, CHR 0x80, CHR 0x80], [CHR 0xE2, CHR 0x80, CHR 0x81],
      [CHR 0xE2, CHR 0x80, CHR 0x82], [CHR 0xE2, CHR 0x80, CHR 0x83], [CHR 0xE2, CHR 0x80, CHR 0x84],
      [CHR 0xE2, CHR 0x80, CHR 0x85], [CHR 0xE2, CHR 0x80, CHR 0x86], [CHR 0xE2, CHR 0x80, CHR 0x87],
      [CHR 0xE2, CHR 0x80, CHR 0x88], [CHR 0xE2, CHR 0x80, CHR 0x89], [CHR 0xE2, CHR 0x80, CHR 0x8A],
      [CHR 0xE2, CHR 0x80, CHR 0xA8], [CHR 0xE2, CHR 0x80, CHR 0xA9], [CHR 0xE2, CHR 0x80, CHR 0xAF],
      [CHR 0xE2, CHR 0x81, CHR 0x9F], [CHR 0xE3, CHR 0x80, CHR 0x80]]"

fun trimAll :: "bytes list \<Rightarrow> nat \<Rightarrow> bytes \<Rightarrow> bytes" where
  "trimAll runes 0 b = b"
| "trimAll runes (Suc n) b =
     (case find (\<lambda>r. take (length r) b = r) runes of None \<Rightarrow> b | Some r \<Rightarrow> trimAll runes n (drop (length r) b))"

definition TrimSpace :: "bytes \<Rightarrow> bytes" where
  "TrimSpace b =
     (let left = trimAll spaceRunes (length b) b
      in rev (trimAll (map rev spaceRunes) (length left) (rev left)))"

definition normalizeObservation :: "bytes option \<Rightarrow> bytes option" where
  "normalizeObservation obs =
     (case obs of None \<Rightarrow> None | Some b \<Rightarrow> if TrimSpace b = ''null'' then None else Some b)"

section \<open>Finding and creating the rows\<close>

record resolve_item =
  rv_type :: ResourceType
  rv_name :: ResourceName
  rv_candidate :: ExtensionResourceUID
  rv_received :: go_time
  rv_aliases :: AliasSet

definition itemKey :: "resolve_item \<Rightarrow> natural_key" where
  "itemKey it = keyOf (rtServiceName (rv_type it)) (rv_name it)"

definition newRow :: "resolve_item \<Rightarrow> ExtensionResource" where
  "newRow it =
     \<lparr>er_uid = rv_candidate it,
      er_resourceType = rtServiceName (rv_type it) @ [slash] @ rtTypeName (rv_type it),
      er_name = nameCollection (rv_name it) @ [slash] @ nameID (rv_name it),
      er_labels = fmempty, er_managed = None, er_inventory = None, er_reportedAliases = rv_aliases it,
      er_createdAt = rv_received it, er_updatedAt = rv_received it, er_pendingIntents = []\<rparr>"

text \<open>
  One statement inserts the missing rows. A conflict on the natural key is skipped, and is looked at
  before the primary key; the foreign key to the type is checked when the statement ends.
\<close>

fun insertMissing :: "resolve_item list \<Rightarrow> ExtensionResource list \<Rightarrow> ExtensionResource list result" where
  "insertMissing [] rows = Inr rows"
| "insertMissing (it # its) rows =
     (if getRow rowKey (itemKey it) rows \<noteq> None then insertMissing its rows
      else if getRow er_uid (rv_candidate it) rows \<noteq> None
      then Inl (Plain ''UNIQUE constraint failed: extension_resources.uid'')
      else insertMissing its (rows @ [newRow it]))"

definition inserted :: "resolve_item list \<Rightarrow> store \<Rightarrow> store result" where
  "inserted its s =
     (case insertMissing its (t_extResources s) of
        Inl e \<Rightarrow> Inl e
      | Inr rows \<Rightarrow>
          if list_ex (\<lambda>r. getRow rowTypeKey (typeKey (er_resourceType r)) (t_extTypes s) = None)
               (drop (length (t_extResources s)) rows)
          then Inl (Plain ''FOREIGN KEY constraint failed'')
          else Inr (s\<lparr>t_extResources := rows\<rparr>))"

text \<open>The second statement reads the rows back; they are matched by full name.\<close>

definition resolvedRow :: "resolve_item list \<Rightarrow> store \<Rightarrow> resolve_item \<Rightarrow> ExtensionResource option" where
  "resolvedRow its s it =
     find (\<lambda>r. rowKey r \<in> set (map itemKey its) \<and>
               NewFullResourceName (rtServiceName (er_resourceType r)) (er_name r) =
               NewFullResourceName (rtServiceName (rv_type it)) (rv_name it)) (t_extResources s)"

fun resolveAll :: "(resolve_item \<Rightarrow> ExtensionResource option) \<Rightarrow> resolve_item list \<Rightarrow> ExtensionResource list result" where
  "resolveAll look [] = Inr []"
| "resolveAll look (it # its) =
     (case look it of
        None \<Rightarrow> Inl (Plain (''resolve-or-create extension resources: no result for '' @
                  NewFullResourceName (rtServiceName (rv_type it)) (rv_name it)))
      | Some r \<Rightarrow> (case resolveAll look its of Inl e \<Rightarrow> Inl e | Inr rs \<Rightarrow> Inr (r # rs)))"

text \<open>The rows found carry the identifiers and the stored alias payloads.\<close>

definition resolveOrCreateExtensionResources :: "resolve_item list \<Rightarrow> store \<Rightarrow> (ExtensionResource list \<times> store) result" where
  "resolveOrCreateExtensionResources its s =
     (if its = [] then Inr ([], s)
      else case inserted its s of
             Inl e \<Rightarrow> Inl (Wrapped ''resolve-or-create extension resources (insert): '' e '''')
           | Inr s1 \<Rightarrow>
               (case resolveAll (resolvedRow its s1) its of
                  Inl e \<Rightarrow> Inl e
                | Inr rs \<Rightarrow> Inr (rs, s1)))"

section \<open>Writing the latest state\<close>

record inventoryRowInput =
  in_uid :: ExtensionResourceUID
  in_observation :: "bytes option"
  in_labels :: string_map
  in_conditions :: "Condition list"
  in_observedAt :: go_time
  in_updatedAt :: go_time

definition updateUID :: "ExtensionResourceUID \<Rightarrow> (ExtensionResource \<Rightarrow> ExtensionResource) \<Rightarrow> store \<Rightarrow> store" where
  "updateUID uid f s = s\<lparr>t_extResources := map (\<lambda>r. if er_uid r = uid then f r else r) (t_extResources s)\<rparr>"

definition upsertInventory :: "inventoryRowInput \<Rightarrow> ExtensionResource \<Rightarrow> ExtensionResource" where
  "upsertInventory it r =
     r\<lparr>er_inventory := Some
        \<lparr>iv_labels = in_labels it,
         iv_observation = (case in_observation it of
             Some obs \<Rightarrow> Some obs
           | None \<Rightarrow> (case er_inventory r of None \<Rightarrow> None | Some old \<Rightarrow> iv_observation old)),
         iv_conditions = storedConditions (in_conditions it),
         iv_observedAt = in_observedAt it, iv_updatedAt = in_updatedAt it\<rparr>\<rparr>"

definition batchUpsertInventoryRows :: "inventoryRowInput list \<Rightarrow> store \<Rightarrow> store" where
  "batchUpsertInventoryRows items s = fold (\<lambda>it. updateUID (in_uid it) (upsertInventory it)) items s"

definition writeAliasPayload :: "ExtensionResourceUID \<Rightarrow> AliasSet \<Rightarrow> go_time \<Rightarrow> store \<Rightarrow> store" where
  "writeAliasPayload uid aliases received s =
     updateUID uid (\<lambda>r. r\<lparr>er_reportedAliases := aliases, er_updatedAt := received\<rparr>) s"

section \<open>Replacing inventory\<close>

definition partitionInventoryReplacements ::
  "InventoryReplacement list \<Rightarrow> InventoryReplacement list \<times> InventoryReplacement list" where
  "partitionInventoryReplacements reps = (filter ir_IsDelete reps, filter (\<lambda>r. \<not> ir_IsDelete r) reps)"

definition replacementKey :: "InventoryReplacement \<Rightarrow> natural_key" where
  "replacementKey rep = keyOf (rtServiceName (ir_ResourceType rep)) (ir_Name rep)"

definition deleteInventoryReplacements :: "InventoryReplacement list \<Rightarrow> store \<Rightarrow> store" where
  "deleteInventoryReplacements dels s = dropResources (\<lambda>r. rowKey r \<in> set (map replacementKey dels)) s"

definition replacementItem :: "InventoryReplacement \<Rightarrow> resolve_item" where
  "replacementItem rep =
     \<lparr>rv_type = ir_ResourceType rep, rv_name = ir_Name rep, rv_candidate = ir_CandidateUID rep,
      rv_received = ir_ReceivedAt rep, rv_aliases = ir_Aliases rep\<rparr>"

definition replacementRow :: "InventoryReplacement \<Rightarrow> ExtensionResource \<Rightarrow> inventoryRowInput" where
  "replacementRow rep r =
     \<lparr>in_uid = er_uid r, in_observation = normalizeObservation (ir_Observation rep), in_labels = ir_Labels rep,
      in_conditions = ir_Conditions rep, in_observedAt = ir_ObservedAt rep, in_updatedAt = ir_ReceivedAt rep\<rparr>"

definition replaceAliasPayload :: "InventoryReplacement \<times> ExtensionResource \<Rightarrow> store \<Rightarrow> store" where
  "replaceAliasPayload p s =
     (case p of
        (rep, r) \<Rightarrow>
          if ir_Aliases rep = er_reportedAliases r then s
          else writeAliasPayload (er_uid r) (ir_Aliases rep) (ir_ReceivedAt rep) s)"

definition ReplaceInventory :: "InventoryReplacement list \<Rightarrow> store \<Rightarrow> store result" where
  "ReplaceInventory reps s =
     (if reps = [] then Inr s
      else case ValidateInventoryReplacements reps of
        Some e \<Rightarrow> Inl e
      | None \<Rightarrow>
          (case partitionInventoryReplacements reps of
             (deletes, upserts) \<Rightarrow>
               (let s1 = (if deletes = [] then s else deleteInventoryReplacements deletes s)
                in if upserts = [] then Inr s1
                   else case resolveOrCreateExtensionResources (map replacementItem upserts) s1 of
                          Inl e \<Rightarrow> Inl (Wrapped ''replace inventory: '' e '''')
                        | Inr (rs, s2) \<Rightarrow>
                            Inr (fold replaceAliasPayload (zip upserts rs)
                              (batchUpsertInventoryRows (map (\<lambda>(rep, r). replacementRow rep r) (zip upserts rs)) s2)))))"

section \<open>Applying deltas\<close>

definition deltaItem :: "InventoryDelta \<Rightarrow> resolve_item" where
  "deltaItem d =
     \<lparr>rv_type = dl_ResourceType d, rv_name = dl_Name d, rv_candidate = dl_CandidateUID d, rv_received = dl_ReceivedAt d,
      rv_aliases = []\<rparr>"

definition rowByUID :: "ExtensionResourceUID \<Rightarrow> store \<Rightarrow> ExtensionResource option" where
  "rowByUID uid s = getRow er_uid uid (t_extResources s)"

definition currentInventory :: "ExtensionResourceUID \<Rightarrow> store \<Rightarrow> string_map \<times> Condition list" where
  "currentInventory uid s =
     (case rowByUID uid s of
        None \<Rightarrow> (fmempty, [])
      | Some r \<Rightarrow> (case er_inventory r of None \<Rightarrow> (fmempty, []) | Some i \<Rightarrow> (iv_labels i, iv_conditions i)))"

definition mergedLabels :: "InventoryDelta \<Rightarrow> string_map \<Rightarrow> string_map" where
  "mergedLabels d prev =
     (case dl_ReplaceLabels d of
        Some labels \<Rightarrow> labels
      | None \<Rightarrow> fmadd (fold fmdrop (dl_DeleteLabels d) prev) (dl_UpsertLabels d))"

text \<open>Conditions are merged in a map by type: what comes later replaces what came before.\<close>

definition mergedConditions :: "InventoryDelta \<Rightarrow> Condition list \<Rightarrow> Condition list" where
  "mergedConditions d prev =
     (case dl_ReplaceConditions d of
        Some conditions \<Rightarrow> conditions
      | None \<Rightarrow> filter (\<lambda>c. cd_type c \<notin> set (dl_DeleteConditions d)) prev @ dl_UpsertConditions d)"

definition deltaRow :: "store \<Rightarrow> InventoryDelta \<times> ExtensionResource \<Rightarrow> inventoryRowInput" where
  "deltaRow s p =
     (case p of
        (d, r) \<Rightarrow>
          (case currentInventory (er_uid r) s of
             (labels, conditions) \<Rightarrow>
               \<lparr>in_uid = er_uid r, in_observation = normalizeObservation (dl_Observation d), in_labels = mergedLabels d labels,
                in_conditions = mergedConditions d conditions, in_observedAt = dl_ObservedAt d, in_updatedAt = dl_ReceivedAt d\<rparr>))"

definition currentAliases :: "ExtensionResourceUID \<Rightarrow> store \<Rightarrow> AliasSet" where
  "currentAliases uid s = (case rowByUID uid s of None \<Rightarrow> [] | Some r \<Rightarrow> er_reportedAliases r)"

definition mergeAliasPayload :: "store \<Rightarrow> InventoryDelta \<times> ExtensionResource \<Rightarrow> store \<Rightarrow> store" where
  "mergeAliasPayload current p s =
     (case p of
        (d, r) \<Rightarrow>
          (let old = currentAliases (er_uid r) current;
               merged = aliasMerge old (dl_UpsertAliases d)
           in if aliasSetEqual merged old then s else writeAliasPayload (er_uid r) merged (dl_ReceivedAt d) s))"

fun firstBadDelta :: "InventoryDelta list \<Rightarrow> error option" where
  "firstBadDelta [] = None"
| "firstBadDelta (d # ds) = (case ValidateInventoryDelta d of Some e \<Rightarrow> Some e | None \<Rightarrow> firstBadDelta ds)"

definition ApplyInventoryDeltas :: "InventoryDelta list \<Rightarrow> store \<Rightarrow> store result" where
  "ApplyInventoryDeltas ds s =
     (if ds = [] then Inr s
      else case firstBadDelta ds of
        Some e \<Rightarrow> Inl e
      | None \<Rightarrow>
          (case resolveOrCreateExtensionResources (map deltaItem ds) s of
             Inl e \<Rightarrow> Inl (Wrapped ''apply inventory deltas: '' e '''')
           | Inr (rs, s1) \<Rightarrow>
               (let s2 = batchUpsertInventoryRows (map (deltaRow s1) (zip ds rs)) s1
                in Inr (fold (mergeAliasPayload s2) (filter (\<lambda>p. dl_UpsertAliases (fst p) \<noteq> []) (zip ds rs)) s2))))"

section \<open>Finding the rows, proved\<close>

lemma rowKey_newRow [simp]: "rowKey (newRow it) = itemKey it"
  using rt_join(1) [OF slash_rtServiceName] by (simp add: rowKey_def keyOf_def newRow_def itemKey_def)

lemma newRow_fields [simp]:
  "er_uid (newRow it) = rv_candidate it" "typeKey (er_resourceType (newRow it)) = typeKey (rv_type it)"
  "canonicalName (er_name (newRow it))"
  by (simp_all add: newRow_def)

lemma insertMissing_Inr:
  assumes "insertMissing its rows = Inr rows'" "distinct (map er_uid rows)" "distinct (map rowKey rows)"
  shows "\<exists>new. rows' = rows @ map newRow new \<and> set new \<subseteq> set its \<and>
      distinct (map er_uid rows') \<and> distinct (map rowKey rows') \<and>
      (\<forall>k. getRow rowKey k rows' =
         (case getRow rowKey k rows of Some r \<Rightarrow> Some r | None \<Rightarrow> map_option newRow (getRow itemKey k its)))"
  using assms
proof (induction its rows rule: insertMissing.induct)
  case (1 rows)
  then show ?case by (intro exI [of _ "[]"]) (auto split: option.split)
next
  case (2 it its rows)
  show ?case
  proof (cases "getRow rowKey (itemKey it) rows = None")
    case True
    with "2.prems" have uid: "getRow er_uid (rv_candidate it) rows = None"
      and rest: "insertMissing its (rows @ [newRow it]) = Inr rows'" by (auto split: if_splits)
    from True uid "2.prems" have "distinct (map er_uid (rows @ [newRow it]))" "distinct (map rowKey (rows @ [newRow it]))"
      by (auto simp: getRow_None)
    from "2.IH"(2) [OF _ _ rest this] True uid obtain new where new: "rows' = (rows @ [newRow it]) @ map newRow new" "set new \<subseteq> set its"
      "distinct (map er_uid rows')" "distinct (map rowKey rows')"
      "\<And>k. getRow rowKey k rows' =
         (case getRow rowKey k (rows @ [newRow it]) of Some r \<Rightarrow> Some r | None \<Rightarrow> map_option newRow (getRow itemKey k its))"
      by auto
    then show ?thesis using True
      by (intro exI [of _ "it # new"]) (auto simp: getRow_append split: option.split)
  next
    case False
    with "2.prems" "2.IH"(1) obtain new where new: "rows' = rows @ map newRow new" "set new \<subseteq> set its"
      "distinct (map er_uid rows')" "distinct (map rowKey rows')"
      "\<And>k. getRow rowKey k rows' =
         (case getRow rowKey k rows of Some r \<Rightarrow> Some r | None \<Rightarrow> map_option newRow (getRow itemKey k its))"
      by auto
    with False show ?thesis by (intro exI [of _ new]) (auto split: option.split)
  qed
qed

lemma NewFullResourceName_inj:
  assumes "slash \<notin> set a" "slash \<notin> set b"
  shows "NewFullResourceName a n = NewFullResourceName b m \<longleftrightarrow> a = b \<and> n = m"
proof
  assume "NewFullResourceName a n = NewFullResourceName b m"
  then have "cut_first slash (a @ slash # n) = cut_first slash (b @ slash # m)" by (simp add: NewFullResourceName_def)
  then show "a = b \<and> n = m" unfolding cut_first_append [OF assms(1)] cut_first_append [OF assms(2)] by simp
qed simp

lemma resolveAll_Inr:
  "resolveAll look its = Inr rs \<Longrightarrow> list_all2 (\<lambda>it r. look it = Some r) its rs"
  by (induction its arbitrary: rs) (auto split: option.splits sum.splits)

lemma resolveAll_total:
  "(\<And>it. it \<in> set its \<Longrightarrow> look it \<noteq> None) \<Longrightarrow> \<exists>rs. resolveAll look its = Inr rs"
  by (induction its) (auto split: option.splits sum.splits)

lemma resolvedRow_Some:
  assumes "resolvedRow its s it = Some r"
  shows "r \<in> set (t_extResources s)" "rowKey r = itemKey it" "er_name r = rv_name it"
    "rtServiceName (er_resourceType r) = rtServiceName (rv_type it)"
proof -
  from assms have "r \<in> set (t_extResources s)"
      "NewFullResourceName (rtServiceName (er_resourceType r)) (er_name r) =
       NewFullResourceName (rtServiceName (rv_type it)) (rv_name it)"
    by (auto simp: resolvedRow_def find_Some_iff)
  then show "r \<in> set (t_extResources s)" "rowKey r = itemKey it" "er_name r = rv_name it"
      "rtServiceName (er_resourceType r) = rtServiceName (rv_type it)"
    using NewFullResourceName_inj [OF slash_rtServiceName slash_rtServiceName] by (simp_all add: rowKey_def itemKey_def)
qed

lemma extRow_member: "extOK s \<Longrightarrow> r \<in> set (t_extResources s) \<Longrightarrow> extRow (rowKey r) s = Some r"
  by (simp add: extOK_def extRow_def getRow_member)

text \<open>What the two statements leave: the missing rows are there, and each item has found its row.\<close>

lemma resolveOrCreate_Inr:
  assumes "resolveOrCreateExtensionResources its s = Inr (rs, s')" "extOK s"
  shows "extOK s'" "\<exists>rows. s' = s\<lparr>t_extResources := rows\<rparr>"
    and "extRow k s' = (case extRow k s of Some r \<Rightarrow> Some r | None \<Rightarrow> map_option newRow (getRow itemKey k its))"
    and "list_all2 (\<lambda>it r. extRow (itemKey it) s' = Some r \<and> er_name r = rv_name it) its rs"
    and "er_uid ` set (t_extResources s') \<subseteq> er_uid ` set (t_extResources s) \<union> rv_candidate ` set its"
proof -
  obtain rows where rows: "s' = s\<lparr>t_extResources := rows\<rparr>" "insertMissing its (t_extResources s) = Inr rows"
      "\<not> list_ex (\<lambda>r. getRow rowTypeKey (typeKey (er_resourceType r)) (t_extTypes s) = None) (drop (length (t_extResources s)) rows)"
    and found: "list_all2 (\<lambda>it r. resolvedRow its s' it = Some r) its rs"
  proof (cases "its = []")
    case True
    with assms(1) show ?thesis by (intro that [of "t_extResources s"]) (simp_all add: resolveOrCreateExtensionResources_def)
  next
    case False
    with assms(1) show ?thesis
      by (auto simp: resolveOrCreateExtensionResources_def inserted_def split: sum.splits if_splits
          intro!: that dest: resolveAll_Inr)
  qed
  from insertMissing_Inr [OF rows(2)] assms(2) obtain new where new: "rows = t_extResources s @ map newRow new" "set new \<subseteq> set its"
    "distinct (map er_uid rows)" "distinct (map rowKey rows)"
    "\<And>k. getRow rowKey k rows =
       (case getRow rowKey k (t_extResources s) of Some r \<Rightarrow> Some r | None \<Rightarrow> map_option newRow (getRow itemKey k its))"
    by (auto simp: extOK_def)
  have "typeKey (rv_type it) \<in> rowTypeKey ` set (t_extTypes s)" if "it \<in> set new" for it
    using rows(3) that by (auto simp: new(1) list_ex_iff getRow_None)
  then show ok: "extOK s'" using assms(2) new by (auto simp: extOK_def rows(1) list_all_iff)
  show "\<exists>rows. s' = s\<lparr>t_extResources := rows\<rparr>" using rows(1) by blast
  show "extRow k s' = (case extRow k s of Some r \<Rightarrow> Some r | None \<Rightarrow> map_option newRow (getRow itemKey k its))"
    using new(5) by (simp add: extRow_def rows(1))
  show "list_all2 (\<lambda>it r. extRow (itemKey it) s' = Some r \<and> er_name r = rv_name it) its rs"
    using found by (rule list_all2_mono) (use extRow_member [OF ok] resolvedRow_Some in metis)
  show "er_uid ` set (t_extResources s') \<subseteq> er_uid ` set (t_extResources s) \<union> rv_candidate ` set its"
    using new(1,2) by (auto simp: rows(1))
qed

lemma insertMissing_total:
  assumes "distinct (map rv_candidate its)" "rv_candidate ` set its \<inter> er_uid ` set rows = {}"
  shows "\<exists>rows'. insertMissing its rows = Inr rows'"
  using assms by (induction its rows rule: insertMissing.induct) (auto simp: getRow_None)

lemma resolveOrCreate_total:
  assumes "extOK s" "distinct (map rv_candidate its)" "rv_candidate ` set its \<inter> er_uid ` set (t_extResources s) = {}"
    and "\<And>it. it \<in> set its \<Longrightarrow> canonicalName (rv_name it) \<and> typeKey (rv_type it) \<in> rowTypeKey ` set (t_extTypes s)"
  shows "\<exists>rs s'. resolveOrCreateExtensionResources its s = Inr (rs, s')"
proof (cases "its = []")
  case False
  from insertMissing_total [OF assms(2,3)] obtain rows where rows: "insertMissing its (t_extResources s) = Inr rows" by blast
  from insertMissing_Inr [OF rows] assms(1) obtain new where new: "rows = t_extResources s @ map newRow new" "set new \<subseteq> set its"
    "\<And>k. getRow rowKey k rows =
       (case getRow rowKey k (t_extResources s) of Some r \<Rightarrow> Some r | None \<Rightarrow> map_option newRow (getRow itemKey k its))"
    by (auto simp: extOK_def)
  have "inserted its s = Inr (s\<lparr>t_extResources := rows\<rparr>)"
    using rows new(1,2) assms(4) by (auto simp: inserted_def list_ex_iff getRow_None)
  moreover have "resolvedRow its (s\<lparr>t_extResources := rows\<rparr>) it \<noteq> None" if it: "it \<in> set its" for it
  proof -
    have "getRow itemKey (itemKey it) its \<noteq> None" using it by (auto simp: getRow_None)
    then obtain r where r: "getRow rowKey (itemKey it) rows = Some r"
      unfolding new(3) by (cases "getRow rowKey (itemKey it) (t_extResources s)") auto
    then have r': "r \<in> set rows" "rowKey r = itemKey it" by (auto dest: getRow_Some)
    have "canonicalName (er_name r)" using r'(1) assms(1) by (auto simp: new(1) extOK_def list_all_iff)
    with r'(2) assms(4) [OF it] have "er_name r = rv_name it" "rtServiceName (er_resourceType r) = rtServiceName (rv_type it)"
      by (auto simp: canonicalName_def rowKey_def itemKey_def keyOf_def)
    with r' it show ?thesis by (auto simp: resolvedRow_def find_None_iff)
  qed
  then obtain rs where "resolveAll (resolvedRow its (s\<lparr>t_extResources := rows\<rparr>)) its = Inr rs"
    using resolveAll_total by blast
  ultimately show ?thesis using False by (simp add: resolveOrCreateExtensionResources_def)
qed (simp add: resolveOrCreateExtensionResources_def)

section \<open>Updates by identifier\<close>

text \<open>A batch of updates, each of one row, in the order of the statements.\<close>

definition updateRows :: "(ExtensionResourceUID \<times> (ExtensionResource \<Rightarrow> ExtensionResource)) list \<Rightarrow> store \<Rightarrow> store" where
  "updateRows ps s = fold (\<lambda>p. updateUID (fst p) (snd p)) ps s"

text \<open>What an update must keep: the identifier, the type and the name.\<close>

definition keepsKey :: "(ExtensionResource \<Rightarrow> ExtensionResource) \<Rightarrow> bool" where
  "keepsKey f \<longleftrightarrow> (\<forall>r. er_uid (f r) = er_uid r \<and> er_resourceType (f r) = er_resourceType r \<and> er_name (f r) = er_name r)"

lemma keepsKey_rowKey: "keepsKey f \<Longrightarrow> rowKey (f r) = rowKey r"
  by (simp add: keepsKey_def rowKey_def)

lemma updateUID_rows:
  assumes "keepsKey f"
  shows "extRow k (updateUID uid f s) = map_option (\<lambda>r. if er_uid r = uid then f r else r) (extRow k s)"
    and "extOK s \<Longrightarrow> extOK (updateUID uid f s)"
    and "er_uid ` set (t_extResources (updateUID uid f s)) = er_uid ` set (t_extResources s)"
proof -
  let ?g = "\<lambda>r. if er_uid r = uid then f r else r"
  have keep: "er_uid (?g r) = er_uid r" "rowKey (?g r) = rowKey r" "er_resourceType (?g r) = er_resourceType r"
      "er_name (?g r) = er_name r" for r
    using assms by (simp_all add: keepsKey_def rowKey_def)
  show "extRow k (updateUID uid f s) = map_option ?g (extRow k s)"
    unfolding updateUID_def extRow_def using getRow_map [of rowKey ?g, OF keep(2)] by simp
  show "er_uid ` set (t_extResources (updateUID uid f s)) = er_uid ` set (t_extResources s)"
    using keys_map(2) [of er_uid ?g, OF keep(1)] by (simp add: updateUID_def del: set_map)
  have "list_all (\<lambda>r. canonicalName (er_name r)) (map ?g (t_extResources s))" if "extOK s"
    using that assms by (auto simp: extOK_def list_all_iff keepsKey_def)
  then show "extOK (updateUID uid f s)" if "extOK s"
    using that keys_map [of er_uid ?g "t_extResources s", OF keep(1)] keys_map [of rowKey ?g "t_extResources s", OF keep(2)]
      keys_map(2) [of "\<lambda>r. typeKey (er_resourceType r)" ?g "t_extResources s"] keep(3)
    unfolding extOK_def updateUID_def
    by (simp del: set_map map_map if_split)
qed

lemma updateRows_rows:
  assumes "\<And>p. p \<in> set ps \<Longrightarrow> keepsKey (snd p)" "extOK s"
  shows "extOK (updateRows ps s)"
    and "extRow k (updateRows ps s) = map_option (\<lambda>r. fold (\<lambda>p r. if er_uid r = fst p then snd p r else r) ps r) (extRow k s)"
    and "er_uid ` set (t_extResources (updateRows ps s)) = er_uid ` set (t_extResources s)"
    and "\<exists>rows. updateRows ps s = s\<lparr>t_extResources := rows\<rparr>"
proof -
  have "extOK (updateRows ps s) \<and>
    extRow k (updateRows ps s) = map_option (\<lambda>r. fold (\<lambda>p r. if er_uid r = fst p then snd p r else r) ps r) (extRow k s) \<and>
    er_uid ` set (t_extResources (updateRows ps s)) = er_uid ` set (t_extResources s) \<and>
    (\<exists>rows. updateRows ps s = s\<lparr>t_extResources := rows\<rparr>)"
    using assms
  proof (induction ps arbitrary: s)
    case Nil
    then show ?case by (auto simp: updateRows_def option.map_id0 [unfolded id_def] intro: exI [of _ "t_extResources s"])
  next
    case (Cons p ps)
    have kp: "keepsKey (snd p)" using Cons.prems(1) by simp
    let ?s1 = "updateUID (fst p) (snd p) s"
    have step: "updateRows (p # ps) s = updateRows ps ?s1" by (simp add: updateRows_def)
    from Cons.IH [of ?s1] Cons.prems updateUID_rows [OF kp] show ?case
      unfolding step by (auto simp: option.map_comp comp_def updateUID_def)
  qed
  then show "extOK (updateRows ps s)"
    "extRow k (updateRows ps s) = map_option (\<lambda>r. fold (\<lambda>p r. if er_uid r = fst p then snd p r else r) ps r) (extRow k s)"
    "er_uid ` set (t_extResources (updateRows ps s)) = er_uid ` set (t_extResources s)"
    "\<exists>rows. updateRows ps s = s\<lparr>t_extResources := rows\<rparr>" by blast+
qed

lemma fold_updates_absent:
  assumes "\<And>p. p \<in> set ps \<Longrightarrow> keepsKey (snd p)" "er_uid r \<notin> fst ` set ps"
  shows "fold (\<lambda>p r. if er_uid r = fst p then snd p r else r) ps r = r"
  using assms by (induction ps) auto

lemma fold_updates_one:
  assumes "\<And>p. p \<in> set ps \<Longrightarrow> keepsKey (snd p)" "distinct (map fst ps)" "(er_uid r, f) \<in> set ps"
  shows "fold (\<lambda>p r. if er_uid r = fst p then snd p r else r) ps r = f r"
  using assms
proof (induction ps)
  case (Cons p ps)
  show ?case
  proof (cases "p = (er_uid r, f)")
    case True
    then have "keepsKey f" using Cons.prems(1) [of p] by simp
    then have "er_uid (f r) \<notin> fst ` set ps" using True Cons.prems(2) by (simp add: keepsKey_def)
    with True Cons.prems fold_updates_absent [of ps "f r"] show ?thesis by simp
  next
    case False
    with Cons.prems have "er_uid r \<noteq> fst p" by (cases p) (auto simp: image_iff)
    with Cons False show ?thesis by simp
  qed
qed simp

lemma extRow_Some: "extRow k s = Some r \<Longrightarrow> r \<in> set (t_extResources s) \<and> rowKey r = k"
  unfolding extRow_def by (rule getRow_Some)

lemma extRow_same_uid:
  assumes "extOK s" "extRow k s = Some r" "extRow k' s = Some r'" "er_uid r = er_uid r'"
  shows "r = r' \<and> k = k'"
proof -
  have "inj_on er_uid (set (t_extResources s))" using assms(1) by (simp add: extOK_def distinct_map)
  with assms show ?thesis by (auto dest!: extRow_Some dest: inj_onD)
qed

text \<open>Updates addressed to the rows that a list of commands with distinct keys has found.\<close>

lemma updateRows_keyed:
  assumes "extOK s" "distinct (map key us)" "\<And>u. keepsKey (h u)"
    and found: "\<And>u. u \<in> set us \<Longrightarrow> \<exists>r. extRow (key u) s = Some r \<and> er_uid r = uid u"
  shows "extRow k (updateRows (map (\<lambda>u. (uid u, h u)) us) s) =
    (case getRow key k us of None \<Rightarrow> extRow k s | Some u \<Rightarrow> map_option (h u) (extRow k s))"
proof -
  let ?ps = "map (\<lambda>u. (uid u, h u)) us"
  have keeps: "keepsKey (snd p)" if "p \<in> set ?ps" for p using that assms(3) by auto
  have apart: "u = v" if "u \<in> set us" "v \<in> set us" "uid u = uid v" for u v
  proof -
    from found [OF that(1)] found [OF that(2)] obtain r r' where
      "extRow (key u) s = Some r" "er_uid r = uid u" "extRow (key v) s = Some r'" "er_uid r' = uid v" by blast
    with that(3) have "key u = key v" using extRow_same_uid [OF assms(1)] by metis
    with that assms(2) show ?thesis by (auto simp: distinct_map inj_on_def)
  qed
  have "distinct us" using assms(2) by (simp add: distinct_map)
  then have dist: "distinct (map fst ?ps)" using apart by (auto simp: distinct_map inj_on_def comp_def)
  have rows: "extRow k (updateRows ?ps s) =
      map_option (\<lambda>r. fold (\<lambda>p r. if er_uid r = fst p then snd p r else r) ?ps r) (extRow k s)"
    by (rule updateRows_rows(2) [OF keeps assms(1)])
  show ?thesis
  proof (cases "extRow k s")
    case None
    then show ?thesis unfolding rows by (simp split: option.split)
  next
    case (Some r)
    then have r: "r \<in> set (t_extResources s)" "rowKey r = k" by (auto simp: extRow_def dest: getRow_Some)
    show ?thesis
    proof (cases "getRow key k us")
      case None
      have "er_uid r \<noteq> uid u" if "u \<in> set us" for u
      proof
        assume same: "er_uid r = uid u"
        from found [OF that] obtain r' where "extRow (key u) s = Some r'" "er_uid r' = uid u" by blast
        with same Some have "key u = k" using extRow_same_uid [OF assms(1)] by metis
        with None that show False by (auto simp: getRow_None)
      qed
      then have "er_uid r \<notin> fst ` set ?ps" by force
      from fold_updates_absent [OF keeps this] show ?thesis unfolding rows Some using None by simp
    next
      case (Some u)
      then have u: "u \<in> set us" "key u = k" by (auto dest: getRow_Some)
      from found [OF u(1)] u(2) \<open>extRow k s = Some r\<close> have "er_uid r = uid u" by auto
      with u(1) have "(er_uid r, h u) \<in> set ?ps" by auto
      from fold_updates_one [OF keeps dist this] show ?thesis unfolding rows \<open>extRow k s = Some r\<close> using Some by simp
    qed
  qed
qed

section \<open>What a replacement leaves\<close>

lemma badShape_index: "badShape i rep = None \<longleftrightarrow> badShape 0 rep = None"
  by (simp add: badShape_def)

lemma checkReplacements_None:
  "checkReplacements i seen reps = None \<longleftrightarrow>
     list_all (\<lambda>rep. badShape 0 rep = None \<and> seen (replacementFullName rep) = None) reps \<and>
     distinct (map replacementFullName reps)"
proof (induction i seen reps rule: checkReplacements.induct)
  case (2 i seen rep reps)
  show ?case
  proof (cases "badShape i rep = None \<and> seen (replacementFullName rep) = None")
    case True
    let ?seen = "seen(replacementFullName rep \<mapsto> ir_IsDelete rep)"
    have "list_all (\<lambda>x. badShape 0 x = None \<and> ?seen (replacementFullName x) = None) reps \<longleftrightarrow>
        list_all (\<lambda>x. badShape 0 x = None \<and> seen (replacementFullName x) = None) reps \<and>
        replacementFullName rep \<notin> replacementFullName ` set reps"
      by (induction reps) auto
    moreover have "checkReplacements i seen (rep # reps) = checkReplacements (Suc i) ?seen reps" using True by simp
    ultimately show ?thesis using True "2.IH" badShape_index [of i rep] by (simp del: fun_upd_apply checkReplacements.simps)
  next
    case False
    then show ?thesis using badShape_index [of i rep] by (auto split: option.split)
  qed
qed simp

lemma Validate_None:
  "ValidateInventoryReplacements reps = None \<longleftrightarrow>
     list_all (\<lambda>rep. badShape 0 rep = None) reps \<and> distinct (map replacementFullName reps)"
  by (simp add: ValidateInventoryReplacements_def checkReplacements_None)

text \<open>The latest state of a row after a replacement, for a row that was there or a new one.\<close>

definition replaced :: "InventoryReplacement \<Rightarrow> ExtensionResource option \<Rightarrow> ExtensionResource" where
  "replaced rep prev =
     (let base = (case prev of Some r \<Rightarrow> r | None \<Rightarrow> newRow (replacementItem rep))
      in base\<lparr>er_inventory := Some
                \<lparr>iv_labels = ir_Labels rep,
                 iv_observation = (case normalizeObservation (ir_Observation rep) of
                     Some obs \<Rightarrow> Some obs
                   | None \<Rightarrow> (case er_inventory base of None \<Rightarrow> None | Some i \<Rightarrow> iv_observation i)),
                 iv_conditions = storedConditions (ir_Conditions rep),
                 iv_observedAt = ir_ObservedAt rep, iv_updatedAt = ir_ReceivedAt rep\<rparr>,
              er_reportedAliases := ir_Aliases rep,
              er_updatedAt := (if er_reportedAliases base = ir_Aliases rep then er_updatedAt base else ir_ReceivedAt rep)\<rparr>)"

definition replacedAt :: "InventoryReplacement list \<Rightarrow> natural_key \<Rightarrow> ExtensionResource option \<Rightarrow> ExtensionResource option" where
  "replacedAt reps k prev =
     (let prev' = (if list_ex (\<lambda>rep. ir_IsDelete rep \<and> replacementKey rep = k) reps then None else prev)
      in case find (\<lambda>rep. \<not> ir_IsDelete rep \<and> replacementKey rep = k) reps of
           None \<Rightarrow> prev'
         | Some rep \<Rightarrow> Some (replaced rep prev'))"

lemma itemKey_replacement [simp]: "itemKey (replacementItem rep) = replacementKey rep"
  by (simp add: itemKey_def replacementItem_def replacementKey_def)

lemma getRow_items:
  "getRow itemKey k (map replacementItem us) = map_option replacementItem (getRow replacementKey k us)"
  by (induction us) simp_all

lemma keeps_inventory: "keepsKey (upsertInventory it)" "keepsKey (\<lambda>r. r\<lparr>er_reportedAliases := as, er_updatedAt := t\<rparr>)" "keepsKey id"
  by (simp_all add: keepsKey_def upsertInventory_def)

lemma found_rows:
  assumes "list_all2 (\<lambda>it r. extRow (itemKey it) s = Some r \<and> er_name r = rv_name it) (map item us) rs"
    and "distinct (map (\<lambda>u. rtFullName (rv_type (item u)) (rv_name (item u))) us)"
  shows "rs = map (\<lambda>u. the (extRow (itemKey (item u)) s)) us" "distinct (map (\<lambda>u. itemKey (item u)) us)"
    and "u \<in> set us \<Longrightarrow> \<exists>r. extRow (itemKey (item u)) s = Some r"
proof -
  have each: "\<exists>r. extRow (itemKey (item u)) s = Some r \<and> er_name r = rv_name (item u)" if "u \<in> set us" for u
    using assms(1) that by (auto simp: list_all2_conv_all_nth in_set_conv_nth)
  then show "\<exists>r. extRow (itemKey (item u)) s = Some r" if "u \<in> set us" using that by blast
  show "rs = map (\<lambda>u. the (extRow (itemKey (item u)) s)) us"
    using assms(1) by (auto simp: list_all2_conv_all_nth intro!: nth_equalityI)
  have "rtFullName (rv_type (item u)) (rv_name (item u)) = rtFullName (rv_type (item v)) (rv_name (item v))"
    if "u \<in> set us" "v \<in> set us" "itemKey (item u) = itemKey (item v)" for u v
  proof -
    from each [OF that(1)] each [OF that(2)] that(3) have "rv_name (item u) = rv_name (item v)" by force
    moreover from that(3) have "rtServiceName (rv_type (item u)) = rtServiceName (rv_type (item v))"
      by (simp add: itemKey_def keyOf_def)
    ultimately show ?thesis by (simp add: rtFullName_def)
  qed
  then have "inj_on (\<lambda>u. itemKey (item u)) (set us)"
    using assms(2) unfolding distinct_map by (intro inj_onI) (blast dest: inj_onD)
  then show "distinct (map (\<lambda>u. itemKey (item u)) us)" using assms(2) by (simp add: distinct_map)
qed

lemma batchUpsert_updateRows:
  "batchUpsertInventoryRows (map f us) s = updateRows (map (\<lambda>u. (in_uid (f u), upsertInventory (f u))) us) s"
  by (simp add: batchUpsertInventoryRows_def updateRows_def fold_map comp_def)

lemma updateUID_id: "updateUID uid id s = s"
  by (simp add: updateUID_def id_def)

definition aliasUpdate :: "AliasSet \<Rightarrow> go_time \<Rightarrow> ExtensionResource \<Rightarrow> ExtensionResource \<Rightarrow> ExtensionResource" where
  "aliasUpdate as t r = (if as = er_reportedAliases r then id else (\<lambda>r. r\<lparr>er_reportedAliases := as, er_updatedAt := t\<rparr>))"

lemma keeps_aliasUpdate: "keepsKey (aliasUpdate as t r)"
  by (simp add: aliasUpdate_def keeps_inventory)

lemma replaceAliasPayload_updateRows:
  "fold replaceAliasPayload (map (\<lambda>u. (u, row u)) us) s =
   updateRows (map (\<lambda>u. (er_uid (row u), aliasUpdate (ir_Aliases u) (ir_ReceivedAt u) (row u))) us) s"
proof -
  have "replaceAliasPayload (u, row u) = updateUID (er_uid (row u)) (aliasUpdate (ir_Aliases u) (ir_ReceivedAt u) (row u))" for u
    by (auto simp: replaceAliasPayload_def writeAliasPayload_def aliasUpdate_def updateUID_id)
  then show ?thesis by (simp add: updateRows_def fold_map comp_def)
qed

lemma replaced_steps:
  "aliasUpdate (ir_Aliases rep) (ir_ReceivedAt rep) r (upsertInventory (replacementRow rep r) r) = replaced rep (Some r)"
  by (auto simp: aliasUpdate_def upsertInventory_def replacementRow_def replaced_def Let_def)

lemma replaced_new: "replaced rep (Some (newRow (replacementItem rep))) = replaced rep None"
  by (simp add: replaced_def Let_def)

lemma upserts_exact:
  assumes "extOK s" "resolveOrCreateExtensionResources (map replacementItem us) s = Inr (rs, s2)"
    and "distinct (map replacementFullName us)"
  defines "s' \<equiv> fold replaceAliasPayload (zip us rs) (batchUpsertInventoryRows (map (\<lambda>(rep, r). replacementRow rep r) (zip us rs)) s2)"
  shows "extOK s'" "extRow k s' = (case getRow replacementKey k us of None \<Rightarrow> extRow k s | Some rep \<Rightarrow> Some (replaced rep (extRow k s)))"
    and "\<exists>rows. s' = s\<lparr>t_extResources := rows\<rparr>"
    and "er_uid ` set (t_extResources s') \<subseteq> er_uid ` set (t_extResources s) \<union> ir_CandidateUID ` set us"
proof -
  note res = resolveOrCreate_Inr [OF assms(2,1)]
  define row where "row u = the (extRow (replacementKey u) s2)" for u
  have "distinct (map (\<lambda>u. rtFullName (rv_type (replacementItem u)) (rv_name (replacementItem u))) us)"
    using assms(3) by (simp add: replacementFullName_def [abs_def] replacementItem_def)
  note found = found_rows [OF res(4) this]
  have pairs: "zip us rs = map (\<lambda>u. (u, row u)) us"
    using found(1) by (simp add: row_def zip_map2 zip_same_conv_map)
  let ?ps1 = "map (\<lambda>u. (er_uid (row u), upsertInventory (replacementRow u (row u)))) us"
  let ?ps2 = "map (\<lambda>u. (er_uid (row u), aliasUpdate (ir_Aliases u) (ir_ReceivedAt u) (row u))) us"
  have s': "s' = updateRows ?ps2 (updateRows ?ps1 s2)"
    using batchUpsert_updateRows [of "\<lambda>u. replacementRow u (row u)" us s2]
    by (simp add: s'_def pairs replaceAliasPayload_updateRows comp_def replacementRow_def)
  have keeps: "keepsKey (snd p)" if "p \<in> set ?ps1 \<union> set ?ps2" for p
    using that keeps_inventory keeps_aliasUpdate by auto
  have keys: "distinct (map replacementKey us)" using found(2) by simp
  have at: "extRow (replacementKey u) s2 = Some (row u)" if "u \<in> set us" for u
    using found(3) [OF that] by (auto simp: row_def)
  define s3 where "s3 = updateRows ?ps1 s2"
  have ok3: "extOK s3" unfolding s3_def by (rule updateRows_rows(1)) (use keeps res(1) in auto)
  have r3: "extRow k s3 = (case getRow replacementKey k us of None \<Rightarrow> extRow k s2
      | Some u \<Rightarrow> map_option (upsertInventory (replacementRow u (row u))) (extRow k s2))" for k
    unfolding s3_def by (rule updateRows_keyed [OF res(1) keys keeps_inventory(1)]) (use at in auto)
  have at3: "\<exists>r. extRow (replacementKey u) s3 = Some r \<and> er_uid r = er_uid (row u)" if "u \<in> set us" for u
    using r3 at [OF that] getRow_member [OF keys that] keeps_inventory(1) by (simp add: keepsKey_def)
  have r': "extRow k s' = (case getRow replacementKey k us of None \<Rightarrow> extRow k s3
      | Some u \<Rightarrow> map_option (aliasUpdate (ir_Aliases u) (ir_ReceivedAt u) (row u)) (extRow k s3))" for k
    unfolding s' s3_def [symmetric] by (rule updateRows_keyed [OF ok3 keys keeps_aliasUpdate]) (use at3 in auto)
  show "extOK s'" unfolding s' s3_def [symmetric] by (rule updateRows_rows(1)) (use keeps ok3 in auto)
  show "extRow k s' = (case getRow replacementKey k us of None \<Rightarrow> extRow k s | Some rep \<Rightarrow> Some (replaced rep (extRow k s)))"
  proof (cases "getRow replacementKey k us")
    case None
    then show ?thesis using r' r3 res(3) [of k] by (simp add: getRow_items split: option.split)
  next
    case (Some u)
    then have u: "u \<in> set us" "replacementKey u = k" by (auto dest: getRow_Some)
    have "extRow k s' = Some (replaced u (Some (row u)))"
      using Some r' r3 at [OF u(1)] u(2) replaced_steps by simp
    moreover have "replaced u (Some (row u)) = replaced u (extRow k s)"
    proof (cases "extRow k s")
      case None
      then have "row u = newRow (replacementItem u)" using at [OF u(1)] u(2) res(3) [of k] Some by (simp add: getRow_items)
      with None show ?thesis by (simp add: replaced_new)
    qed (use at [OF u(1)] u(2) res(3) [of k] in simp)
    ultimately show ?thesis using Some by simp
  qed
  show "\<exists>rows. s' = s\<lparr>t_extResources := rows\<rparr>"
    using updateRows_rows(4) [of ?ps1 s2] updateRows_rows(4) [of ?ps2 s3] keeps res(1,2) ok3
    unfolding s' s3_def [symmetric] by (fastforce simp: s3_def)
  show "er_uid ` set (t_extResources s') \<subseteq> er_uid ` set (t_extResources s) \<union> ir_CandidateUID ` set us"
    using updateRows_rows(3) [of ?ps1 s2] updateRows_rows(3) [of ?ps2 s3] keeps res(1,5) ok3
    unfolding s' s3_def [symmetric] by (auto simp: s3_def replacementItem_def image_image)
qed

lemma getRow_upserts:
  "getRow replacementKey k (filter (\<lambda>r. \<not> ir_IsDelete r) reps) = find (\<lambda>rep. \<not> ir_IsDelete rep \<and> replacementKey rep = k) reps"
  by (induction reps) auto

lemma extRow_deleted:
  assumes "extOK s"
  shows "extRow k (deleteInventoryReplacements (filter ir_IsDelete reps) s) =
    (if list_ex (\<lambda>rep. ir_IsDelete rep \<and> replacementKey rep = k) reps then None else extRow k s)"
proof (cases "extRow k s")
  case (Some r)
  then have "rowKey r = k" by (simp add: extRow_Some)
  then have "rowKey r \<in> set (map replacementKey (filter ir_IsDelete reps)) \<longleftrightarrow>
      list_ex (\<lambda>rep. ir_IsDelete rep \<and> replacementKey rep = k) reps" by (force simp: list_ex_iff)
  with Some show ?thesis by (simp add: deleteInventoryReplacements_def extRow_drop [OF assms] del: set_map)
qed (simp add: deleteInventoryReplacements_def extRow_drop [OF assms])

lemma delete_none: "deleteInventoryReplacements [] s = s"
proof -
  have "\<not> list_ex (\<lambda>r. False) rows" for rows :: "ExtensionResource list" by (induction rows) simp_all
  then show ?thesis by (simp add: deleteInventoryReplacements_def dropResources_def)
qed

text \<open>The body of a validated replacement.\<close>

lemma ReplaceInventory_body:
  fixes s :: store
  assumes "ValidateInventoryReplacements reps = None"
  defines "us \<equiv> filter (\<lambda>r. \<not> ir_IsDelete r) reps" and "s1 \<equiv> deleteInventoryReplacements (filter ir_IsDelete reps) s"
  shows "ReplaceInventory reps s =
    (case resolveOrCreateExtensionResources (map replacementItem us) s1 of
       Inl e \<Rightarrow> Inl (Wrapped ''replace inventory: '' e '''')
     | Inr (rs, s2) \<Rightarrow>
         Inr (fold replaceAliasPayload (zip us rs)
           (batchUpsertInventoryRows (map (\<lambda>(rep, r). replacementRow rep r) (zip us rs)) s2)))"
proof (cases "us = []")
  case True
  then show ?thesis using assms(1)
    by (auto simp: ReplaceInventory_def partitionInventoryReplacements_def us_def s1_def delete_none
        resolveOrCreateExtensionResources_def batchUpsertInventoryRows_def filter_empty_conv Let_def)
next
  case False
  then have "reps \<noteq> []" by (auto simp: us_def)
  with False assms(1) have "ReplaceInventory reps s =
    (case resolveOrCreateExtensionResources (map replacementItem us)
        (if filter ir_IsDelete reps = [] then s else deleteInventoryReplacements (filter ir_IsDelete reps) s) of
       Inl e \<Rightarrow> Inl (Wrapped ''replace inventory: '' e '''')
     | Inr (rs, s2) \<Rightarrow>
         Inr (fold replaceAliasPayload (zip us rs)
           (batchUpsertInventoryRows (map (\<lambda>(rep, r). replacementRow rep r) (zip us rs)) s2)))"
    unfolding us_def by (simp add: ReplaceInventory_def partitionInventoryReplacements_def Let_def del: if_split)
  moreover have "(if filter ir_IsDelete reps = [] then s else deleteInventoryReplacements (filter ir_IsDelete reps) s) = s1"
    unfolding s1_def by (cases "filter ir_IsDelete reps") (simp_all add: delete_none)
  ultimately show ?thesis by (simp only:)
qed

lemma ReplaceInventory_exact:
  assumes "ReplaceInventory reps s = Inr s'" "extOK s"
  shows "extOK s'" "extRow k s' = replacedAt reps k (extRow k s)"
    and "\<exists>rows intents. s' = s\<lparr>t_extResources := rows, t_intents := intents\<rparr>"
    and "er_uid ` set (t_extResources s') \<subseteq>
      er_uid ` set (t_extResources s) \<union> ir_CandidateUID ` {rep \<in> set reps. \<not> ir_IsDelete rep}"
proof -
  let ?us = "filter (\<lambda>r. \<not> ir_IsDelete r) reps" and ?s1 = "deleteInventoryReplacements (filter ir_IsDelete reps) s"
  have valid: "ValidateInventoryReplacements reps = None"
    using assms(1) by (cases "reps = []") (auto simp: ReplaceInventory_def ValidateInventoryReplacements_def split: option.splits)
  have ok1: "extOK ?s1" using extOK_drop [OF assms(2)] by (simp add: deleteInventoryReplacements_def)
  from assms(1) obtain rs s2 where res: "resolveOrCreateExtensionResources (map replacementItem ?us) ?s1 = Inr (rs, s2)"
    and s': "s' = fold replaceAliasPayload (zip ?us rs)
      (batchUpsertInventoryRows (map (\<lambda>(rep, r). replacementRow rep r) (zip ?us rs)) s2)"
    by (auto simp: ReplaceInventory_body [OF valid] split: sum.splits)
  have "distinct (map replacementFullName ?us)" using valid by (auto simp: Validate_None distinct_map_filter)
  note up = upserts_exact [OF ok1 res this, folded s']
  show "extOK s'" by (rule up(1))
  show "extRow k s' = replacedAt reps k (extRow k s)"
    unfolding up(2) getRow_upserts extRow_deleted [OF assms(2)] replacedAt_def Let_def by (rule refl)
  show "\<exists>rows intents. s' = s\<lparr>t_extResources := rows, t_intents := intents\<rparr>"
  proof -
    obtain rows where "s' = ?s1\<lparr>t_extResources := rows\<rparr>" using up(3) by blast
    moreover obtain old intents where "?s1 = s\<lparr>t_extResources := old, t_intents := intents\<rparr>"
      by (simp add: deleteInventoryReplacements_def dropResources_def)
    ultimately have "s' = s\<lparr>t_extResources := rows, t_intents := intents\<rparr>" by simp
    then show ?thesis by blast
  qed
  show "er_uid ` set (t_extResources s') \<subseteq>
      er_uid ` set (t_extResources s) \<union> ir_CandidateUID ` {rep \<in> set reps. \<not> ir_IsDelete rep}"
    using up(4) by (auto simp: deleteInventoryReplacements_def dropResources_def)
qed

text \<open>
  When a batch is taken: it is valid, its names are put together from a collection and an identifier,
  its types are in the catalog, and the candidate identifiers are new.
\<close>

definition acceptable :: "InventoryReplacement list \<Rightarrow> store \<Rightarrow> bool" where
  "acceptable reps s \<longleftrightarrow>
     ValidateInventoryReplacements reps = None \<and>
     list_all (\<lambda>rep. canonicalName (ir_Name rep)) reps \<and>
     (let us = filter (\<lambda>rep. \<not> ir_IsDelete rep) reps
      in list_all (\<lambda>rep. getRow rowTypeKey (typeKey (ir_ResourceType rep)) (t_extTypes s) \<noteq> None) us \<and>
         distinct (map ir_CandidateUID us) \<and>
         list_all (\<lambda>rep. getRow er_uid (ir_CandidateUID rep) (t_extResources s) = None) us)"

lemma ReplaceInventory_total:
  assumes "acceptable reps s" "extOK s"
  shows "\<exists>s'. ReplaceInventory reps s = Inr s'"
proof -
  let ?us = "filter (\<lambda>r. \<not> ir_IsDelete r) reps" and ?s1 = "deleteInventoryReplacements (filter ir_IsDelete reps) s"
  have ok1: "extOK ?s1" using extOK_drop [OF assms(2)] by (simp add: deleteInventoryReplacements_def)
  have sub: "er_uid ` set (t_extResources ?s1) \<subseteq> er_uid ` set (t_extResources s)" "t_extTypes ?s1 = t_extTypes s"
    by (auto simp: deleteInventoryReplacements_def dropResources_def)
  have "\<exists>rs s2. resolveOrCreateExtensionResources (map replacementItem ?us) ?s1 = Inr (rs, s2)"
  proof (rule resolveOrCreate_total [OF ok1])
    show "distinct (map rv_candidate (map replacementItem ?us))"
      using assms(1) by (simp add: acceptable_def Let_def replacementItem_def comp_def)
    show "rv_candidate ` set (map replacementItem ?us) \<inter> er_uid ` set (t_extResources ?s1) = {}"
    proof -
      have "ir_CandidateUID ` set ?us \<inter> er_uid ` set (t_extResources s) = {}"
        using assms(1) by (auto simp: acceptable_def Let_def list_all_iff getRow_None)
      with sub(1) show ?thesis by (auto simp: replacementItem_def image_image)
    qed
    show "canonicalName (rv_name it) \<and> typeKey (rv_type it) \<in> rowTypeKey ` set (t_extTypes ?s1)"
      if "it \<in> set (map replacementItem ?us)" for it
      using assms(1) that sub(2) by (auto simp: acceptable_def Let_def replacementItem_def list_all_iff getRow_None)
  qed
  with assms(1) show ?thesis by (auto simp: acceptable_def ReplaceInventory_body)
qed

section \<open>Batches\<close>

text \<open>
  C15: replacing inventory is exact. In a consistent store the repository either refuses the batch,
  which it does only if the batch is invalid, a name is not made of a collection and an identifier,
  a type is missing, or a candidate identifier is taken; or the store stays consistent, every key of
  a delete is gone, every key of a replacement holds exactly the reported labels, conditions and
  aliases, keeps its previous observation if none is reported, and keeps its identifier, creation
  time, own labels and managed state if it was there; every other resource, every fulfillment and
  every accepted alias is untouched.
\<close>

theorem replace_inventory_exact:
  assumes "extOK s"
  shows "case ReplaceInventory reps s of
      Inl e \<Rightarrow> \<not> acceptable reps s
    | Inr s' \<Rightarrow>
        extOK s' \<and> (\<forall>k. extRow k s' = replacedAt reps k (extRow k s)) \<and>
        (\<forall>i. fulfillmentsGet i s' = fulfillmentsGet i s) \<and> t_aliasClaims s' = t_aliasClaims s"
proof (cases "ReplaceInventory reps s")
  case (Inl e)
  with ReplaceInventory_total [OF _ assms, of reps] show ?thesis by auto
next
  case (Inr s')
  note ex = ReplaceInventory_exact [OF Inr assms]
  obtain rows intents where s': "s' = s\<lparr>t_extResources := rows, t_intents := intents\<rparr>" using ex(3) by blast
  have "fulfillmentsGet i s' = fulfillmentsGet i s" for i
    by (simp add: s' fulfillmentsGet_def fulfillmentRow_def joinedSnapshot_def split: option.split)
  moreover have "t_aliasClaims s' = t_aliasClaims s" by (simp add: s')
  ultimately show ?thesis unfolding Inr sum.case using ex(1,2) by blast
qed

definition podType :: ExtensionResourceType where
  "podType = \<lparr>et_resourceType = ''k8s.io/Pod'', et_apiVersion = ''v1'', et_collectionID = ''pods'', et_management = None,
     et_inventory = True, et_createdAt = 0, et_updatedAt = 0\<rparr>"

definition podStore :: store where
  "podStore = emptyStore\<lparr>t_extTypes := [podType]\<rparr>"

definition podReport :: "ResourceName \<Rightarrow> ExtensionResourceUID \<Rightarrow> InventoryReplacement" where
  "podReport name uid =
     \<lparr>ir_ResourceType = ''k8s.io/Pod'', ir_Name = name, ir_IsDelete = False, ir_CandidateUID = uid, ir_Aliases = [],
      ir_Labels = fmupd ''app'' ''web'' fmempty, ir_Observation = None, ir_Conditions = [], ir_ObservedAt = 1, ir_ReceivedAt = 2\<rparr>"

lemma podStore_ok: "extOK podStore"
  by (simp add: extOK_def podStore_def emptyStore_def)

lemma podReport_key: "replacementKey (podReport ''pods/a'' u) = (''k8s.io'', ''pods'', ''a'')"
    "replacementKey (podReport ''pods/b'' u) = (''k8s.io'', ''pods'', ''b'')"
  by (simp_all add: replacementKey_def keyOf_def podReport_def rtServiceName_def cut_first_def nameCollection_def nameID_def cut_last_def)

lemma podReports_acceptable: "acceptable [podReport ''pods/a'' ''u1'', podReport ''pods/b'' ''u2''] podStore"
  by (simp add: acceptable_def Validate_None badShape_def podReport_def podStore_def emptyStore_def podType_def typeKey_def
      canonicalName_def replacementFullName_def rtFullName_def NewFullResourceName_def
      rtServiceName_def cut_first_def nameCollection_def nameID_def cut_last_def)

theorem replace_inventory_exact_witness:
  "\<exists>s'. ReplaceInventory [podReport ''pods/a'' ''u1'', podReport ''pods/b'' ''u2''] podStore = Inr s' \<and>
     map_option er_uid (extRow (''k8s.io'', ''pods'', ''a'') s') = Some ''u1''"
  using replace_inventory_exact [OF podStore_ok, of "[podReport ''pods/a'' ''u1'', podReport ''pods/b'' ''u2'']"] podReports_acceptable
  by (auto simp: replacedAt_def podReport_key replaced_def newRow_def replacementItem_def podStore_def emptyStore_def extRow_def
      Let_def split: sum.splits) (auto simp: podReport_def)

text \<open>With distinct keys at most one command concerns a key.\<close>

lemma replacedAt_single:
  assumes "distinct (map replacementKey reps)"
  shows "replacedAt reps k prev =
    (case getRow replacementKey k reps of
       None \<Rightarrow> prev
     | Some rep \<Rightarrow> if ir_IsDelete rep then None else Some (replaced rep prev))"
  using assms
proof (induction reps)
  case (Cons rep reps)
  have other: "\<not> list_ex (\<lambda>x. ir_IsDelete x \<and> replacementKey x = replacementKey rep) reps"
      "find (\<lambda>x. \<not> ir_IsDelete x \<and> replacementKey x = replacementKey rep) reps = None"
    using Cons.prems by (auto simp: list_ex_iff find_None_iff image_iff)
  show ?case
  proof (cases "replacementKey rep = k")
    case True
    with other show ?thesis by (auto simp: replacedAt_def)
  next
    case False
    with Cons show ?thesis by (simp add: replacedAt_def)
  qed
qed (simp add: replacedAt_def)

lemma replacedAt_append:
  assumes "distinct (map replacementKey (xs @ ys))"
  shows "replacedAt (xs @ ys) k prev = replacedAt ys k (replacedAt xs k prev)"
proof -
  have "getRow replacementKey k ys = None" if "getRow replacementKey k xs = Some rep" for rep
    using that assms by (auto simp: getRow_None dest!: getRow_Some)
  with assms show ?thesis by (auto simp: replacedAt_single getRow_append split: option.split)
qed

lemma canonical_keys:
  assumes "list_all (\<lambda>rep. canonicalName (ir_Name rep)) reps" "distinct (map replacementFullName reps)"
  shows "distinct (map replacementKey reps)"
proof -
  have "replacementFullName x = replacementFullName y" if "x \<in> set reps" "y \<in> set reps" "replacementKey x = replacementKey y" for x y
    using assms(1) that
    by (simp add: list_all_iff canonicalName_def replacementKey_def keyOf_def replacementFullName_def rtFullName_def) (metis that)
  with assms(2) show ?thesis unfolding distinct_map by (blast intro: inj_onI dest: inj_onD)
qed

text \<open>A batch split into chunks, one statement after the other.\<close>

fun replaceChunks :: "InventoryReplacement list list \<Rightarrow> store \<Rightarrow> store result" where
  "replaceChunks [] s = Inr s"
| "replaceChunks (c # cs) s = (case ReplaceInventory c s of Inl e \<Rightarrow> Inl e | Inr s' \<Rightarrow> replaceChunks cs s')"

lemma acceptable_split:
  assumes "acceptable (xs @ ys) s" "extOK s"
  shows "acceptable xs s" "ReplaceInventory xs s = Inr s' \<Longrightarrow> acceptable ys s'"
proof -
  show "acceptable xs s" using assms(1) by (auto simp: acceptable_def Validate_None Let_def)
  assume run: "ReplaceInventory xs s = Inr s'"
  note ex = ReplaceInventory_exact [OF run assms(2)]
  have "t_extTypes s' = t_extTypes s" using ex(3) by auto
  moreover have "getRow er_uid (ir_CandidateUID rep) (t_extResources s') = None" if "rep \<in> set ys" "\<not> ir_IsDelete rep" for rep
  proof -
    from assms(1) that have "ir_CandidateUID rep \<notin> er_uid ` set (t_extResources s)"
      by (simp add: acceptable_def Let_def list_all_iff getRow_None)
    moreover from assms(1) that have "ir_CandidateUID rep \<notin> ir_CandidateUID ` {x \<in> set xs. \<not> ir_IsDelete x}"
      by (auto simp: acceptable_def Let_def)
    ultimately show ?thesis using ex(4) by (simp add: getRow_None) blast
  qed
  ultimately show "acceptable ys s'" using assms(1) by (auto simp: acceptable_def Validate_None Let_def list_all_iff)
qed

lemma replaceChunks_exact:
  assumes "acceptable (concat chunks) s" "extOK s"
  shows "\<exists>s'. replaceChunks chunks s = Inr s' \<and> (\<forall>k. extRow k s' = replacedAt (concat chunks) k (extRow k s))"
  using assms
proof (induction chunks arbitrary: s)
  case (Cons c cs)
  then have whole: "acceptable (c @ concat cs) s" by simp
  obtain s1 where s1: "ReplaceInventory c s = Inr s1"
    using ReplaceInventory_total [OF acceptable_split(1) [OF whole Cons.prems(2)] Cons.prems(2)] by blast
  note ex = ReplaceInventory_exact [OF s1 Cons.prems(2)]
  from Cons.IH [OF acceptable_split(2) [OF whole Cons.prems(2) s1] ex(1)] obtain s' where
    s': "replaceChunks cs s1 = Inr s'" "\<And>k. extRow k s' = replacedAt (concat cs) k (extRow k s1)" by blast
  have "distinct (map replacementKey (c @ concat cs))"
    using whole by (intro canonical_keys) (auto simp: acceptable_def Validate_None)
  then have "extRow k s' = replacedAt (concat (c # cs)) k (extRow k s)" for k
    using s'(2) ex(2) replacedAt_append [of c "concat cs"] by simp
  with s1 s'(1) show ?case by auto
qed (simp add: replacedAt_def)



section \<open>What a delta leaves\<close>

definition deltaKey :: "InventoryDelta \<Rightarrow> natural_key" where
  "deltaKey d = keyOf (rtServiceName (dl_ResourceType d)) (dl_Name d)"

definition deltaFullName :: "InventoryDelta \<Rightarrow> FullResourceName" where
  "deltaFullName d = rtFullName (dl_ResourceType d) (dl_Name d)"

definition applied :: "InventoryDelta \<Rightarrow> ExtensionResource option \<Rightarrow> ExtensionResource" where
  "applied d prev =
     (let base = (case prev of Some r \<Rightarrow> r | None \<Rightarrow> newRow (deltaItem d));
          old = (case er_inventory base of
              Some i \<Rightarrow> i
            | None \<Rightarrow> \<lparr>iv_labels = fmempty, iv_observation = None, iv_conditions = [], iv_observedAt = 0, iv_updatedAt = 0\<rparr>);
          aliases = aliasMerge (er_reportedAliases base) (dl_UpsertAliases d)
      in base\<lparr>er_inventory := Some
                \<lparr>iv_labels = mergedLabels d (iv_labels old),
                 iv_observation = (case normalizeObservation (dl_Observation d) of Some obs \<Rightarrow> Some obs | None \<Rightarrow> iv_observation old),
                 iv_conditions = storedConditions (mergedConditions d (iv_conditions old)),
                 iv_observedAt = dl_ObservedAt d, iv_updatedAt = dl_ReceivedAt d\<rparr>,
              er_reportedAliases := aliases,
              er_updatedAt := (if aliases = er_reportedAliases base then er_updatedAt base else dl_ReceivedAt d)\<rparr>)"

lemma itemKey_delta [simp]: "itemKey (deltaItem d) = deltaKey d"
  by (simp add: itemKey_def deltaItem_def deltaKey_def)

lemma getRow_deltas: "getRow itemKey k (map deltaItem ds) = map_option deltaItem (getRow deltaKey k ds)"
  by (induction ds) simp_all

lemma deltaRow_uid: "in_uid (deltaRow s (d, r)) = er_uid r"
  by (simp add: deltaRow_def split: prod.split)

lemma rowByUID_extRow: "extOK s \<Longrightarrow> extRow k s = Some r \<Longrightarrow> rowByUID (er_uid r) s = Some r"
  by (auto simp: rowByUID_def extOK_def dest!: extRow_Some intro: getRow_member)

lemma mergeAliasPayload_updateRows:
  "fold (mergeAliasPayload cur) (filter (\<lambda>p. dl_UpsertAliases (fst p) \<noteq> []) (map (\<lambda>d. (d, row d)) ds)) s =
   updateRows (map (\<lambda>d. (er_uid (row d), if dl_UpsertAliases d = [] then id
     else if aliasMerge (currentAliases (er_uid (row d)) cur) (dl_UpsertAliases d) = currentAliases (er_uid (row d)) cur then id
     else (\<lambda>r. r\<lparr>er_reportedAliases := aliasMerge (currentAliases (er_uid (row d)) cur) (dl_UpsertAliases d),
               er_updatedAt := dl_ReceivedAt d\<rparr>))) ds) s"
  by (induction ds arbitrary: s)
    (simp_all add: updateRows_def updateUID_id mergeAliasPayload_def writeAliasPayload_def aliasSetEqual_eq Let_def)

text \<open>The two writes of a delta on the row it has found.\<close>

lemma applied_steps:
  assumes "cur = er_reportedAliases r" "cur_inv = (case er_inventory r of None \<Rightarrow> (fmempty, []) | Some i \<Rightarrow> (iv_labels i, iv_conditions i))"
  shows "(if dl_UpsertAliases d = [] then id else if aliasMerge cur (dl_UpsertAliases d) = cur then id
      else (\<lambda>r. r\<lparr>er_reportedAliases := aliasMerge cur (dl_UpsertAliases d), er_updatedAt := dl_ReceivedAt d\<rparr>))
      (upsertInventory \<lparr>in_uid = er_uid r, in_observation = normalizeObservation (dl_Observation d),
         in_labels = mergedLabels d (fst cur_inv), in_conditions = mergedConditions d (snd cur_inv),
         in_observedAt = dl_ObservedAt d, in_updatedAt = dl_ReceivedAt d\<rparr> r) = applied d (Some r)"
  using assms by (auto simp: upsertInventory_def applied_def Let_def aliasMerge_def split: option.splits)

lemma applied_new: "applied d (Some (newRow (deltaItem d))) = applied d None"
  by (simp add: applied_def Let_def)

lemma ApplyInventoryDeltas_exact:
  assumes "ApplyInventoryDeltas ds s = Inr s'" "extOK s" "distinct (map deltaFullName ds)"
  shows "extOK s'" "extRow k s' = (case getRow deltaKey k ds of None \<Rightarrow> extRow k s | Some d \<Rightarrow> Some (applied d (extRow k s)))"
    and "\<exists>rows. s' = s\<lparr>t_extResources := rows\<rparr>"
proof -
  obtain rs s1 where res: "resolveOrCreateExtensionResources (map deltaItem ds) s = Inr (rs, s1)"
    and s': "s' = (let s2 = batchUpsertInventoryRows (map (deltaRow s1) (zip ds rs)) s1
      in fold (mergeAliasPayload s2) (filter (\<lambda>p. dl_UpsertAliases (fst p) \<noteq> []) (zip ds rs)) s2)"
  proof (cases "ds = []")
    case True
    with assms(1) show ?thesis
      by (intro that [of "[]" s]) (simp_all add: ApplyInventoryDeltas_def resolveOrCreateExtensionResources_def batchUpsertInventoryRows_def)
  next
    case False
    with assms(1) show ?thesis by (auto simp: ApplyInventoryDeltas_def Let_def split: option.splits sum.splits intro!: that)
  qed
  note r1 = resolveOrCreate_Inr [OF res assms(2)]
  define row where "row d = the (extRow (deltaKey d) s1)" for d
  have "distinct (map (\<lambda>u. rtFullName (rv_type (deltaItem u)) (rv_name (deltaItem u))) ds)"
    using assms(3) by (simp add: deltaFullName_def [abs_def] deltaItem_def)
  note found = found_rows [OF r1(4) this]
  have pairs: "zip ds rs = map (\<lambda>d. (d, row d)) ds" using found(1) by (simp add: row_def zip_map2 zip_same_conv_map)
  have keys: "distinct (map deltaKey ds)" using found(2) by simp
  have at: "extRow (deltaKey d) s1 = Some (row d)" if "d \<in> set ds" for d using found(3) [OF that] by (auto simp: row_def)
  let ?f1 = "\<lambda>d. upsertInventory (deltaRow s1 (d, row d))"
  let ?ps1 = "map (\<lambda>d. (er_uid (row d), ?f1 d)) ds"
  define s2 where "s2 = updateRows ?ps1 s1"
  let ?cur = "\<lambda>d. currentAliases (er_uid (row d)) s2"
  let ?f2 = "\<lambda>d. if dl_UpsertAliases d = [] then id else if aliasMerge (?cur d) (dl_UpsertAliases d) = ?cur d then id
     else (\<lambda>r. r\<lparr>er_reportedAliases := aliasMerge (?cur d) (dl_UpsertAliases d), er_updatedAt := dl_ReceivedAt d\<rparr>)"
  let ?ps2 = "map (\<lambda>d. (er_uid (row d), ?f2 d)) ds"
  have "batchUpsertInventoryRows (map (deltaRow s1) (zip ds rs)) s1 = s2"
    using batchUpsert_updateRows [of "\<lambda>d. deltaRow s1 (d, row d)" ds s1]
    by (simp add: pairs comp_def s2_def deltaRow_uid)
  then have s'_eq: "s' = updateRows ?ps2 s2" by (simp add: s' pairs mergeAliasPayload_updateRows Let_def)
  have k1: "keepsKey (snd p)" if "p \<in> set ?ps1" for p using that keeps_inventory(1) by auto
  have f2: "keepsKey (?f2 d)" for d by (simp add: keeps_inventory)
  have k2: "keepsKey (snd p)" if "p \<in> set ?ps2" for p using that f2 by auto
  have ok2: "extOK s2" unfolding s2_def by (rule updateRows_rows(1) [OF k1 r1(1)])
  have e2: "extRow k s2 = (case getRow deltaKey k ds of None \<Rightarrow> extRow k s1 | Some d \<Rightarrow> map_option (?f1 d) (extRow k s1))" for k
    unfolding s2_def by (rule updateRows_keyed [OF r1(1) keys keeps_inventory(1)]) (use at in auto)
  have at2: "extRow (deltaKey d) s2 = Some (?f1 d (row d))" if "d \<in> set ds" for d
    using e2 at [OF that] getRow_member [OF keys that] by simp
  have uid2: "er_uid (?f1 d r) = er_uid r" for d r using keeps_inventory(1) by (simp add: keepsKey_def)
  show "extOK s'" unfolding s'_eq by (rule updateRows_rows(1) [OF k2 ok2])
  show "\<exists>rows. s' = s\<lparr>t_extResources := rows\<rparr>"
  proof -
    have "\<exists>b. s2 = s1\<lparr>t_extResources := b\<rparr>" unfolding s2_def by (rule updateRows_rows(4) [OF k1 r1(1)])
    moreover have "\<exists>c. s' = s2\<lparr>t_extResources := c\<rparr>" unfolding s'_eq by (rule updateRows_rows(4) [OF k2 ok2])
    ultimately obtain a b c where "s1 = s\<lparr>t_extResources := a\<rparr>" "s2 = s1\<lparr>t_extResources := b\<rparr>" "s' = s2\<lparr>t_extResources := c\<rparr>"
      using r1(2) by blast
    then have "s' = s\<lparr>t_extResources := c\<rparr>" by simp
    then show ?thesis by blast
  qed
  have e': "extRow k s' = (case getRow deltaKey k ds of None \<Rightarrow> extRow k s2 | Some d \<Rightarrow> map_option (?f2 d) (extRow k s2))" for k
    unfolding s'_eq by (rule updateRows_keyed [OF ok2 keys f2]) (use at2 uid2 in auto)
  have step: "?f2 d (?f1 d (row d)) = applied d (Some (row d))" if "d \<in> set ds" for d
  proof (rule applied_steps [of "?cur d" "row d" "currentInventory (er_uid (row d)) s1", THEN trans [rotated]])
    show "?cur d = er_reportedAliases (row d)"
      using rowByUID_extRow [OF ok2 at2 [OF that]] uid2 by (simp add: currentAliases_def upsertInventory_def)
    show "currentInventory (er_uid (row d)) s1 =
        (case er_inventory (row d) of None \<Rightarrow> (fmempty, []) | Some i \<Rightarrow> (iv_labels i, iv_conditions i))"
      using rowByUID_extRow [OF r1(1) at [OF that]] by (simp add: currentInventory_def)
  qed (simp add: deltaRow_def split: prod.split)
  show "extRow k s' = (case getRow deltaKey k ds of None \<Rightarrow> extRow k s | Some d \<Rightarrow> Some (applied d (extRow k s)))"
  proof (cases "getRow deltaKey k ds")
    case None
    then show ?thesis using e' e2 r1(3) [of k] by (simp add: getRow_deltas split: option.split)
  next
    case (Some d)
    then have d: "d \<in> set ds" "deltaKey d = k" by (auto dest: getRow_Some)
    have "extRow k s' = Some (applied d (Some (row d)))" using Some e' [of k] at2 [OF d(1)] d(2) step [OF d(1)] by simp
    moreover have "applied d (Some (row d)) = applied d (extRow k s)"
    proof (cases "extRow k s")
      case None
      then have "row d = newRow (deltaItem d)" using at [OF d(1)] d(2) r1(3) [of k] Some by (simp add: getRow_deltas)
      with None show ?thesis by (simp add: applied_new)
    qed (use at [OF d(1)] d(2) r1(3) [of k] in simp)
    ultimately show ?thesis using Some by simp
  qed
qed

lemma fold_fmdrop: "fmlookup (fold fmdrop ks m) k = (if k \<in> set ks then None else fmlookup m k)"
  by (induction ks arbitrary: m) auto

lemma mergedLabels_lookup:
  "fmlookup (mergedLabels d prev) k =
     (case dl_ReplaceLabels d of
        Some new \<Rightarrow> fmlookup new k
      | None \<Rightarrow> (case fmlookup (dl_UpsertLabels d) k of
          Some v \<Rightarrow> Some v
        | None \<Rightarrow> if k \<in> set (dl_DeleteLabels d) then None else fmlookup prev k))"
  by (auto simp: mergedLabels_def fold_fmdrop map_add_def split: option.split)

lemma storedConditions_index: "index_by cd_type (storedConditions cs) = index_by cd_type cs"
proof
  fix t
  let ?ix = "index_by cd_type cs" and ?ts = "sort (remdups (map cd_type cs))"
  have type: "cd_type (the (?ix u)) = u" if "u \<in> cd_type ` set cs" for u
    using that index_by_member [of _ cs cd_type] index_by_SomeD [of cd_type cs] by (metis (no_types, lifting) imageE option.sel)
  have stored: "storedConditions cs = map (\<lambda>u. the (?ix u)) ?ts" by (simp add: storedConditions_def Let_def)
  have "map cd_type (storedConditions cs) = ?ts" unfolding stored by (auto simp: type intro!: map_idI)
  then have dist: "distinct (map cd_type (storedConditions cs))" by simp
  show "index_by cd_type (storedConditions cs) t = ?ix t"
  proof (cases "t \<in> cd_type ` set cs")
    case True
    then have "the (?ix t) \<in> set (storedConditions cs)" by (auto simp: stored)
    from index_by_distinct [OF dist this] True show ?thesis
      using type [OF True] index_by_None [of cd_type cs t] by (metis option.collapse)
  next
    case False
    then have "t \<notin> cd_type ` set (storedConditions cs)"
      using \<open>map cd_type (storedConditions cs) = ?ts\<close> by (metis set_map set_remdups set_sort)
    with False show ?thesis by (simp add: index_by_None [THEN iffD2])
  qed
qed

lemma index_by_filter: "index_by cd_type (filter (\<lambda>c. cd_type c \<notin> A) cs) t = (if t \<in> A then None else index_by cd_type cs t)"
proof (induction cs rule: rev_induct)
  case (snoc c cs)
  then show ?case by (auto simp: index_by_append index_by_Cons map_add_def)
qed simp

lemma mergedConditions_lookup:
  "index_by cd_type (storedConditions (mergedConditions d prev)) t =
     (case dl_ReplaceConditions d of
        Some new \<Rightarrow> index_by cd_type new t
      | None \<Rightarrow> (case index_by cd_type (dl_UpsertConditions d) t of
          Some c \<Rightarrow> Some c
        | None \<Rightarrow> if t \<in> set (dl_DeleteConditions d) then None else index_by cd_type prev t))"
  by (auto simp: storedConditions_index mergedConditions_def index_by_append map_add_def index_by_filter split: option.split)

definition deltasAcceptable :: "InventoryDelta list \<Rightarrow> store \<Rightarrow> bool" where
  "deltasAcceptable ds s \<longleftrightarrow>
     firstBadDelta ds = None \<and> list_all (\<lambda>d. canonicalName (dl_Name d)) ds \<and>
     list_all (\<lambda>d. getRow rowTypeKey (typeKey (dl_ResourceType d)) (t_extTypes s) \<noteq> None) ds \<and>
     distinct (map dl_CandidateUID ds) \<and> list_all (\<lambda>d. getRow er_uid (dl_CandidateUID d) (t_extResources s) = None) ds"

lemma ApplyInventoryDeltas_total:
  assumes "deltasAcceptable ds s" "extOK s"
  shows "\<exists>s'. ApplyInventoryDeltas ds s = Inr s'"
proof -
  have "\<exists>rs s1. resolveOrCreateExtensionResources (map deltaItem ds) s = Inr (rs, s1)"
    using assms(1)
    by (intro resolveOrCreate_total [OF assms(2)])
      (auto simp: deltasAcceptable_def deltaItem_def comp_def list_all_iff getRow_None)
  with assms(1) show ?thesis by (auto simp: ApplyInventoryDeltas_def deltasAcceptable_def Let_def)
qed

text \<open>
  C16: applying deltas is exact. For distinct names the repository refuses a batch only if a delta
  contradicts itself or asks for an alias operation that is not implemented, a name is not made of a
  collection and an identifier, a type is missing or a candidate identifier is taken. Otherwise the
  store stays consistent and every named row is the old one with the delta applied: a label or a
  condition is the replaced, else the upserted one, else gone if deleted, else as before; the
  observation is kept if none is reported; the aliases are merged. Every other row is as before.
\<close>

theorem apply_deltas_exact:
  assumes "extOK s" "distinct (map deltaFullName ds)"
  shows "(case ApplyInventoryDeltas ds s of
      Inl e \<Rightarrow> \<not> deltasAcceptable ds s
    | Inr s' \<Rightarrow>
        extOK s' \<and>
        (\<forall>k. extRow k s' = (case getRow deltaKey k ds of None \<Rightarrow> extRow k s | Some d \<Rightarrow> Some (applied d (extRow k s))))) \<and>
    (\<forall>d prev l. fmlookup (mergedLabels d prev) l =
      (case dl_ReplaceLabels d of
         Some new \<Rightarrow> fmlookup new l
       | None \<Rightarrow> (case fmlookup (dl_UpsertLabels d) l of
           Some v \<Rightarrow> Some v
         | None \<Rightarrow> if l \<in> set (dl_DeleteLabels d) then None else fmlookup prev l))) \<and>
    (\<forall>d cs t. index_by cd_type (storedConditions (mergedConditions d cs)) t =
      (case dl_ReplaceConditions d of
         Some new \<Rightarrow> index_by cd_type new t
       | None \<Rightarrow> (case index_by cd_type (dl_UpsertConditions d) t of
           Some c \<Rightarrow> Some c
         | None \<Rightarrow> if t \<in> set (dl_DeleteConditions d) then None else index_by cd_type cs t)))"
proof (intro conjI allI mergedLabels_lookup mergedConditions_lookup)
  show "case ApplyInventoryDeltas ds s of
      Inl e \<Rightarrow> \<not> deltasAcceptable ds s
    | Inr s' \<Rightarrow>
        extOK s' \<and>
        (\<forall>k. extRow k s' = (case getRow deltaKey k ds of None \<Rightarrow> extRow k s | Some d \<Rightarrow> Some (applied d (extRow k s))))"
  proof (cases "ApplyInventoryDeltas ds s")
    case (Inl e)
    with ApplyInventoryDeltas_total [OF _ assms(1)] show ?thesis by fastforce
  next
    case (Inr s')
    then show ?thesis using ApplyInventoryDeltas_exact(1,2) [OF Inr assms] by simp
  qed
qed

definition podDelta :: InventoryDelta where
  "podDelta =
     \<lparr>dl_ResourceType = ''k8s.io/Pod'', dl_Name = ''pods/a'', dl_CandidateUID = ''u1'', dl_UpsertAliases = [], dl_DeleteAliases = [],
      dl_ReplaceAliases = [], dl_ReplaceLabels = None, dl_UpsertLabels = fmupd ''app'' ''web'' fmempty, dl_DeleteLabels = [],
      dl_Observation = None, dl_ReplaceConditions = None, dl_UpsertConditions = [], dl_DeleteConditions = [],
      dl_ObservedAt = 1, dl_ReceivedAt = 2\<rparr>"

theorem apply_deltas_exact_witness:
  "\<exists>s'. ApplyInventoryDeltas [podDelta] podStore = Inr s' \<and>
     extRow (''k8s.io'', ''pods'', ''a'') s' = Some (applied podDelta None)"
proof -
  have none: "find (\<lambda>_. False) xs = None" for xs :: "string list" by (induction xs) simp_all
  have "deltasAcceptable [podDelta] podStore"
    by (simp add: none deltasAcceptable_def ValidateInventoryDelta_def podDelta_def podStore_def emptyStore_def podType_def typeKey_def
        canonicalName_def rtServiceName_def cut_first_def nameCollection_def nameID_def cut_last_def rtTypeName_def)
  moreover have "deltaKey podDelta = (''k8s.io'', ''pods'', ''a'')" "extRow k podStore = None" for k
    by (simp_all add: deltaKey_def keyOf_def podDelta_def rtServiceName_def cut_first_def nameCollection_def nameID_def cut_last_def
        podStore_def emptyStore_def extRow_def)
  ultimately show ?thesis
    using apply_deltas_exact [OF podStore_ok, of "[podDelta]"] by (auto split: sum.splits)
qed

end
