(* ===== verification/FS_Reports.thy ===== *)
theory FS_Reports
  imports FS_Inventory
begin

text \<open>
  The inventory-report service (\<^verbatim>\<open>application/inventory_report_service.go\<close>): it resolves the
  reported identities, by name or by accepted aliases, and writes a batch in chunks inside one
  transaction. The locale \<open>chunked_reports\<close> states what the replacements and the deltas share; it
  is interpreted on both.
\<close>

section \<open>Reports and their identities\<close>

record InventoryReplacementInput =
  rp_ResourceType :: ResourceType
  rp_Name :: "ResourceName option"
  rp_Aliases :: AliasSet
  rp_IsDelete :: bool
  rp_Labels :: string_map
  rp_Observation :: "bytes option"
  rp_Conditions :: "Condition list"
  rp_ObservedAt :: go_time

record InventoryDeltaInput =
  rd_ResourceType :: ResourceType
  rd_Name :: "ResourceName option"
  rd_UpsertAliases :: AliasSet
  rd_DeleteAliases :: "AliasRef list"
  rd_ReplaceAliases :: AliasSet
  rd_ReplaceLabels :: "string_map option"
  rd_UpsertLabels :: string_map
  rd_DeleteLabels :: "string list"
  rd_Observation :: "bytes option"
  rd_ReplaceConditions :: "Condition list option"
  rd_UpsertConditions :: "Condition list"
  rd_DeleteConditions :: "string list"
  rd_ObservedAt :: go_time

record reportIdentity =
  id_ResourceType :: ResourceType
  id_Name :: "ResourceName option"
  id_Aliases :: AliasSet
  id_IsDelete :: bool

record reportResolver =
  rr_typeCache :: "ResourceType \<rightharpoonup> ExtensionResourceType"
  rr_seenNames :: "FullResourceName \<rightharpoonup> nat"

definition newReportResolver :: reportResolver where
  "newReportResolver = \<lparr>rr_typeCache = Map.empty, rr_seenNames = Map.empty\<rparr>"

definition lookupInventoryType :: "ResourceType \<Rightarrow> reportResolver \<Rightarrow> (ExtensionResourceType \<times> reportResolver) io" where
  "lookupInventoryType rt R =
     (case rr_typeCache R rt of
        Some t \<Rightarrow> ret (t, R)
      | None \<Rightarrow>
          andThen (wrap (''lookup type '' @ quote rt @ '': '') (reads (extGetType rt))) (\<lambda>t.
          if \<not> et_inventory t
          then throw (Wrapped '''' (Sentinel ErrInvalidArgument) ('': type '' @ quote rt @ '' has no inventory metadata''))
          else ret (t, R\<lparr>rr_typeCache := (rr_typeCache R)(rt \<mapsto> t)\<rparr>)))"

definition lookupInventoryOnlyType :: "ResourceType \<Rightarrow> reportResolver \<Rightarrow> (ExtensionResourceType \<times> reportResolver) io" where
  "lookupInventoryOnlyType rt R =
     andThen (lookupInventoryType rt R) (\<lambda>(t, R').
     if et_management t \<noteq> None
     then throw (Wrapped '''' (Sentinel ErrInvalidArgument) ('': type '' @ quote rt @
            '' has management metadata; whole-resource delete is allowed only for inventory-only types''))
     else ret (t, R'))"

fun checkTypes :: "reportIdentity list \<Rightarrow> reportResolver \<Rightarrow> reportResolver io" where
  "checkTypes [] R = ret R"
| "checkTypes (it # its) R =
     (if id_IsDelete it then
        andThen (lookupInventoryOnlyType (id_ResourceType it) R) (\<lambda>(_, R').
        if id_Name it = None then throw (invalidInput ''IsDelete report must set Name'')
        else checkTypes its R')
      else
        andThen (lookupInventoryType (id_ResourceType it) R) (\<lambda>(_, R').
        if id_Name it = None \<and> id_Aliases it = [] then throw (invalidInput ''report must set Name or Aliases'')
        else checkTypes its R'))"

definition aliasQuery :: "reportIdentity list \<Rightarrow> Alias list" where
  "aliasQuery items = concat (map id_Aliases (filter (\<lambda>it. \<not> id_IsDelete it \<and> id_Name it = None) items))"

fun agreeing :: "AliasSet \<Rightarrow> (Alias \<Rightarrow> ResourceName option) \<Rightarrow> ResourceName option \<Rightarrow> ResourceName option result" where
  "agreeing [] resolved target = Inr target"
| "agreeing (a # as) resolved target =
     (case resolved a of
        None \<Rightarrow> agreeing as resolved target
      | Some name \<Rightarrow>
          if target \<noteq> None \<and> target \<noteq> Some name
          then Inl (invalidInput ''aliases resolve to different platform resources'')
          else agreeing as resolved (Some name))"

definition resolveByAliases :: "AliasSet \<Rightarrow> (Alias \<Rightarrow> ResourceName option) \<Rightarrow> ResourceName result" where
  "resolveByAliases aliases resolved =
     (case agreeing aliases resolved None of
        Inl e \<Rightarrow> Inl e
      | Inr None \<Rightarrow> Inl (Wrapped '''' (Sentinel ErrNotFound) '': no alias resolved to an existing platform resource'')
      | Inr (Some name) \<Rightarrow> Inr name)"

fun targetsOf :: "reportIdentity list \<Rightarrow> (Alias \<Rightarrow> ResourceName option) \<Rightarrow> ResourceName list result" where
  "targetsOf [] resolved = Inr []"
| "targetsOf (it # its) resolved =
     (case (case id_Name it of Some n \<Rightarrow> Inr n | None \<Rightarrow> resolveByAliases (id_Aliases it) resolved) of
        Inl e \<Rightarrow> Inl e
      | Inr n \<Rightarrow> (case targetsOf its resolved of Inl e \<Rightarrow> Inl e | Inr ns \<Rightarrow> Inr (n # ns)))"

fun rejectDuplicateReports ::
  "(reportIdentity \<times> ResourceName) list \<Rightarrow> nat \<Rightarrow> (FullResourceName \<rightharpoonup> nat) \<Rightarrow> (FullResourceName \<rightharpoonup> nat) result" where
  "rejectDuplicateReports [] i seen = Inr seen"
| "rejectDuplicateReports ((it, name) # ps) i seen =
     (let full = rtFullName (id_ResourceType it) name
      in case seen full of
           Some first \<Rightarrow> Inl (Wrapped '''' (Sentinel ErrInvalidArgument) ('': resource '' @ full @
             '' reported more than once in this batch (reports '' @ itoa (int first) @ '' and '' @ itoa (int i) @ '')''))
         | None \<Rightarrow> rejectDuplicateReports ps (Suc i) (seen(full \<mapsto> i)))"

definition resolveBatch :: "reportIdentity list \<Rightarrow> nat \<Rightarrow> reportResolver \<Rightarrow> (ResourceName list \<times> reportResolver) io" where
  "resolveBatch items base R =
     (if items = [] then ret ([], R)
      else
        andThen (checkTypes items R) (\<lambda>R1.
        let query = aliasQuery items
        in andThen (if query = [] then ret Map.empty
                    else wrap ''resolve aliases batch: ''
                           (wrap ''resolve aliases batch: '' (reads (\<lambda>s. Inr (ResolveAliasesBatch query s))))) (\<lambda>resolved.
           case targetsOf items resolved of
             Inl e \<Rightarrow> throw e
           | Inr targets \<Rightarrow>
               (case rejectDuplicateReports (zip items targets) base (rr_seenNames R1) of
                  Inl e \<Rightarrow> throw e
                | Inr seen \<Rightarrow> ret (targets, R1\<lparr>rr_seenNames := seen\<rparr>)))))"

section \<open>The report service\<close>

definition defaultReportChunkSize :: nat where
  "defaultReportChunkSize = 1000"

function eachChunk :: "nat \<Rightarrow> nat \<Rightarrow> 'a list \<Rightarrow> (nat \<Rightarrow> 'a list \<Rightarrow> 's \<Rightarrow> 's io) \<Rightarrow> 's \<Rightarrow> 's io" where
  "eachChunk n start xs body st =
     (if xs = [] \<or> n = 0 then ret st
      else andThen (body start (take n xs) st) (\<lambda>st'. eachChunk n (start + n) (drop n xs) body st'))"
  by pat_completeness auto
termination by (relation "measure (\<lambda>(n, start, xs, body, st). length xs)") auto

declare eachChunk.simps [simp del]

definition forEachReportChunk :: "nat \<Rightarrow> 'a list \<Rightarrow> (nat \<Rightarrow> 'a list \<Rightarrow> 's \<Rightarrow> 's io) \<Rightarrow> 's \<Rightarrow> 's io" where
  "forEachReportChunk n xs body st =
     eachChunk (if n = 0 \<or> n > length xs then length xs else n) 0 xs body st"

definition validateDeleteReplacementInput :: "nat \<Rightarrow> InventoryReplacementInput \<Rightarrow> error option" where
  "validateDeleteReplacementInput i report =
     (case rp_Name report of
        None \<Rightarrow> Some (Wrapped '''' (Sentinel ErrInvalidArgument) ('': report '' @ itoa (int i) @ '': IsDelete requires Name''))
      | Some name \<Rightarrow>
          ValidateInventoryReplacements
            [\<lparr>ir_ResourceType = rp_ResourceType report, ir_Name = name, ir_IsDelete = True, ir_CandidateUID = zeroUID,
              ir_Aliases = rp_Aliases report, ir_Labels = rp_Labels report, ir_Observation = rp_Observation report,
              ir_Conditions = rp_Conditions report, ir_ObservedAt = rp_ObservedAt report, ir_ReceivedAt = 0\<rparr>])"

fun firstBadReport :: "nat \<Rightarrow> InventoryReplacementInput list \<Rightarrow> error option" where
  "firstBadReport i [] = None"
| "firstBadReport i (r # rs) =
     (case (if rp_IsDelete r then validateDeleteReplacementInput i r else None) of
        Some e \<Rightarrow> Some e
      | None \<Rightarrow> firstBadReport (Suc i) rs)"

definition replacementIdentity :: "InventoryReplacementInput \<Rightarrow> reportIdentity" where
  "replacementIdentity r =
     \<lparr>id_ResourceType = rp_ResourceType r, id_Name = rp_Name r, id_Aliases = rp_Aliases r, id_IsDelete = rp_IsDelete r\<rparr>"

definition replacementOf :: "go_time \<Rightarrow> InventoryReplacementInput \<Rightarrow> ResourceName \<Rightarrow> ExtensionResourceUID \<Rightarrow> InventoryReplacement" where
  "replacementOf now r name uid =
     (if rp_IsDelete r then
        \<lparr>ir_ResourceType = rp_ResourceType r, ir_Name = name, ir_IsDelete = True, ir_CandidateUID = zeroUID,
         ir_Aliases = [], ir_Labels = fmempty, ir_Observation = None, ir_Conditions = [], ir_ObservedAt = 0, ir_ReceivedAt = 0\<rparr>
      else
        \<lparr>ir_ResourceType = rp_ResourceType r, ir_Name = name, ir_IsDelete = False, ir_CandidateUID = uid,
         ir_Aliases = rp_Aliases r, ir_Labels = rp_Labels r, ir_Observation = rp_Observation r,
         ir_Conditions = rp_Conditions r, ir_ObservedAt = rp_ObservedAt r, ir_ReceivedAt = now\<rparr>)"

fun replacementsFor :: "go_time \<Rightarrow> (InventoryReplacementInput \<times> ResourceName) list \<Rightarrow> InventoryReplacement list io" where
  "replacementsFor now [] = ret []"
| "replacementsFor now ((r, name) # ps) =
     andThen (if rp_IsDelete r then ret zeroUID else newUUID) (\<lambda>uid.
     andThen (replacementsFor now ps) (\<lambda>reps.
     ret (replacementOf now r name uid # reps)))"

definition replaceChunk :: "go_time \<Rightarrow> nat \<Rightarrow> InventoryReplacementInput list \<Rightarrow> reportResolver \<Rightarrow> reportResolver io" where
  "replaceChunk now start chunk R =
     andThen (resolveBatch (map replacementIdentity chunk) start R) (\<lambda>(targets, R').
     andThen (replacementsFor now (zip chunk targets)) (\<lambda>reps.
     andThen (wrap ''replace inventory: '' (writes (ReplaceInventory reps))) (\<lambda>_. ret R')))"

definition ReplaceBatch :: "nat \<Rightarrow> go_time \<Rightarrow> InventoryReplacementInput list \<Rightarrow> unit io" where
  "ReplaceBatch chunkSize now reports =
     (if reports = [] then ret ()
      else case firstBadReport 0 reports of
        Some e \<Rightarrow> throw e
      | None \<Rightarrow>
          andThen Begin (\<lambda>_.
          andThen (forEachReportChunk chunkSize reports (replaceChunk now) newReportResolver) (\<lambda>_. Commit)))"

definition validateDeltaReport :: "InventoryDeltaInput \<Rightarrow> error option" where
  "validateDeltaReport r =
     ValidateInventoryDelta
       \<lparr>dl_ResourceType = '''', dl_Name = '''', dl_CandidateUID = zeroUID, dl_UpsertAliases = rd_UpsertAliases r,
        dl_DeleteAliases = rd_DeleteAliases r, dl_ReplaceAliases = rd_ReplaceAliases r, dl_ReplaceLabels = rd_ReplaceLabels r,
        dl_UpsertLabels = rd_UpsertLabels r, dl_DeleteLabels = rd_DeleteLabels r, dl_Observation = None,
        dl_ReplaceConditions = rd_ReplaceConditions r, dl_UpsertConditions = rd_UpsertConditions r,
        dl_DeleteConditions = rd_DeleteConditions r, dl_ObservedAt = 0, dl_ReceivedAt = 0\<rparr>"

fun firstBadDeltaReport :: "InventoryDeltaInput list \<Rightarrow> error option" where
  "firstBadDeltaReport [] = None"
| "firstBadDeltaReport (r # rs) = (case validateDeltaReport r of Some e \<Rightarrow> Some e | None \<Rightarrow> firstBadDeltaReport rs)"

definition deltaIdentity :: "InventoryDeltaInput \<Rightarrow> reportIdentity" where
  "deltaIdentity r =
     \<lparr>id_ResourceType = rd_ResourceType r, id_Name = rd_Name r,
      id_Aliases = aliasMerge (rd_UpsertAliases r) (rd_ReplaceAliases r), id_IsDelete = False\<rparr>"

definition deltaOf :: "go_time \<Rightarrow> InventoryDeltaInput \<Rightarrow> ResourceName \<Rightarrow> ExtensionResourceUID \<Rightarrow> InventoryDelta" where
  "deltaOf now r name uid =
     \<lparr>dl_ResourceType = rd_ResourceType r, dl_Name = name, dl_CandidateUID = uid,
      dl_UpsertAliases = rd_UpsertAliases r, dl_DeleteAliases = rd_DeleteAliases r,
      dl_ReplaceAliases = rd_ReplaceAliases r, dl_ReplaceLabels = rd_ReplaceLabels r,
      dl_UpsertLabels = rd_UpsertLabels r, dl_DeleteLabels = rd_DeleteLabels r, dl_Observation = rd_Observation r,
      dl_ReplaceConditions = rd_ReplaceConditions r, dl_UpsertConditions = rd_UpsertConditions r,
      dl_DeleteConditions = rd_DeleteConditions r, dl_ObservedAt = rd_ObservedAt r, dl_ReceivedAt = now\<rparr>"

fun deltasFor :: "go_time \<Rightarrow> (InventoryDeltaInput \<times> ResourceName) list \<Rightarrow> InventoryDelta list io" where
  "deltasFor now [] = ret []"
| "deltasFor now ((r, name) # ps) =
     andThen newUUID (\<lambda>uid.
     andThen (deltasFor now ps) (\<lambda>ds.
     ret (deltaOf now r name uid # ds)))"

definition deltaChunk :: "go_time \<Rightarrow> nat \<Rightarrow> InventoryDeltaInput list \<Rightarrow> reportResolver \<Rightarrow> reportResolver io" where
  "deltaChunk now start chunk R =
     andThen (resolveBatch (map deltaIdentity chunk) start R) (\<lambda>(targets, R').
     andThen (deltasFor now (zip chunk targets)) (\<lambda>ds.
     andThen (wrap ''apply inventory deltas: '' (writes (ApplyInventoryDeltas ds))) (\<lambda>_. ret R')))"

definition ApplyDeltaBatch :: "nat \<Rightarrow> go_time \<Rightarrow> InventoryDeltaInput list \<Rightarrow> unit io" where
  "ApplyDeltaBatch chunkSize now reports =
     (if reports = [] then ret ()
      else case firstBadDeltaReport reports of
        Some e \<Rightarrow> throw e
      | None \<Rightarrow>
          andThen Begin (\<lambda>_.
          andThen (forEachReportChunk chunkSize reports (deltaChunk now) newReportResolver) (\<lambda>_. Commit)))"

section \<open>Resolving the reports, proved\<close>

lemma steps_ret: "S x w \<Longrightarrow> steps w (ret x) S"
  unfolding steps_def by (rule triple_ret) auto

lemma steps_then_read:
  assumes "steps w m (\<lambda>x w'. w' = w \<and> P x)" "\<And>x. P x \<Longrightarrow> steps w (k x) S"
  shows "steps w (andThen m k) S"
  unfolding steps_def
proof (rule triple_andThen)
  show "triple (at w) m (\<lambda>x v. P x \<and> at w v) (\<lambda>_. at w)"
    by (rule triple_weaken [OF assms(1) [unfolded steps_def]]) auto
  show "triple (\<lambda>v. P x \<and> at w v) (k x) (\<lambda>x v. \<exists>w'. S x w' \<and> at w' v) (\<lambda>_. at w)" for x
    using assms(2) [of x] by (auto simp: steps_def triple_def)
qed

definition cacheOK :: "reportResolver \<Rightarrow> store \<Rightarrow> bool" where
  "cacheOK R s \<longleftrightarrow> (\<forall>rt t. rr_typeCache R rt = Some t \<longrightarrow> extGetType rt s = Inr t \<and> et_inventory t)"

text \<open>A type takes reports if it has inventory metadata, and deletes only if it has no management metadata.\<close>

definition typeTakes :: "store \<Rightarrow> ResourceType \<Rightarrow> bool \<Rightarrow> bool" where
  "typeTakes s rt del \<longleftrightarrow>
     (case extGetType rt s of Inl _ \<Rightarrow> False | Inr t \<Rightarrow> et_inventory t \<and> (if del then et_management t = None else True))"

lemma steps_lookupInventoryType:
  assumes "cacheOK R (w_tx w)"
  shows "steps w (lookupInventoryType rt R) (\<lambda>p w'. w' = w \<and>
    (extGetType rt (w_tx w) = Inr (fst p) \<and> et_inventory (fst p) \<and> cacheOK (snd p) (w_tx w) \<and>
     rr_seenNames (snd p) = rr_seenNames R))"
proof (cases "rr_typeCache R rt")
  case None
  show ?thesis unfolding lookupInventoryType_def None option.case
  proof (rule steps_then_read)
    show "steps w (wrap (''lookup type '' @ quote rt @ '': '') (reads (extGetType rt))) (\<lambda>x w'. w' = w \<and> extGetType rt (w_tx w) = Inr x)"
      using steps_wrap [OF steps_reads] by (simp add: conj_commute)
    show "steps w (if \<not> et_inventory t
          then throw (Wrapped '''' (Sentinel ErrInvalidArgument) ('': type '' @ quote rt @ '' has no inventory metadata''))
          else ret (t, R\<lparr>rr_typeCache := (rr_typeCache R)(rt \<mapsto> t)\<rparr>))
        (\<lambda>p w'. w' = w \<and> (extGetType rt (w_tx w) = Inr (fst p) \<and> et_inventory (fst p) \<and> cacheOK (snd p) (w_tx w) \<and>
           rr_seenNames (snd p) = rr_seenNames R))"
      if "extGetType rt (w_tx w) = Inr t" for t
      using that assms by (auto simp: cacheOK_def intro!: steps_ret steps_throw split: if_splits)
  qed
next
  case (Some t)
  with assms show ?thesis by (auto simp: lookupInventoryType_def cacheOK_def intro!: steps_ret)
qed

lemma steps_lookupInventoryOnlyType:
  assumes "cacheOK R (w_tx w)"
  shows "steps w (lookupInventoryOnlyType rt R) (\<lambda>p w'. w' = w \<and>
    (typeTakes (w_tx w) rt True \<and> cacheOK (snd p) (w_tx w) \<and> rr_seenNames (snd p) = rr_seenNames R))"
  unfolding lookupInventoryOnlyType_def
  by (rule steps_then_read [OF steps_lookupInventoryType [OF assms]])
    (auto simp: case_prod_beta typeTakes_def intro!: steps_ret steps_throw)

lemma steps_mono: "steps w m S \<Longrightarrow> (\<And>x w'. S x w' \<Longrightarrow> S' x w') \<Longrightarrow> steps w m S'"
  unfolding steps_def by (erule triple_weaken) auto

lemma steps_lookupTakes:
  assumes "cacheOK R (w_tx w)"
  shows "steps w (lookupInventoryType rt R) (\<lambda>p w'. w' = w \<and>
    (typeTakes (w_tx w) rt False \<and> cacheOK (snd p) (w_tx w) \<and> rr_seenNames (snd p) = rr_seenNames R))"
  by (rule steps_mono [OF steps_lookupInventoryType [OF assms]]) (auto simp: typeTakes_def)

lemma steps_checkTypes:
  assumes "cacheOK R (w_tx w)"
  shows "steps w (checkTypes its R) (\<lambda>R' w'. w' = w \<and> cacheOK R' (w_tx w) \<and> rr_seenNames R' = rr_seenNames R \<and>
    list_all (\<lambda>it. typeTakes (w_tx w) (id_ResourceType it) (id_IsDelete it) \<and> (id_IsDelete it \<longrightarrow> id_Name it \<noteq> None)) its)"
  using assms
proof (induction its arbitrary: R)
  case Nil
  then show ?case by (auto intro: steps_ret)
next
  case (Cons it its)
  let ?S = "\<lambda>R' w'. w' = w \<and> cacheOK R' (w_tx w) \<and> rr_seenNames R' = rr_seenNames R \<and>
    list_all (\<lambda>it. typeTakes (w_tx w) (id_ResourceType it) (id_IsDelete it) \<and> (id_IsDelete it \<longrightarrow> id_Name it \<noteq> None)) (it # its)"
  have next_ok: "steps w (checkTypes its R') ?S"
    if "typeTakes (w_tx w) (id_ResourceType it) (id_IsDelete it) \<and> (id_IsDelete it \<longrightarrow> id_Name it \<noteq> None)" "cacheOK R' (w_tx w)" "rr_seenNames R' = rr_seenNames R" for R'
    using Cons.IH [OF that(2)] that(1,3) by simp
  show ?case
  proof (cases "id_IsDelete it")
    case True
    show ?thesis unfolding checkTypes.simps if_P [OF True]
      by (intro steps_then_read [OF steps_lookupInventoryOnlyType [OF Cons.prems]])
        (auto simp only: case_prod_beta True split: if_split intro!: steps_throw next_ok)
  next
    case False
    show ?thesis unfolding checkTypes.simps if_not_P [OF False]
      by (intro steps_then_read [OF steps_lookupTakes [OF Cons.prems]])
        (auto simp only: case_prod_beta False split: if_split intro!: steps_throw next_ok)
  qed
qed

text \<open>A name that a set of aliases resolves to: some alias has it, and no alias has another.\<close>

definition agreedName :: "store \<Rightarrow> AliasSet \<Rightarrow> ResourceName \<Rightarrow> bool" where
  "agreedName s aliases n \<longleftrightarrow>
     list_ex (\<lambda>a. ResolveAliasesBatch [a] s a = Some n) aliases \<and>
     list_all (\<lambda>a. ResolveAliasesBatch [a] s a \<in> {None, Some n}) aliases"

lemma agreeing_Inr:
  assumes "agreeing as resolved target = Inr (Some n)"
  shows "(target = Some n \<or> (\<exists>a \<in> set as. resolved a = Some n)) \<and> target \<in> {None, Some n} \<and>
    (\<forall>a \<in> set as. resolved a \<in> {None, Some n})"
  using assms by (induction as resolved target rule: agreeing.induct) (auto split: option.splits if_splits)

lemma resolveByAliases_agreed:
  assumes "resolveByAliases as resolved = Inr n" "\<And>a. a \<in> set as \<Longrightarrow> resolved a = ResolveAliasesBatch [a] s a"
  shows "agreedName s as n"
proof -
  from assms(1) have "agreeing as resolved None = Inr (Some n)"
    by (auto simp: resolveByAliases_def split: sum.splits option.splits)
  from agreeing_Inr [OF this] assms(2) show ?thesis by (auto simp: agreedName_def list_ex_iff list_all_iff)
qed

lemma targetsOf_Inr:
  "targetsOf its resolved = Inr ns \<Longrightarrow>
   list_all2 (\<lambda>it n. case id_Name it of Some m \<Rightarrow> n = m | None \<Rightarrow> resolveByAliases (id_Aliases it) resolved = Inr n) its ns"
proof (induction its arbitrary: ns)
  case (Cons it its)
  then obtain n ns' where "ns = n # ns'" "targetsOf its resolved = Inr ns'"
    "(case id_Name it of Some m \<Rightarrow> Inr m | None \<Rightarrow> resolveByAliases (id_Aliases it) resolved) = Inr n"
    by (auto split: sum.splits)
  with Cons.IH [of ns'] show ?case by (cases "id_Name it") simp_all
qed simp

definition targetOf :: "store \<Rightarrow> reportIdentity \<Rightarrow> ResourceName \<Rightarrow> bool" where
  "targetOf s it n \<longleftrightarrow>
     typeTakes s (id_ResourceType it) (id_IsDelete it) \<and>
     (case id_Name it of Some m \<Rightarrow> n = m | None \<Rightarrow> agreedName s (id_Aliases it) n)"

definition pairName :: "reportIdentity \<times> ResourceName \<Rightarrow> FullResourceName" where
  "pairName p = rtFullName (id_ResourceType (fst p)) (snd p)"

lemma rejectDuplicateReports_Inr:
  assumes "rejectDuplicateReports ps i seen = Inr seen'"
  shows "distinct (map pairName ps)" "pairName ` set ps \<inter> dom seen = {}" "dom seen' = dom seen \<union> pairName ` set ps"
proof -
  have "distinct (map pairName ps) \<and> pairName ` set ps \<inter> dom seen = {} \<and> dom seen' = dom seen \<union> pairName ` set ps"
    using assms
  proof (induction ps i seen rule: rejectDuplicateReports.induct)
    case (2 it name ps i seen)
    let ?full = "rtFullName (id_ResourceType it) name"
    from "2.prems" have fresh: "seen ?full = None" and rest: "rejectDuplicateReports ps (Suc i) (seen(?full \<mapsto> i)) = Inr seen'"
      by (auto simp: Let_def split: option.splits)
    from "2.IH" [OF refl fresh rest] fresh show ?case by (auto simp: pairName_def)
  qed simp
  then show "distinct (map pairName ps)" "pairName ` set ps \<inter> dom seen = {}" "dom seen' = dom seen \<union> pairName ` set ps" by blast+
qed

text \<open>What resolving a chunk returns: a target for every report, none of them seen before.\<close>

definition resolvedTo :: "store \<Rightarrow> reportIdentity list \<Rightarrow> reportResolver \<Rightarrow> ResourceName list \<Rightarrow> reportResolver \<Rightarrow> bool" where
  "resolvedTo s its R targets R' \<longleftrightarrow>
     list_all2 (targetOf s) its targets \<and> distinct (map pairName (zip its targets)) \<and>
     pairName ` set (zip its targets) \<inter> dom (rr_seenNames R) = {} \<and>
     dom (rr_seenNames R') = dom (rr_seenNames R) \<union> pairName ` set (zip its targets) \<and> cacheOK R' s"

lemma resolvedToI:
  assumes "list_all (\<lambda>it. typeTakes s (id_ResourceType it) (id_IsDelete it)) its"
    and "targetsOf its resolved = Inr targets"
    and "\<And>it a. it \<in> set its \<Longrightarrow> id_Name it = None \<Longrightarrow> a \<in> set (id_Aliases it) \<Longrightarrow> resolved a = ResolveAliasesBatch [a] s a"
    and "rejectDuplicateReports (zip its targets) base (rr_seenNames R) = Inr seen" "cacheOK R1 s"
  shows "resolvedTo s its R targets (R1\<lparr>rr_seenNames := seen\<rparr>)"
proof -
  from targetsOf_Inr [OF assms(2)] have each: "length its = length targets"
      "i < length its \<Longrightarrow> case id_Name (its ! i) of Some m \<Rightarrow> targets ! i = m
         | None \<Rightarrow> resolveByAliases (id_Aliases (its ! i)) resolved = Inr (targets ! i)" for i
    by (auto simp: list_all2_conv_all_nth)
  have "targetOf s (its ! i) (targets ! i)" if "i < length its" for i
    using each(2) [OF that] assms(1) that assms(3) [of "its ! i"] resolveByAliases_agreed [of "id_Aliases (its ! i)" resolved "targets ! i" s]
    by (auto simp: targetOf_def list_all_length split: option.splits)
  with each(1) rejectDuplicateReports_Inr [OF assms(4)] assms(5) show ?thesis
    by (simp add: resolvedTo_def list_all2_conv_all_nth cacheOK_def)
qed

lemma steps_resolveBatch:
  assumes "cacheOK R (w_tx w)"
  shows "steps w (resolveBatch its base R) (\<lambda>p w'. w' = w \<and> resolvedTo (w_tx w) its R (fst p) (snd p))"
proof (cases "its = []")
  case True
  with assms show ?thesis by (auto simp: resolveBatch_def resolvedTo_def intro!: steps_ret)
next
  case False
  let ?q = "aliasQuery its"
  have query: "a \<in> set ?q" if "it \<in> set its" "\<not> id_IsDelete it" "id_Name it = None" "a \<in> set (id_Aliases it)" for it a
    using that by (auto simp: aliasQuery_def)
  have known: "resolvedTo (w_tx w) its R targets (R1\<lparr>rr_seenNames := seen\<rparr>)"
    if checked: "cacheOK R1 (w_tx w)" "rr_seenNames R1 = rr_seenNames R"
        "list_all (\<lambda>it. typeTakes (w_tx w) (id_ResourceType it) (id_IsDelete it) \<and> (id_IsDelete it \<longrightarrow> id_Name it \<noteq> None)) its"
      and "resolved = (if ?q = [] then Map.empty else ResolveAliasesBatch ?q (w_tx w))"
      and "targetsOf its resolved = Inr targets" "rejectDuplicateReports (zip its targets) base (rr_seenNames R1) = Inr seen"
    for R1 resolved targets seen
  proof (rule resolvedToI)
    show "resolved a = ResolveAliasesBatch [a] (w_tx w) a"
      if "it \<in> set its" "id_Name it = None" "a \<in> set (id_Aliases it)" for it a
      using query [OF that(1) _ that(2,3)] checked(3) that \<open>resolved = _\<close> by (auto simp: list_all_iff ResolveAliasesBatch_def)
  qed (use that in \<open>auto simp: list_all_iff\<close>)
  have lookup: "steps w (if ?q = [] then ret Map.empty
        else wrap ''resolve aliases batch: '' (wrap ''resolve aliases batch: '' (reads (\<lambda>s. Inr (ResolveAliasesBatch ?q s)))))
      (\<lambda>r w'. w' = w \<and> r = (if ?q = [] then Map.empty else ResolveAliasesBatch ?q (w_tx w)))"
    by (cases "?q = []")
      (auto intro!: steps_ret steps_mono [OF steps_wrap [OF steps_wrap [OF steps_reads [of w "\<lambda>s. Inr (ResolveAliasesBatch ?q s)"]]]])
  show ?thesis unfolding resolveBatch_def if_not_P [OF False] Let_def
    by (rule steps_then_read [OF steps_checkTypes [OF assms]], rule steps_then_read [OF lookup])
      (auto split: sum.split intro!: steps_ret steps_throw known)
qed

section \<open>A batch of reports, chunk by chunk\<close>

text \<open>
  What the two batch operations of the service have in common. Handling a chunk reads the
  transaction and resolves every report to a command whose name was not seen before, then makes one
  write; the write has an exact effect per key, and effects compose.
\<close>

locale chunked_reports =
  fixes chunk :: "nat \<Rightarrow> 'r list \<Rightarrow> reportResolver \<Rightarrow> reportResolver io"
    and update :: "'c list \<Rightarrow> store \<Rightarrow> store result"
    and effect :: "'c list \<Rightarrow> natural_key \<Rightarrow> ExtensionResource option \<Rightarrow> ExtensionResource option"
    and full :: "'c \<Rightarrow> FullResourceName"
    and asReported :: "store \<Rightarrow> 'r \<Rightarrow> 'c \<Rightarrow> bool"
    and good :: "'c \<Rightarrow> bool"
  assumes chunk_steps: "cacheOK R (w_tx w) \<Longrightarrow>
      steps w (chunk start xs R) (\<lambda>R' w'. \<exists>cs s'. w' = w\<lparr>w_tx := s'\<rparr> \<and> update cs (w_tx w) = Inr s' \<and>
        list_all2 (asReported (w_tx w)) xs cs \<and> distinct (map full cs) \<and> full ` set cs \<inter> dom (rr_seenNames R) = {} \<and>
        dom (rr_seenNames R') = dom (rr_seenNames R) \<union> full ` set cs \<and> cacheOK R' (w_tx w))"
    and update_exact: "update cs s = Inr s' \<Longrightarrow> extOK s \<Longrightarrow> distinct (map full cs) \<Longrightarrow>
      extOK s' \<and> t_extTypes s' = t_extTypes s \<and> t_aliasClaims s' = t_aliasClaims s \<and>
      (\<forall>k. extRow k s' = effect cs k (extRow k s))"
    and effect_nil: "effect [] k p = p"
    and effect_append: "distinct (map full (cs @ ds)) \<Longrightarrow> list_all good (cs @ ds) \<Longrightarrow> effect (cs @ ds) k p = effect ds k (effect cs k p)"
    and reported_frame: "t_extTypes s' = t_extTypes s \<Longrightarrow> t_aliasClaims s' = t_aliasClaims s \<Longrightarrow> asReported s' r c = asReported s r c"
begin

text \<open>Where a batch stands after some of its reports.\<close>

definition batchAt :: "store \<Rightarrow> 'r list \<Rightarrow> 'c list \<Rightarrow> reportResolver \<Rightarrow> store \<Rightarrow> bool" where
  "batchAt s0 rs cs R s \<longleftrightarrow>
     extOK s \<and> t_extTypes s = t_extTypes s0 \<and> t_aliasClaims s = t_aliasClaims s0 \<and> cacheOK R s0 \<and>
     list_all2 (asReported s0) rs cs \<and> distinct (map full cs) \<and> dom (rr_seenNames R) = full ` set cs \<and>
     (list_all good cs \<longrightarrow> (\<forall>k. extRow k s = effect cs k (extRow k s0)))"

lemma batchAt_step:
  assumes "batchAt s0 rs cs R s" "update ds s = Inr s'" "list_all2 (asReported s) xs ds" "distinct (map full ds)"
    and "full ` set ds \<inter> dom (rr_seenNames R) = {}" "dom (rr_seenNames R') = dom (rr_seenNames R) \<union> full ` set ds" "cacheOK R' s"
  shows "batchAt s0 (rs @ xs) (cs @ ds) R' s'"
proof -
  have ex: "extOK s'" "t_extTypes s' = t_extTypes s" "t_aliasClaims s' = t_aliasClaims s" "\<forall>k. extRow k s' = effect ds k (extRow k s)"
    using update_exact [OF assms(2) _ assms(4)] assms(1) by (auto simp: batchAt_def)
  have dist: "distinct (map full (cs @ ds))" using assms by (auto simp: batchAt_def)
  have "extRow k s' = effect (cs @ ds) k (extRow k s0)" if "list_all good (cs @ ds)" for k
    using that ex(4) assms(1) effect_append [OF dist that] by (simp add: batchAt_def del: split_paired_All)
  moreover have "cacheOK R' s0" using assms(1,7) by (simp add: cacheOK_def extGetType_def batchAt_def)
  moreover have "list_all2 (asReported s0) xs ds"
    using assms(3) reported_frame [of s s0] assms(1) by (simp add: batchAt_def list_all2_conv_all_nth)
  ultimately show ?thesis using assms(1,6) ex(1,2,3) dist by (auto simp: batchAt_def list_all2_appendI)
qed

lemma eachChunk_batch:
  assumes "batchAt s0 rs cs R (w_tx w)" "n \<noteq> 0"
  shows "triple (at w) (eachChunk n start xs chunk R)
    (\<lambda>R' v. \<exists>cs'. batchAt s0 (rs @ xs) cs' R' (w_tx v) \<and> w_db v = w_db w) (\<lambda>_ v. w_db v = w_db w)"
  using assms
proof (induction "length xs" arbitrary: xs start R rs cs w rule: less_induct)
  case less
  show ?case
  proof (cases "xs = []")
    case True
    with less.prems show ?thesis by (subst eachChunk.simps) (auto intro!: triple_ret simp: at_def)
  next
    case False
    have cache: "cacheOK R (w_tx w)" using less.prems(1) by (simp add: batchAt_def cacheOK_def extGetType_def)
    have rest: "triple (at w') (eachChunk n (start + n) (drop n xs) chunk R')
        (\<lambda>R' v. \<exists>cs'. batchAt s0 (rs @ xs) cs' R' (w_tx v) \<and> w_db v = w_db w) (\<lambda>_ v. w_db v = w_db w)"
      if "\<exists>ds s'. w' = w\<lparr>w_tx := s'\<rparr> \<and> update ds (w_tx w) = Inr s' \<and> list_all2 (asReported (w_tx w)) (take n xs) ds \<and>
        distinct (map full ds) \<and> full ` set ds \<inter> dom (rr_seenNames R) = {} \<and>
        dom (rr_seenNames R') = dom (rr_seenNames R) \<union> full ` set ds \<and> cacheOK R' (w_tx w)" for R' w'
    proof -
      from that obtain ds s' where w': "w' = w\<lparr>w_tx := s'\<rparr>" and ds: "update ds (w_tx w) = Inr s'"
        "list_all2 (asReported (w_tx w)) (take n xs) ds" "distinct (map full ds)" "full ` set ds \<inter> dom (rr_seenNames R) = {}"
        "dom (rr_seenNames R') = dom (rr_seenNames R) \<union> full ` set ds" "cacheOK R' (w_tx w)" by blast
      have "batchAt s0 (rs @ take n xs) (cs @ ds) R' (w_tx w')" using batchAt_step [OF less.prems(1) ds] by (simp add: w')
      from less.hyps [OF _ this less.prems(2), of "drop n xs"] False less.prems(2) show ?thesis by (simp add: w')
    qed
    show ?thesis
      by (subst eachChunk.simps, subst if_not_P, use False less.prems(2) in simp)
        (rule then_steps [OF chunk_steps [OF cache] rest], auto simp: at_def)
  qed
qed

text \<open>The whole batch, whatever the size of the chunks.\<close>

lemma forEach_batch:
  assumes "extOK (w_tx w)" "xs \<noteq> []"
  shows "triple (at w) (forEachReportChunk n xs chunk newReportResolver)
    (\<lambda>R' v. \<exists>cs. batchAt (w_tx w) xs cs R' (w_tx v) \<and> w_db v = w_db w) (\<lambda>_ v. w_db v = w_db w)"
proof -
  have "batchAt (w_tx w) [] [] newReportResolver (w_tx w)"
    using assms(1) by (simp add: batchAt_def newReportResolver_def cacheOK_def effect_nil)
  from eachChunk_batch [OF this, where xs = xs] assms(2) show ?thesis by (simp add: forEachReportChunk_def)
qed

end

section \<open>The two batch operations\<close>

definition replacementReported :: "go_time \<Rightarrow> store \<Rightarrow> InventoryReplacementInput \<Rightarrow> InventoryReplacement \<Rightarrow> bool" where
  "replacementReported now s r rep \<longleftrightarrow>
     rep = replacementOf now r (ir_Name rep) (ir_CandidateUID rep) \<and> targetOf s (replacementIdentity r) (ir_Name rep)"

definition deltaReported :: "go_time \<Rightarrow> store \<Rightarrow> InventoryDeltaInput \<Rightarrow> InventoryDelta \<Rightarrow> bool" where
  "deltaReported now s r d \<longleftrightarrow> d = deltaOf now r (dl_Name d) (dl_CandidateUID d) \<and> targetOf s (deltaIdentity r) (dl_Name d)"

definition appliedAt :: "InventoryDelta list \<Rightarrow> natural_key \<Rightarrow> ExtensionResource option \<Rightarrow> ExtensionResource option" where
  "appliedAt ds k prev = (case getRow deltaKey k ds of None \<Rightarrow> prev | Some d \<Rightarrow> Some (applied d prev))"

lemma replacementOf_fields [simp]:
  "ir_Name (replacementOf now r name uid) = name" "ir_ResourceType (replacementOf now r name uid) = rp_ResourceType r"
  "replacementOf now r name (ir_CandidateUID (replacementOf now r name uid)) = replacementOf now r name uid"
  by (simp_all add: replacementOf_def)

lemma deltaOf_fields [simp]:
  "dl_Name (deltaOf now r name uid) = name" "dl_ResourceType (deltaOf now r name uid) = rd_ResourceType r"
  "dl_CandidateUID (deltaOf now r name uid) = uid"
  by (simp_all add: deltaOf_def)

lemma steps_replacementsFor:
  "steps w (replacementsFor now ps) (\<lambda>reps w'. w' = w \<and>
     list_all2 (\<lambda>p rep. \<exists>uid. rep = replacementOf now (fst p) (snd p) uid) ps reps)"
proof (induction now ps rule: replacementsFor.induct)
  case (1 now)
  then show ?case by (auto intro: steps_ret)
next
  case (2 now r name ps)
  have uid: "steps w (if rp_IsDelete r then ret zeroUID else newUUID) (\<lambda>_ w'. w' = w \<and> True)"
    using steps_newUUID [of w] by (auto intro: steps_ret)
  show ?case unfolding replacementsFor.simps
    by (rule steps_then_read [OF uid], rule steps_then_read [OF 2]) (auto intro!: steps_ret)
qed

lemma steps_deltasFor:
  "steps w (deltasFor now ps) (\<lambda>ds w'. w' = w \<and> list_all2 (\<lambda>p d. \<exists>uid. d = deltaOf now (fst p) (snd p) uid) ps ds)"
proof (induction now ps rule: deltasFor.induct)
  case (1 now)
  then show ?case by (auto intro: steps_ret)
next
  case (2 now r name ps)
  have uid: "steps w newUUID (\<lambda>_ w'. w' = w \<and> True)" using steps_newUUID [of w] by simp
  show ?case unfolding deltasFor.simps
    by (rule steps_then_read [OF uid], rule steps_then_read [OF 2]) (auto intro!: steps_ret)
qed

lemma steps_write_ret:
  "steps w (andThen (wrap p (writes u)) (\<lambda>_. ret R)) (\<lambda>R' w'. R' = R \<and> (\<exists>s'. u (w_tx w) = Inr s' \<and> w' = w\<lparr>w_tx := s'\<rparr>))"
  unfolding steps_def
  by (rule then_steps [OF steps_wrap [OF steps_writes]]) (auto intro!: triple_ret)

text \<open>The commands of a chunk have the names of the resolved reports.\<close>

lemma commands_named:
  assumes "list_all2 P its targets" "list_all2 (\<lambda>p c. \<exists>uid. c = mk (fst p) (snd p) uid) (zip xs targets) cs" "its = map identity xs"
    and "\<And>x n uid. full (mk x n uid) = pairName (identity x, n)"
  shows "map full cs = map pairName (zip its targets)"
    and "full ` set cs = pairName ` set (zip its targets)"
    and "list_all2 (\<lambda>x c. \<exists>n uid. c = mk x n uid \<and> P (identity x) n) xs cs"
proof -
  have len: "length xs = length targets" using list_all2_lengthD [OF assms(1)] by (simp add: assms(3))
  then have "length cs = length xs" using list_all2_lengthD [OF assms(2)] by simp
  note len = len this
  have nth: "\<exists>uid. cs ! i = mk (xs ! i) (targets ! i) uid" if "i < length xs" for i
    using assms(2) that len by (auto simp: list_all2_conv_all_nth)
  show names: "map full cs = map pairName (zip its targets)"
  proof (rule nth_equalityI)
    show "map full cs ! i = map pairName (zip its targets) ! i" if "i < length (map full cs)" for i
      using that len nth [of i] assms(4) by (auto simp: assms(3))
  qed (use len in \<open>simp add: assms(3)\<close>)
  then show "full ` set cs = pairName ` set (zip its targets)" by (metis set_map)
  show "list_all2 (\<lambda>x c. \<exists>n uid. c = mk x n uid \<and> P (identity x) n) xs cs"
    using len nth assms(1) unfolding list_all2_conv_all_nth assms(3) by (auto, blast)
qed

lemma steps_replaceChunk:
  assumes "cacheOK R (w_tx w)"
  shows "steps w (replaceChunk now start xs R) (\<lambda>R' w'. \<exists>cs s'. w' = w\<lparr>w_tx := s'\<rparr> \<and> ReplaceInventory cs (w_tx w) = Inr s' \<and>
      list_all2 (replacementReported now (w_tx w)) xs cs \<and> distinct (map replacementFullName cs) \<and>
      replacementFullName ` set cs \<inter> dom (rr_seenNames R) = {} \<and>
      dom (rr_seenNames R') = dom (rr_seenNames R) \<union> replacementFullName ` set cs \<and> cacheOK R' (w_tx w))"
    (is "steps w _ ?S")
proof -
  have finish: "steps w (andThen (wrap ''replace inventory: '' (writes (ReplaceInventory reps))) (\<lambda>_. ret R')) ?S"
    if res: "resolvedTo (w_tx w) (map replacementIdentity xs) R targets R'"
      and reps: "list_all2 (\<lambda>p rep. \<exists>uid. rep = replacementOf now (fst p) (snd p) uid) (zip xs targets) reps" for targets R' reps
  proof -
    have full: "replacementFullName (replacementOf now x n uid) = pairName (replacementIdentity x, n)" for x n uid
      by (simp add: replacementFullName_def pairName_def replacementIdentity_def)
    note named = commands_named [OF res [unfolded resolvedTo_def, THEN conjunct1] reps refl full]
    have reported: "list_all2 (replacementReported now (w_tx w)) xs reps"
      using named(3) by (rule list_all2_mono) (auto simp: replacementReported_def)
    have seen: "distinct (map replacementFullName reps)" "replacementFullName ` set reps \<inter> dom (rr_seenNames R) = {}"
        "dom (rr_seenNames R') = dom (rr_seenNames R) \<union> replacementFullName ` set reps" "cacheOK R' (w_tx w)"
      using res unfolding resolvedTo_def named(1,2) by blast+
    show ?thesis
      by (rule steps_mono [OF steps_write_ret]) (use reported seen in blast)
  qed
  show ?thesis unfolding replaceChunk_def
    by (rule steps_then_read [OF steps_resolveBatch [OF assms]], unfold case_prod_beta,
        rule steps_then_read [OF steps_replacementsFor], rule finish)
qed

lemma steps_deltaChunk:
  assumes "cacheOK R (w_tx w)"
  shows "steps w (deltaChunk now start xs R) (\<lambda>R' w'. \<exists>cs s'. w' = w\<lparr>w_tx := s'\<rparr> \<and> ApplyInventoryDeltas cs (w_tx w) = Inr s' \<and>
      list_all2 (deltaReported now (w_tx w)) xs cs \<and> distinct (map deltaFullName cs) \<and>
      deltaFullName ` set cs \<inter> dom (rr_seenNames R) = {} \<and>
      dom (rr_seenNames R') = dom (rr_seenNames R) \<union> deltaFullName ` set cs \<and> cacheOK R' (w_tx w))"
    (is "steps w _ ?S")
proof -
  have finish: "steps w (andThen (wrap ''apply inventory deltas: '' (writes (ApplyInventoryDeltas ds))) (\<lambda>_. ret R')) ?S"
    if res: "resolvedTo (w_tx w) (map deltaIdentity xs) R targets R'"
      and ds: "list_all2 (\<lambda>p d. \<exists>uid. d = deltaOf now (fst p) (snd p) uid) (zip xs targets) ds" for targets R' ds
  proof -
    have full: "deltaFullName (deltaOf now x n uid) = pairName (deltaIdentity x, n)" for x n uid
      by (simp add: deltaFullName_def pairName_def deltaIdentity_def)
    note named = commands_named [OF res [unfolded resolvedTo_def, THEN conjunct1] ds refl full]
    have reported: "list_all2 (deltaReported now (w_tx w)) xs ds"
      using named(3) by (rule list_all2_mono) (auto simp: deltaReported_def)
    have seen: "distinct (map deltaFullName ds)" "deltaFullName ` set ds \<inter> dom (rr_seenNames R) = {}"
        "dom (rr_seenNames R') = dom (rr_seenNames R) \<union> deltaFullName ` set ds" "cacheOK R' (w_tx w)"
      using res unfolding resolvedTo_def named(1,2) by blast+
    show ?thesis
      by (rule steps_mono [OF steps_write_ret]) (use reported seen in blast)
  qed
  show ?thesis unfolding deltaChunk_def
    by (rule steps_then_read [OF steps_resolveBatch [OF assms]], unfold case_prod_beta,
        rule steps_then_read [OF steps_deltasFor], rule finish)
qed

lemma targetOf_frame:
  assumes "t_extTypes s' = t_extTypes s" "t_aliasClaims s' = t_aliasClaims s"
  shows "targetOf s' it n = targetOf s it n"
proof -
  have "agreedName s' as m = agreedName s as m" for as m
    using assms(2) by (simp add: agreedName_def ResolveAliasesBatch_def)
  moreover have "typeTakes s' rt del = typeTakes s rt del" for rt del using assms(1) by (simp add: typeTakes_def extGetType_def)
  ultimately show ?thesis by (simp add: targetOf_def split: option.split)
qed

lemma appliedAt_append:
  assumes "distinct (map deltaFullName (ds @ es))" "list_all (\<lambda>d. canonicalName (dl_Name d)) (ds @ es)"
  shows "appliedAt (ds @ es) k prev = appliedAt es k (appliedAt ds k prev)"
proof -
  have "deltaFullName x = deltaFullName y" if "x \<in> set (ds @ es)" "y \<in> set (ds @ es)" "deltaKey x = deltaKey y" for x y
  proof -
    from assms(2) that have "canonicalName (dl_Name x)" "canonicalName (dl_Name y)" by (auto simp: list_all_iff)
    with that(3) have "dl_Name x = dl_Name y" by (simp add: canonicalName_def deltaKey_def keyOf_def)
    with that(3) show ?thesis by (simp add: deltaFullName_def deltaKey_def keyOf_def rtFullName_def)
  qed
  then have "distinct (map deltaKey (ds @ es))" using assms(1) unfolding distinct_map by (blast intro: inj_onI dest: inj_onD)
  then have "getRow deltaKey k es = None" if "getRow deltaKey k ds = Some d" for d
    using that by (auto simp: getRow_None dest!: getRow_Some)
  then show ?thesis by (auto simp: appliedAt_def getRow_append split: option.split)
qed

interpretation replace_batch: chunked_reports "replaceChunk now" ReplaceInventory replacedAt replacementFullName
  "replacementReported now" "\<lambda>rep. canonicalName (ir_Name rep)" for now
proof
  show "cacheOK R (w_tx w) \<Longrightarrow> steps w (replaceChunk now start xs R) (\<lambda>R' w'. \<exists>cs s'. w' = w\<lparr>w_tx := s'\<rparr> \<and>
      ReplaceInventory cs (w_tx w) = Inr s' \<and> list_all2 (replacementReported now (w_tx w)) xs cs \<and>
      distinct (map replacementFullName cs) \<and> replacementFullName ` set cs \<inter> dom (rr_seenNames R) = {} \<and>
      dom (rr_seenNames R') = dom (rr_seenNames R) \<union> replacementFullName ` set cs \<and> cacheOK R' (w_tx w))" for R w start xs
    by (rule steps_replaceChunk)
  show "extOK s' \<and> t_extTypes s' = t_extTypes s \<and> t_aliasClaims s' = t_aliasClaims s \<and> (\<forall>k. extRow k s' = replacedAt cs k (extRow k s))"
    if "ReplaceInventory cs s = Inr s'" "extOK s" for cs s s'
    using ReplaceInventory_exact [OF that] by auto
  show "replacedAt (cs @ ds) k p = replacedAt ds k (replacedAt cs k p)"
    if "distinct (map replacementFullName (cs @ ds))" "list_all (\<lambda>rep. canonicalName (ir_Name rep)) (cs @ ds)" for cs ds k p
    by (rule replacedAt_append [OF canonical_keys [OF that(2,1)]])
  show "replacementReported now s' r c = replacementReported now s r c"
    if "t_extTypes s' = t_extTypes s" "t_aliasClaims s' = t_aliasClaims s" for s s' r c
    by (simp add: replacementReported_def targetOf_frame [OF that])
qed (simp add: replacedAt_def)

interpretation delta_batch: chunked_reports "deltaChunk now" ApplyInventoryDeltas appliedAt deltaFullName
  "deltaReported now" "\<lambda>d. canonicalName (dl_Name d)" for now
proof
  show "cacheOK R (w_tx w) \<Longrightarrow> steps w (deltaChunk now start xs R) (\<lambda>R' w'. \<exists>cs s'. w' = w\<lparr>w_tx := s'\<rparr> \<and>
      ApplyInventoryDeltas cs (w_tx w) = Inr s' \<and> list_all2 (deltaReported now (w_tx w)) xs cs \<and>
      distinct (map deltaFullName cs) \<and> deltaFullName ` set cs \<inter> dom (rr_seenNames R) = {} \<and>
      dom (rr_seenNames R') = dom (rr_seenNames R) \<union> deltaFullName ` set cs \<and> cacheOK R' (w_tx w))" for R w start xs
    by (rule steps_deltaChunk)
  show "extOK s' \<and> t_extTypes s' = t_extTypes s \<and> t_aliasClaims s' = t_aliasClaims s \<and> (\<forall>k. extRow k s' = appliedAt cs k (extRow k s))"
    if "ApplyInventoryDeltas cs s = Inr s'" "extOK s" "distinct (map deltaFullName cs)" for cs s s'
    using ApplyInventoryDeltas_exact [OF that] by (auto simp: appliedAt_def)
  show "deltaReported now s' r c = deltaReported now s r c"
    if "t_extTypes s' = t_extTypes s" "t_aliasClaims s' = t_aliasClaims s" for s s' r c
    by (simp add: deltaReported_def targetOf_frame [OF that])
qed (simp_all add: appliedAt_def appliedAt_append [unfolded appliedAt_def])

text \<open>A loop over the chunks between a begin and a commit.\<close>

lemma committed_batch:
  assumes "triple (at (begun w)) m (\<lambda>R v. \<exists>cs. P cs R (w_tx v) \<and> w_db v = dbAtBegin w) (\<lambda>_ v. w_db v = dbAtBegin w)"
  shows "triple (at w) (andThen Begin (\<lambda>_. andThen m (\<lambda>_. Commit)))
    (\<lambda>_ v. \<exists>cs R. P cs R (w_db v)) (\<lambda>_ v. w_db v \<in> {w_db w, dbAtBegin w})"
proof (rule then_steps [OF steps_Begin], clarify)
  show "triple (at (begun w)) (andThen m (\<lambda>_. Commit)) (\<lambda>_ v. \<exists>cs R. P cs R (w_db v)) (\<lambda>_ v. w_db v \<in> {w_db w, dbAtBegin w})"
  proof (rule triple_andThen)
    show "triple (at (begun w)) m (\<lambda>R v. \<exists>w'. ((\<exists>cs. P cs R (w_tx w')) \<and> w_db w' = dbAtBegin w) \<and> at w' v)
        (\<lambda>_ v. w_db v \<in> {w_db w, dbAtBegin w})"
      by (rule triple_weaken [OF assms]) (auto intro: at_refl)
    show "triple (\<lambda>v. \<exists>w'. ((\<exists>cs. P cs R (w_tx w')) \<and> w_db w' = dbAtBegin w) \<and> at w' v) Commit
        (\<lambda>_ v. \<exists>cs R. P cs R (w_db v)) (\<lambda>_ v. w_db v \<in> {w_db w, dbAtBegin w})" for R
      by (rule triple_at_some, rule last_steps [OF steps_Commit]) (auto simp: at_def)
  qed
qed (auto simp: at_def)

text \<open>
  C17: a batch of replacements is all or nothing. Either the service commits nothing of its own, or
  there is one command for every report, with the reported state and a name that is the reported one
  or the one all resolvable aliases agree on; every type takes the report, a delete only if the type
  is not managed; no resource is named twice in the batch, whatever the chunks; and, for names made
  of a collection and an identifier, the committed store holds exactly the effect of these commands
  on what was there when the transaction began.
\<close>

theorem replace_batch_all_or_nothing:
  assumes "extOK (dbAtBegin w)"
  shows "case ReplaceBatch n now reports w of
      (Inl e, w') \<Rightarrow> w_db w' \<in> {w_db w, dbAtBegin w}
    | (Inr _, w') \<Rightarrow>
        (if reports = [] then w_db w' = w_db w
         else extOK (w_db w') \<and>
           (\<exists>reps. list_all2 (replacementReported now (dbAtBegin w)) reports reps \<and> distinct (map replacementFullName reps) \<and>
              (if list_all (\<lambda>rep. canonicalName (ir_Name rep)) reps
               then \<forall>k. extRow k (w_db w') = replacedAt reps k (extRow k (dbAtBegin w)) else True)))"
proof -
  have run: "triple (at w) (andThen Begin (\<lambda>_. andThen (forEachReportChunk n reports (replaceChunk now) newReportResolver) (\<lambda>_. Commit)))
      (\<lambda>_ v. \<exists>reps R. replace_batch.batchAt now (dbAtBegin w) reports reps R (w_db v)) (\<lambda>_ v. w_db v \<in> {w_db w, dbAtBegin w})"
    if "reports \<noteq> []"
    using replace_batch.forEach_batch [of "begun w" reports n now] assms that by (intro committed_batch) simp_all
  show ?thesis
  proof (cases "reports = []")
    case False
    then have "triple (at w) (ReplaceBatch n now reports)
        (\<lambda>_ v. \<exists>reps R. replace_batch.batchAt now (dbAtBegin w) reports reps R (w_db v)) (\<lambda>_ v. w_db v \<in> {w_db w, dbAtBegin w})"
      unfolding ReplaceBatch_def if_not_P [OF False] by (intro triple_option run at_throw) (auto simp: at_def)
    from tripleD_Inr [OF this at_refl] tripleD_Inl [OF this at_refl] False show ?thesis
      by (fastforce simp: replace_batch.batchAt_def simp del: split_paired_All split: prod.split sum.split)
  qed (simp add: ReplaceBatch_def ret_def)
qed

text \<open>
  A batch of deltas is all or nothing, in the same way: nothing is committed, or there is one
  delta for every report, no resource is named twice, and every row is the old one with its delta
  applied.
\<close>

theorem delta_batch_all_or_nothing:
  assumes "extOK (dbAtBegin w)"
  shows "case ApplyDeltaBatch n now reports w of
      (Inl e, w') \<Rightarrow> w_db w' \<in> {w_db w, dbAtBegin w}
    | (Inr _, w') \<Rightarrow>
        (if reports = [] then w_db w' = w_db w
         else extOK (w_db w') \<and>
           (\<exists>ds. list_all2 (deltaReported now (dbAtBegin w)) reports ds \<and> distinct (map deltaFullName ds) \<and>
              (if list_all (\<lambda>d. canonicalName (dl_Name d)) ds
               then \<forall>k. extRow k (w_db w') = appliedAt ds k (extRow k (dbAtBegin w)) else True)))"
proof -
  have run: "triple (at w) (andThen Begin (\<lambda>_. andThen (forEachReportChunk n reports (deltaChunk now) newReportResolver) (\<lambda>_. Commit)))
      (\<lambda>_ v. \<exists>ds R. delta_batch.batchAt now (dbAtBegin w) reports ds R (w_db v)) (\<lambda>_ v. w_db v \<in> {w_db w, dbAtBegin w})"
    if "reports \<noteq> []"
    using delta_batch.forEach_batch [of "begun w" reports n now] assms that by (intro committed_batch) simp_all
  show ?thesis
  proof (cases "reports = []")
    case False
    then have "triple (at w) (ApplyDeltaBatch n now reports)
        (\<lambda>_ v. \<exists>ds R. delta_batch.batchAt now (dbAtBegin w) reports ds R (w_db v)) (\<lambda>_ v. w_db v \<in> {w_db w, dbAtBegin w})"
      unfolding ApplyDeltaBatch_def if_not_P [OF False] by (intro triple_option run at_throw) (auto simp: at_def)
    from tripleD_Inr [OF this at_refl] tripleD_Inl [OF this at_refl] False show ?thesis
      by (fastforce simp: delta_batch.batchAt_def simp del: split_paired_All split: prod.split sum.split)
  qed (simp add: ApplyDeltaBatch_def ret_def)
qed

definition podInput :: InventoryReplacementInput where
  "podInput =
     \<lparr>rp_ResourceType = ''k8s.io/Pod'', rp_Name = Some ''pods/a'', rp_Aliases = [], rp_IsDelete = False, rp_Labels = fmempty,
      rp_Observation = None, rp_Conditions = [], rp_ObservedAt = 1\<rparr>"

definition podDeltaInput :: InventoryDeltaInput where
  "podDeltaInput =
     \<lparr>rd_ResourceType = ''k8s.io/Pod'', rd_Name = Some ''pods/a'', rd_UpsertAliases = [], rd_DeleteAliases = [], rd_ReplaceAliases = [],
      rd_ReplaceLabels = None, rd_UpsertLabels = fmempty, rd_DeleteLabels = [], rd_Observation = None, rd_ReplaceConditions = None,
      rd_UpsertConditions = [], rd_DeleteConditions = [], rd_ObservedAt = 1\<rparr>"

lemma calm_pod: "dbAtBegin (calmWorld podStore) = podStore" "w_db (calmWorld podStore) = podStore"
  by (simp_all add: calmWorld_def dbAtBegin_def)

lemma podBatches_run:
  "\<not> isl (fst (ReplaceBatch 1 2 [podInput] (calmWorld podStore)))"
  "\<not> isl (fst (ApplyDeltaBatch 1 2 [podDeltaInput] (calmWorld podStore)))"
  by code_simp+

lemma succeeded: "\<not> isl (fst p) \<Longrightarrow> \<exists>w'. p = (Inr (), w')"
  by (cases p, cases "fst p") auto

theorem replace_batch_all_or_nothing_witness:
  "\<exists>w'. ReplaceBatch 1 2 [podInput] (calmWorld podStore) = (Inr (), w') \<and> extOK (w_db w') \<and>
     (\<exists>reps. list_all2 (replacementReported 2 podStore) [podInput] reps \<and> distinct (map replacementFullName reps))"
proof -
  obtain w' where run: "ReplaceBatch 1 2 [podInput] (calmWorld podStore) = (Inr (), w')"
    using succeeded [OF podBatches_run(1)] by blast
  with replace_batch_all_or_nothing [where w = "calmWorld podStore" and n = 1 and now = 2 and reports = "[podInput]"] podStore_ok show ?thesis by (auto simp: calm_pod)
qed

theorem delta_batch_all_or_nothing_witness:
  "\<exists>w'. ApplyDeltaBatch 1 2 [podDeltaInput] (calmWorld podStore) = (Inr (), w') \<and> extOK (w_db w') \<and>
     (\<exists>ds. list_all2 (deltaReported 2 podStore) [podDeltaInput] ds \<and> distinct (map deltaFullName ds))"
proof -
  obtain w' where run: "ApplyDeltaBatch 1 2 [podDeltaInput] (calmWorld podStore) = (Inr (), w')"
    using succeeded [OF podBatches_run(2)] by blast
  with delta_batch_all_or_nothing [where w = "calmWorld podStore" and n = 1 and now = 2 and reports = "[podDeltaInput]"] podStore_ok show ?thesis by (auto simp: calm_pod)
qed

section \<open>A delete report under another type of the service\<close>

text \<open>
  The policy that whole-resource deletes are for types without management metadata is checked on the
  reported type, but the row is found by service and name. A report under an inventory-only type
  therefore removes a managed resource of another type of the same service, with its intents, and
  leaves its fulfillment behind.
\<close>

definition clusterType :: ExtensionResourceType where
  "clusterType = podType\<lparr>et_resourceType := ''k8s.io/Cluster'', et_management := Some
     \<lparr>mt_relation = OfSelfTarget \<lparr>rs_addonTarget = ''t'', rs_manifestType = ''m''\<rparr>, mt_signature = \<lparr>sg_Signer = \<lparr>fi_Subject = [], fi_Issuer = []\<rparr>, sg_ContentHash = [], sg_SignatureBytes = []\<rparr>\<rparr>\<rparr>"

definition managedRow :: ExtensionResource where
  "managedRow = \<lparr>er_uid = ''u0'', er_resourceType = ''k8s.io/Cluster'', er_name = ''pods/a'', er_labels = fmempty,
     er_managed = Some \<lparr>mgd_currentVersion = 1, mgd_fulfillmentID = ''f''\<rparr>, er_inventory = None, er_reportedAliases = [],
     er_createdAt = 0, er_updatedAt = 0, er_pendingIntents = []\<rparr>"

definition mixedStore :: store where
  "mixedStore = emptyStore\<lparr>t_extTypes := [podType, clusterType], t_extResources := [managedRow],
     t_fulfillments := [storedFulfillment 0 (NewFulfillment ''f'' zeroAuth None None 0)]\<rparr>"

lemma managed_resource_deleted_by_report:
  "extRow (''k8s.io'', ''pods'', ''a'') mixedStore = Some managedRow"
  "\<not> isl (fst (ReplaceBatch 1 2 [podInput\<lparr>rp_IsDelete := True, rp_ObservedAt := 0\<rparr>] (calmWorld mixedStore)))"
  "t_extResources (w_db (snd (ReplaceBatch 1 2 [podInput\<lparr>rp_IsDelete := True, rp_ObservedAt := 0\<rparr>] (calmWorld mixedStore)))) = []"
  "\<not> isl (fulfillmentsGet ''f'' (w_db (snd (ReplaceBatch 1 2 [podInput\<lparr>rp_IsDelete := True, rp_ObservedAt := 0\<rparr>] (calmWorld mixedStore)))))"
  by code_simp+

end
