(* ===== verification/FS_Registration.thy ===== *)
theory FS_Registration
  imports FS_Workflows
begin

text \<open>
  Registration of targets: the registrar (\<^verbatim>\<open>domain/target_registrar.go\<close>), which writes a
  target together with an inventory item, and the service in front of it
  (\<^verbatim>\<open>application/target_service.go\<close>). Nil and empty maps are not told apart.
\<close>

section \<open>The registrar\<close>

definition normalized :: "TargetInfo \<Rightarrow> TargetInfo" where
  "normalized t =
     NewTargetInfo (ti_id t) (ti_targetType t) (ti_name t) (ti_state t) (ti_labels t) (ti_properties t) (ti_acceptedManifestTypes t)"

definition targetItem :: "go_time \<Rightarrow> TargetInfo \<Rightarrow> InventoryItem" where
  "targetItem now t =
     NewInventoryItem (ti_inventoryItemID t) (ti_targetType t) (ti_name t) (encodeStringMap (ti_properties t)) (ti_labels t) None now"

definition registrarRegister :: "go_time \<Rightarrow> TargetInfo \<Rightarrow> unit io" where
  "registrarRegister now target =
     (if ti_id target = '''' then throw (invalidArgument ''target ID is required'')
      else if ti_name target = '''' then throw (invalidArgument ''target name is required'')
      else
        (let t = normalized target
         in andThen (wrap ''create inventory item for target: '' (writes (inventoryCreate (targetItem now t)))) (\<lambda>_.
            writes (targetsCreate t))))"

section \<open>The target service\<close>

definition targetServiceRegister :: "go_time \<Rightarrow> TargetInfo \<Rightarrow> unit io" where
  "targetServiceRegister now target = andThen Begin (\<lambda>_. andThen (registrarRegister now target) (\<lambda>_. Commit))"

definition targetServiceGet :: "TargetID \<Rightarrow> TargetInfo io" where
  "targetServiceGet i =
     andThen (beginTx ''begin tx: '') (\<lambda>_.
     andThen (reads (targetsGet i)) (\<lambda>t.
     andThen EndReadOnly (\<lambda>_. ret t)))"

definition targetServiceList :: "TargetInfo list io" where
  "targetServiceList =
     andThen (beginTx ''begin tx: '') (\<lambda>_.
     andThen (reads (\<lambda>s. Inr (targetsList s))) (\<lambda>ts.
     andThen EndReadOnly (\<lambda>_. ret ts)))"

text \<open>A lookup of the verification: a missing row breaks the pair.\<close>

definition required :: "error \<Rightarrow> string \<Rightarrow> 'a io \<Rightarrow> 'a io" where
  "required missing p m =
     andThen (caught m) (\<lambda>r.
     case r of
       Inr x \<Rightarrow> ret x
     | Inl e \<Rightarrow> if errorsIs e ErrNotFound then throw missing else throw (Wrapped p e ''''))"

definition verifyTarget :: "TargetInfo \<Rightarrow> bool io" where
  "verifyTarget target =
     (let expected = normalized target
      in andThen (beginTx ''begin read tx for target verification: '') (\<lambda>_.
         andThen (required
             (invalidArgument (''target '' @ quote (ti_id target) @ '': registrar-derived inventory item exists but target row is missing''))
             ''get existing target for verification: '' (reads (targetsGet (ti_id target)))) (\<lambda>existing.
         andThen (required
             (invalidArgument (''target '' @ quote (ti_id target) @ '': target row exists but registrar-derived inventory item '' @
               quote (ti_inventoryItemID expected) @ '' is missing''))
             ''get inventory item for target verification: '' (reads (inventoryGet (ti_inventoryItemID expected)))) (\<lambda>_.
         case VerifyTargetMatch expected existing of
           Some e \<Rightarrow> throw e
         | None \<Rightarrow> andThen EndReadOnly (\<lambda>_. ret False)))))"

text \<open>\<open>True\<close> when the target was created, \<open>False\<close> when it was there and matches.\<close>

definition RegisterOrVerify :: "go_time \<Rightarrow> TargetInfo \<Rightarrow> bool io" where
  "RegisterOrVerify now target =
     andThen (caught (targetServiceRegister now target)) (\<lambda>r.
     case r of
       Inr _ \<Rightarrow> ret True
     | Inl e \<Rightarrow> if errorsIs e ErrAlreadyExists then verifyTarget target else throw e)"

definition Deregister :: "TargetID \<Rightarrow> unit io" where
  "Deregister i =
     andThen Begin (\<lambda>_.
     andThen (unlessNotFound (''delete target '' @ quote i @ '': '') (writes (targetsDelete i))) (\<lambda>_.
     andThen (unlessNotFound (''delete inventory item '' @ quote (''target:'' @ i) @ '': '') (writes (inventoryDelete (''target:'' @ i)))) (\<lambda>_.
     Commit)))"

section \<open>What registering commits\<close>

definition registered :: "go_time \<Rightarrow> TargetInfo \<Rightarrow> store \<Rightarrow> store \<Rightarrow> bool" where
  "registered now t s s' \<longleftrightarrow>
     ti_id t \<noteq> '''' \<and> ti_name t \<noteq> '''' \<and>
     (\<exists>s1. inventoryCreate (targetItem now (normalized t)) s = Inr s1 \<and> targetsCreate (normalized t) s1 = Inr s')"

lemma normalized_fields [simp]:
  "ti_id (normalized t) = ti_id t" "ti_name (normalized t) = ti_name t" "ti_state (normalized t) = ti_state t"
  "ti_inventoryItemID (normalized t) = ''target:'' @ ti_id t" "ii_id (targetItem now t) = ti_inventoryItemID t"
  by (simp_all add: normalized_def NewTargetInfo_def targetItem_def NewInventoryItem_def)

lemma then_throw: "(\<And>v. P v \<Longrightarrow> R e v) \<Longrightarrow> triple P (andThen (throw e) k) Q R"
  by (simp add: triple_def andThen_def throw_def)

lemma dbAtBegin_tx [simp]: "dbAtBegin (w\<lparr>w_tx := s\<rparr>) = dbAtBegin w"
  by (simp add: dbAtBegin_def split: list.split)

text \<open>The world after an attempt that committed nothing: at most one transaction was begun.\<close>

definition tried :: "world \<Rightarrow> world \<Rightarrow> bool" where
  "tried w v \<longleftrightarrow> (\<exists>u. (w_db u \<in> {w_db w, dbAtBegin w} \<and> dbAtBegin u \<in> {dbAtBegin w, dbAtBegin (begun w)}) \<and> at u v)"

lemma triedI: "at w v \<Longrightarrow> tried w v" "at (begun w) v \<Longrightarrow> tried w v" "at ((begun w)\<lparr>w_tx := s\<rparr>) v \<Longrightarrow> tried w v"
  unfolding tried_def by (rule exI, rule conjI [rotated], assumption, simp)+

lemma tried_db: "tried w v \<Longrightarrow> w_db v \<in> {w_db w, dbAtBegin w}"
  by (auto simp: tried_def at_def)

lemma Register_triple:
  "triple (at w) (targetServiceRegister now t) (\<lambda>_ v. registered now t (dbAtBegin w) (w_db v)) (\<lambda>_. tried w)"
  unfolding targetServiceRegister_def registrarRegister_def Let_def
  by (intro run_rules then_throw; (erule triedI)?; auto simp: registered_def at_def intro: triedI)

lemma steps_required: "steps w (required missing p (reads r)) (\<lambda>x w'. r (w_tx w) = Inr x \<and> w' = w)"
  unfolding steps_def
  by (rule tripleI)
    (auto simp: required_def reads_def infra_def andThen_def caught_def ret_def throw_def at_def split: option.splits sum.splits if_splits)

lemma verify_triple:
  "triple (at w) (verifyTarget t)
     (\<lambda>b v. \<not> b \<and> w_db v = dbAtBegin w \<and>
        (\<exists>old item. targetsGet (ti_id t) (w_db v) = Inr old \<and> inventoryGet (''target:'' @ ti_id t) (w_db v) = Inr item \<and>
           VerifyTargetMatch (normalized t) old = None))
     (\<lambda>_ v. w_db v \<in> {w_db w, dbAtBegin w})"
  unfolding verifyTarget_def Let_def
  by (intro then_steps [OF steps_beginTx] then_steps [OF steps_required] run_rules) (auto simp: at_def)

text \<open>The rows a successful registration writes.\<close>

lemma registered_rows:
  assumes "registered now t s s'"
  shows "targetsGet (ti_id t) s = notFound" "inventoryGet (''target:'' @ ti_id t) s = notFound"
    and "\<not> targetNameTaken t s"
    and "targetsGet j s' = (if j = ti_id t then Inr (storedTarget (normalized t)) else targetsGet j s)"
    and "inventoryGet k s' = (if k = ''target:'' @ ti_id t then Inr (storedItem None (targetItem now (normalized t))) else inventoryGet k s)"
    and "\<exists>ts items. s' = s\<lparr>t_targets := ts, t_inventory := items\<rparr>"
proof -
  let ?item = "targetItem now (normalized t)"
  from assms have no_item: "inventoryRow (''target:'' @ ti_id t) s = None" and no_row: "targetRow (ti_id t) s = None"
    and name: "\<not> targetNameTaken t s" and s': "s' = putTarget (normalized t) (inventoryCreateOrUpdate ?item s)"
    by (auto simp: registered_def inventoryCreate_def targetsCreate_def targetRow_def targetNameTaken_def inventoryCreateOrUpdate_def
        split: if_splits)
  show "targetsGet (ti_id t) s = notFound" "inventoryGet (''target:'' @ ti_id t) s = notFound" "\<not> targetNameTaken t s"
    using no_item no_row name by (simp_all add: targetsGet_def inventoryGet_def)
  have "targetRow i (inventoryCreateOrUpdate ?item s) = targetRow i s" for i
    by (simp add: targetRow_def inventoryCreateOrUpdate_def)
  then show "targetsGet j s' = (if j = ti_id t then Inr (storedTarget (normalized t)) else targetsGet j s)"
    by (simp add: targetsGet_def s' targets.get_put)
  have "inventoryRow i (putTarget x u) = inventoryRow i u" for i x u by (simp add: inventoryRow_def putTarget_def)
  then show "inventoryGet k s' = (if k = ''target:'' @ ti_id t then Inr (storedItem None ?item) else inventoryGet k s)"
    using no_item by (simp add: inventoryGet_def s' inventory.get_put)
  show "\<exists>ts items. s' = s\<lparr>t_targets := ts, t_inventory := items\<rparr>"
    unfolding s' putTarget_def inventoryCreateOrUpdate_def by (intro exI [where x = "t_targets s'"] exI [where x = "t_inventory s'"]) (simp add: s' putTarget_def inventoryCreateOrUpdate_def)
qed

text \<open>What an answer of \<open>RegisterOrVerify\<close> says about the store.\<close>

definition answered :: "go_time \<Rightarrow> TargetInfo \<Rightarrow> world \<Rightarrow> bool \<Rightarrow> world \<Rightarrow> bool" where
  "answered now t w fresh v \<longleftrightarrow>
     (if fresh then registered now t (dbAtBegin w) (w_db v)
      else w_db v \<in> {dbAtBegin w, dbAtBegin (begun w)} \<and>
        (\<exists>old item. targetsGet (ti_id t) (w_db v) = Inr old \<and> inventoryGet (''target:'' @ ti_id t) (w_db v) = Inr item \<and>
           VerifyTargetMatch (normalized t) old = None))"

lemma RegisterOrVerify_triple:
  "triple (at w) (RegisterOrVerify now t) (answered now t w) (\<lambda>_ v. w_db v \<in> {w_db w, dbAtBegin w, dbAtBegin (begun w)})"
  (is "triple _ _ ?ok ?bad")
proof -
  have verify: "triple (tried w) (verifyTarget t) ?ok ?bad"
    unfolding tried_def by (rule triple_at_some, rule verify_triple [THEN triple_weaken]) (auto simp: answered_def)
  show ?thesis
    unfolding RegisterOrVerify_def
  proof (rule triple_andThen)
    show "triple (at w) (caught (targetServiceRegister now t))
        (\<lambda>r. case r of Inr _ \<Rightarrow> (\<lambda>v. registered now t (dbAtBegin w) (w_db v)) | Inl _ \<Rightarrow> tried w) ?bad"
      by (rule triple_caught) (simp add: Register_triple)
    show "triple (case r of Inr _ \<Rightarrow> (\<lambda>v. registered now t (dbAtBegin w) (w_db v)) | Inl _ \<Rightarrow> tried w)
        (case r of Inr _ \<Rightarrow> ret True | Inl e \<Rightarrow> if errorsIs e ErrAlreadyExists then verifyTarget t else throw e) ?ok ?bad" for r
    proof (cases r)
      case (Inl e)
      have "triple (tried w) (throw e) ?ok ?bad" by (rule triple_throw) (auto dest: tried_db)
      with verify Inl show ?thesis by (cases "errorsIs e ErrAlreadyExists") simp_all
    qed (auto intro: triple_ret simp: answered_def)
  qed
qed

text \<open>
  C34: registering a target is exact. The call answers that it created the target only if neither the
  identifier nor the name nor the inventory item was taken, and then exactly these two rows have been
  added; it answers that the target was there only if both rows are in the store it leaves, the
  target matches the declaration and the store has not changed; and if it fails, it has committed
  nothing of its own.
\<close>

theorem register_or_verify_exact:
  "case RegisterOrVerify now t w of
     (Inr fresh, w') \<Rightarrow>
       (if fresh then
          targetsGet (ti_id t) (dbAtBegin w) = notFound \<and> \<not> targetNameTaken t (dbAtBegin w) \<and>
          inventoryGet (''target:'' @ ti_id t) (dbAtBegin w) = notFound \<and>
          (\<forall>j. targetsGet j (w_db w') = (if j = ti_id t then Inr (storedTarget (normalized t)) else targetsGet j (dbAtBegin w))) \<and>
          (\<forall>k. inventoryGet k (w_db w') =
             (if k = ''target:'' @ ti_id t then Inr (storedItem None (targetItem now (normalized t))) else inventoryGet k (dbAtBegin w))) \<and>
          (\<exists>ts items. w_db w' = (dbAtBegin w)\<lparr>t_targets := ts, t_inventory := items\<rparr>)
        else
          w_db w' \<in> {dbAtBegin w, dbAtBegin (begun w)} \<and>
          (\<exists>old item. targetsGet (ti_id t) (w_db w') = Inr old \<and> inventoryGet (''target:'' @ ti_id t) (w_db w') = Inr item \<and>
             VerifyTargetMatch (normalized t) old = None))
   | (Inl e, w') \<Rightarrow> w_db w' \<in> {w_db w, dbAtBegin w, dbAtBegin (begun w)}"
proof -
  note run = RegisterOrVerify_triple [of w now t]
  obtain r w' where res: "RegisterOrVerify now t w = (r, w')" by (cases "RegisterOrVerify now t w")
  show ?thesis
  proof (cases r)
    case (Inr b)
    note ok = tripleD_Inr [OF run at_refl res [unfolded Inr], unfolded answered_def]
    show ?thesis
    proof (cases b)
      case True
      with ok have reg: "registered now t (dbAtBegin w) (w_db w')" by simp
      show ?thesis unfolding res Inr prod.case sum.case if_P [OF True]
        by (intro conjI allI registered_rows [OF reg])
    qed (use ok in \<open>simp add: res Inr\<close>)
  next
    case (Inl e)
    from tripleD_Inl [OF run at_refl res [unfolded Inl]] show ?thesis by (simp add: res Inl)
  qed
qed

text \<open>
  The same declaration is accepted again exactly if it has a state: the repository stores
  \<^verbatim>\<open>ready\<close> for a target without one, and the verification takes that for drift.
\<close>

lemma redeclaration_needs_state:
  "VerifyTargetMatch (normalized t) (storedTarget (normalized t)) = None \<longleftrightarrow> ti_state t \<noteq> ''''"
  by (simp add: VerifyTargetMatch_def storedTarget_def Let_def target_snapshot_inverse normalized_def NewTargetInfo_def
      manifestTypesEqual_def mapsEqualOrBothEmpty_def TargetStateReady_def)

section \<open>Removing a target\<close>

definition deregistered :: "TargetID \<Rightarrow> store \<Rightarrow> store" where
  "deregistered i s = dropItem (''target:'' @ i) (dropTarget i s)"

lemma Deregister_triple:
  "triple (at w) (Deregister i) (\<lambda>_ v. w_db v = deregistered i (dbAtBegin w)) (\<lambda>_ v. w_db v \<in> {w_db w, dbAtBegin w})"
proof -
  have target: "s' = dropTarget i s" if "targetsDelete i s = Inr s' \<or> (\<exists>e. targetsDelete i s = Inl e) \<and> s' = s" for s s'
    using that drop_missing(1) [of i s] by (auto simp: targetsDelete_def split: if_splits)
  have item: "s' = dropItem k s" if "inventoryDelete k s = Inr s' \<or> (\<exists>e. inventoryDelete k s = Inl e) \<and> s' = s" for k s s'
    using that drop_missing(2) [of k s] by (auto simp: inventoryDelete_def split: if_splits)
  have first: "steps u (unlessNotFound p (writes (targetsDelete i))) (\<lambda>_ w'. w' = u\<lparr>w_tx := dropTarget i (w_tx u)\<rparr>)" for u p
    using steps_unlessNotFound [of u p "targetsDelete i"] unfolding steps_def
    by (rule triple_weaken) (use target in \<open>auto simp: world.surjective\<close>)
  have second: "steps u (unlessNotFound p (writes (inventoryDelete k))) (\<lambda>_ w'. w' = u\<lparr>w_tx := dropItem k (w_tx u)\<rparr>)" for u p k
    using steps_unlessNotFound [of u p "inventoryDelete k"] unfolding steps_def
    by (rule triple_weaken) (use item in \<open>auto simp: world.surjective\<close>)
  show ?thesis unfolding Deregister_def
    by (intro then_steps [OF steps_Begin] then_steps [OF first] then_steps [OF second] last_steps [OF steps_Commit])
      (auto simp: at_def deregistered_def)
qed

lemma get_deregistered:
  "targetsGet j (deregistered i s) = (if j = i then notFound else targetsGet j s)"
  "inventoryGet k (deregistered i s) = (if k = ''target:'' @ i then notFound else inventoryGet k s)"
proof -
  have frame: "targetRow i (dropItem k u) = targetRow i u" "inventoryRow k (dropTarget i u) = inventoryRow k u" for i k u
    by (simp_all add: targetRow_def inventoryRow_def dropItem_def dropTarget_def)
  show "targetsGet j (deregistered i s) = (if j = i then notFound else targetsGet j s)"
    "inventoryGet k (deregistered i s) = (if k = ''target:'' @ i then notFound else inventoryGet k s)"
    by (simp_all add: deregistered_def targetsGet_def inventoryGet_def frame targets.get_del inventory.get_del)
qed

lemma deregister_registered:
  assumes "registered now t s s'"
  shows "targetsGet j (deregistered (ti_id t) s') = targetsGet j s" "inventoryGet k (deregistered (ti_id t) s') = inventoryGet k s"
  using registered_rows(1,2) [OF assms] registered_rows(4) [OF assms, of j] registered_rows(5) [OF assms, of k]
  by (auto simp: get_deregistered)

end
