(* ===== verification/FS_Addons.thy ===== *)
theory FS_Addons
  imports FS_Extension FS_Registration
begin

text \<open>
  The life cycle of addons: the data of an addon (\<^verbatim>\<open>domain/addon.go\<close>), the manager that
  enables, connects, disconnects and disables them (\<^verbatim>\<open>application/addon_manager.go\<close>) and the
  router of delivery agents (\<^verbatim>\<open>infrastructure/delivery/routing.go\<close>). The manager is generic
  in the activator of schemas and in the delivery agents, as the source is: an activator is a pair of
  functions on a state of its own. Every exported operation of the manager holds its mutex from
  beginning to end, so an operation is one step. Go iterates over a map in an order of its own;
  it is a parameter of the operations that do. One clock reading stands for those of one operation.
\<close>

section \<open>Addons\<close>

type_synonym AddonID = string

datatype AddonState = AddonStateDefined | AddonStateEnabled | AddonStateConnected

datatype Capability =
    ManagedResourceCapability ResourceType
  | InventoryResourceCapability ResourceType
  | DeliveryCapability TargetType

record Addon =
  ad_ID :: AddonID
  ad_Name :: string
  ad_State :: AddonState
  ad_Capabilities :: "Capability list"
  ad_EnabledAt :: go_time
  ad_ConnectedAt :: "go_time option"

record AddonDescriptor =
  ds_ID :: AddonID
  ds_Name :: string
  ds_Capabilities :: "Capability list"

record ManagementSchema =
  sm_SpecMessage :: string
  sm_Relation :: "FulfillmentRelation option"

record ExtensionResourceSchema =
  es_ResourceType :: ResourceType
  es_ProtoPackage :: string
  es_Version :: string
  es_CollectionID :: string
  es_Singular :: string
  es_Plural :: string
  es_ProtoFiles :: string_map
  es_EntryFile :: string
  es_Management :: "ManagementSchema option"
  es_Inventory :: bool

section \<open>The router\<close>

type_synonym 'g router = "(TargetType, 'g) fmap"

definition routerRegister :: "TargetType \<Rightarrow> 'g \<Rightarrow> 'g router \<Rightarrow> 'g router" where
  "routerRegister tt agent r = fmupd tt agent r"

definition routerDeregister :: "TargetType \<Rightarrow> 'g router \<Rightarrow> 'g router" where
  "routerDeregister tt r = fmdrop tt r"

definition agentFor :: "TargetType \<Rightarrow> 'g router \<Rightarrow> 'g result" where
  "agentFor tt r =
     (case fmlookup r tt of
        None \<Rightarrow> Inl (invalidArgument (''no delivery agent registered for target type '' @ quote tt))
      | Some agent \<Rightarrow> Inr agent)"

section \<open>The state of the manager\<close>

type_synonym SchemaActivationID = string

record 'a SchemaActivator =
  ac_Activate :: "ExtensionResourceSchema \<Rightarrow> 'a \<Rightarrow> SchemaActivationID result \<times> 'a"
  ac_Deactivate :: "SchemaActivationID \<Rightarrow> 'a \<Rightarrow> 'a"

record registeredSchema =
  rg_activation :: "SchemaActivationID option"

record 'g addonRecord =
  rc_addon :: Addon
  rc_agent :: "'g option"
  rc_registeredSchemas :: "(ResourceType, registeredSchema) fmap"

record ('g, 'a) AddonManager =
  mn_addons :: "(AddonID, 'g addonRecord) fmap"
  mn_router :: "'g router"
  mn_active :: 'a
  mn_world :: world

definition NewAddonManager :: "'a \<Rightarrow> world \<Rightarrow> ('g, 'a) AddonManager" where
  "NewAddonManager a w = \<lparr>mn_addons = fmempty, mn_router = fmempty, mn_active = a, mn_world = w\<rparr>"

section \<open>Checks\<close>

definition validateResourceTypeOwnership :: "AddonID \<Rightarrow> ResourceType \<Rightarrow> error option" where
  "validateResourceTypeOwnership addonID rt =
     (if addonID \<noteq> rtServiceName rt
      then Some (invalidArgument (''addon '' @ quote addonID @ '' cannot register resource type '' @ quote rt @
             '' (service name '' @ quote (rtServiceName rt) @ '' does not match addon ID)''))
      else None)"

fun capabilityResourceType :: "Capability \<Rightarrow> ResourceType option" where
  "capabilityResourceType (ManagedResourceCapability rt) = Some rt"
| "capabilityResourceType (InventoryResourceCapability rt) = Some rt"
| "capabilityResourceType (DeliveryCapability tt) = None"

definition hasCapabilityFor :: "(ResourceType \<Rightarrow> Capability) \<Rightarrow> Addon \<Rightarrow> ResourceType \<Rightarrow> bool" where
  "hasCapabilityFor C addon rt = list_ex (\<lambda>cap. cap = C rt) (ad_Capabilities addon)"

definition validateSchemaCapabilities :: "Addon \<Rightarrow> ExtensionResourceSchema \<Rightarrow> error option" where
  "validateSchemaCapabilities addon schema =
     (if es_Management schema \<noteq> None \<and> \<not> hasCapabilityFor ManagedResourceCapability addon (es_ResourceType schema)
      then Some (invalidArgument (''addon '' @ quote (ad_ID addon) @ '' has no ManagedResourceCapability for resource type '' @
             quote (es_ResourceType schema)))
      else if es_Inventory schema \<and> \<not> hasCapabilityFor InventoryResourceCapability addon (es_ResourceType schema)
      then Some (invalidArgument (''addon '' @ quote (ad_ID addon) @ '' has no InventoryResourceCapability for resource type '' @
             quote (es_ResourceType schema)))
      else None)"

section \<open>Enabling\<close>

fun foreignCapability :: "AddonID \<Rightarrow> Capability list \<Rightarrow> error option" where
  "foreignCapability addonID [] = None"
| "foreignCapability addonID (cap # caps) =
     (case capabilityResourceType cap of
        None \<Rightarrow> foreignCapability addonID caps
      | Some rt \<Rightarrow>
          (case validateResourceTypeOwnership addonID rt of
             Some e \<Rightarrow> Some e
           | None \<Rightarrow> foreignCapability addonID caps))"

definition putRecord :: "AddonID \<Rightarrow> 'g addonRecord \<Rightarrow> ('g, 'a) AddonManager \<Rightarrow> ('g, 'a) AddonManager" where
  "putRecord i rec m = m\<lparr>mn_addons := fmupd i rec (mn_addons m)\<rparr>"

definition Enable :: "go_time \<Rightarrow> AddonDescriptor \<Rightarrow> ('g, 'a) AddonManager \<Rightarrow> unit result \<times> ('g, 'a) AddonManager" where
  "Enable now desc m =
     (case foreignCapability (ds_ID desc) (ds_Capabilities desc) of
        Some e \<Rightarrow> (Inl e, m)
      | None \<Rightarrow>
          (case fmlookup (mn_addons m) (ds_ID desc) of
             Some rec \<Rightarrow>
               if ad_State (rc_addon rec) \<noteq> AddonStateDefined
               then (Inl (Wrapped '''' (Sentinel ErrAlreadyExists) ('': addon '' @ quote (ds_ID desc) @ '' is already enabled'')), m)
               else (Inr (), putRecord (ds_ID desc)
                      (rec\<lparr>rc_addon := (rc_addon rec)\<lparr>ad_Name := ds_Name desc, ad_State := AddonStateEnabled,
                         ad_Capabilities := ds_Capabilities desc, ad_EnabledAt := now\<rparr>\<rparr>) m)
           | None \<Rightarrow>
               (Inr (), putRecord (ds_ID desc)
                  \<lparr>rc_addon = \<lparr>ad_ID = ds_ID desc, ad_Name = ds_Name desc, ad_State = AddonStateEnabled,
                     ad_Capabilities = ds_Capabilities desc, ad_EnabledAt = now, ad_ConnectedAt = None\<rparr>,
                   rc_agent = None, rc_registeredSchemas = fmempty\<rparr> m)))"

section \<open>A connection in progress\<close>

record connectCompensation =
  cc_createdTypeDefs :: "ResourceType list"
  cc_activatedSchemas :: "(ResourceType \<times> SchemaActivationID) list"
  cc_addedRegistrations :: "ResourceType list"
  cc_agentRegistrations :: "TargetType list"
  cc_createdTargets :: "TargetID list"

record ('g, 'a) connecting =
  cn_rec :: "'g addonRecord"
  cn_router :: "'g router"
  cn_active :: 'a
  cn_world :: world
  cn_comp :: connectCompensation

definition noCompensation :: connectCompensation where
  "noCompensation = \<lparr>cc_createdTypeDefs = [], cc_activatedSchemas = [], cc_addedRegistrations = [], cc_agentRegistrations = [],
     cc_createdTargets = []\<rparr>"

text \<open>A call of one of the services, on the world alone.\<close>

definition onWorld :: "'x io \<Rightarrow> ('g, 'a) connecting \<Rightarrow> 'x result \<times> ('g, 'a) connecting" where
  "onWorld m c = (case m (cn_world c) of (r, w) \<Rightarrow> (r, c\<lparr>cn_world := w\<rparr>))"

definition bestEffort :: "'x io \<Rightarrow> ('g, 'a) connecting \<Rightarrow> ('g, 'a) connecting" where
  "bestEffort m c = snd (onWorld m c)"

definition setSchemas :: "((ResourceType, registeredSchema) fmap \<Rightarrow> (ResourceType, registeredSchema) fmap) \<Rightarrow>
    ('g, 'a) connecting \<Rightarrow> ('g, 'a) connecting" where
  "setSchemas f c = c\<lparr>cn_rec := (cn_rec c)\<lparr>rc_registeredSchemas := f (rc_registeredSchemas (cn_rec c))\<rparr>\<rparr>"

definition schemasOf :: "('g, 'a) connecting \<Rightarrow> (ResourceType, registeredSchema) fmap" where
  "schemasOf c = rc_registeredSchemas (cn_rec c)"

text \<open>The order in which a map is iterated: the given one if it enumerates the keys.\<close>

definition iterated :: "ResourceType list \<Rightarrow> (ResourceType, 'v) fmap \<Rightarrow> ResourceType list" where
  "iterated ord m = (if distinct ord \<and> fset_of_list ord = fmdom m then ord else sorted_list_of_fset (fmdom m))"

definition teardownSchema :: "'a SchemaActivator \<Rightarrow> ResourceType \<Rightarrow> ('g, 'a) connecting \<Rightarrow> ('g, 'a) connecting" where
  "teardownSchema act rt c =
     (case fmlookup (schemasOf c) rt of
        None \<Rightarrow> c
      | Some reg \<Rightarrow>
          (let c1 = (case rg_activation reg of None \<Rightarrow> c | Some i \<Rightarrow> c\<lparr>cn_active := ac_Deactivate act i (cn_active c)\<rparr>)
           in setSchemas (fmdrop rt) (bestEffort (typeServiceDelete rt) c1)))"

section \<open>Registering a schema\<close>

definition zeroSignature :: Signature where
  "zeroSignature = \<lparr>sg_Signer = \<lparr>fi_Subject = '''', fi_Issuer = ''''\<rparr>, sg_ContentHash = [], sg_SignatureBytes = []\<rparr>"

definition typeInput :: "ExtensionResourceSchema \<Rightarrow> CreateExtensionTypeInput" where
  "typeInput schema =
     \<lparr>ce_ResourceType = es_ResourceType schema, ce_APIVersion = es_Version schema, ce_CollectionID = es_CollectionID schema,
      ce_Management = map_option (\<lambda>m. (sm_Relation m, zeroSignature)) (es_Management schema), ce_Inventory = es_Inventory schema\<rparr>"

text \<open>A relation that is nil has been refused by the type service before.\<close>

definition backfilled :: "go_time \<Rightarrow> ExtensionResourceSchema \<Rightarrow> ExtensionResourceType \<Rightarrow> ExtensionResourceType" where
  "backfilled now schema existing =
     existing\<lparr>et_management :=
         (case et_management existing of
            Some m \<Rightarrow> Some m
          | None \<Rightarrow>
              (case es_Management schema of
                 None \<Rightarrow> None
               | Some s \<Rightarrow> map_option (\<lambda>r. \<lparr>mt_relation = r, mt_signature = zeroSignature\<rparr>) (sm_Relation s))),
       et_inventory := et_inventory existing \<or> es_Inventory schema, et_updatedAt := now\<rparr>"

definition relationDrift :: "ExtensionResourceSchema \<Rightarrow> ExtensionResourceType \<Rightarrow> bool" where
  "relationDrift schema existing =
     (case (et_management existing, es_Management schema) of
        (Some m, Some s) \<Rightarrow> marshalFulfillmentRelation (Some (mt_relation m)) \<noteq> marshalFulfillmentRelation (sm_Relation s)
      | _ \<Rightarrow> False)"

definition needBackfill :: "ExtensionResourceSchema \<Rightarrow> ExtensionResourceType \<Rightarrow> bool" where
  "needBackfill schema existing \<longleftrightarrow>
     et_management existing = None \<and> es_Management schema \<noteq> None \<or> \<not> et_inventory existing \<and> es_Inventory schema"

definition reconcileExistingTypeCapabilities :: "go_time \<Rightarrow> ExtensionResourceSchema \<Rightarrow> unit io" where
  "reconcileExistingTypeCapabilities now schema =
     (let rt = es_ResourceType schema
      in andThen (wrap ''load existing type def for capability reconcile: '' (typeServiceGet rt)) (\<lambda>existing.
         if et_apiVersion existing \<noteq> es_Version schema
         then throw (invalidArgument (''API version drift: existing '' @ quote (et_apiVersion existing) @ '', new '' @ quote (es_Version schema)))
         else if et_collectionID existing \<noteq> es_CollectionID schema
         then throw (invalidArgument (''collection ID drift: existing '' @ quote (et_collectionID existing) @ '', new '' @ quote (es_CollectionID schema)))
         else if et_management existing \<noteq> None \<and> es_Management schema = None
         then throw (invalidArgument (''cannot drop management capability for '' @ quote rt @ '' on reconnect''))
         else if et_inventory existing \<and> \<not> es_Inventory schema
         then throw (invalidArgument (''cannot drop inventory capability for '' @ quote rt @ '' on reconnect''))
         else if relationDrift schema existing
         then throw (invalidArgument (''management relation drift for '' @ quote rt))
         else if \<not> needBackfill schema existing then ret ()
         else wrap (''backfill type capabilities for '' @ quote rt @ '': '') (typeServiceUpdate (backfilled now schema existing))))"

definition addRegistration :: "ResourceType \<Rightarrow> ('g, 'a) connecting \<Rightarrow> ('g, 'a) connecting" where
  "addRegistration rt c =
     (if fmlookup (schemasOf c) rt \<noteq> None then c
      else setSchemas (fmupd rt \<lparr>rg_activation = None\<rparr>)
             (c\<lparr>cn_comp := (cn_comp c)\<lparr>cc_addedRegistrations := cc_addedRegistrations (cn_comp c) @ [rt]\<rparr>\<rparr>))"

definition registerSchema :: "go_time \<Rightarrow> ExtensionResourceSchema \<Rightarrow> ('g, 'a) connecting \<Rightarrow> unit result \<times> ('g, 'a) connecting" where
  "registerSchema now schema c =
     (let rt = es_ResourceType schema
      in case onWorld (typeServiceCreate now (typeInput schema)) c of
           (Inr _, c1) \<Rightarrow>
             (Inr (), addRegistration rt
                (c1\<lparr>cn_comp := (cn_comp c1)\<lparr>cc_createdTypeDefs := cc_createdTypeDefs (cn_comp c1) @ [rt]\<rparr>\<rparr>))
         | (Inl e, c1) \<Rightarrow>
             if \<not> errorsIs e ErrAlreadyExists then (Inl (Wrapped ''create type def: '' e ''''), c1)
             else (case onWorld (reconcileExistingTypeCapabilities now schema) c1 of
                     (Inl e', c2) \<Rightarrow> (Inl e', c2)
                   | (Inr _, c2) \<Rightarrow> (Inr (), addRegistration rt c2)))"

definition activateSchema ::
  "'a SchemaActivator \<Rightarrow> ExtensionResourceSchema \<Rightarrow> ('g, 'a) connecting \<Rightarrow> unit result \<times> ('g, 'a) connecting" where
  "activateSchema act schema c =
     (case ac_Activate act schema (cn_active c) of
        (Inl e, a) \<Rightarrow> (Inl e, c\<lparr>cn_active := a\<rparr>)
      | (Inr i, a) \<Rightarrow>
          (let rt = es_ResourceType schema;
               prev = (case fmlookup (schemasOf c) rt of None \<Rightarrow> None | Some reg \<Rightarrow> rg_activation reg);
               a' = (case prev of None \<Rightarrow> a | Some p \<Rightarrow> if p \<noteq> i then ac_Deactivate act p a else a)
           in (Inr (), setSchemas (fmupd rt \<lparr>rg_activation = Some i\<rparr>)
                 (c\<lparr>cn_active := a',
                    cn_comp := (if prev = Some i then cn_comp c
                      else (cn_comp c)\<lparr>cc_activatedSchemas := cc_activatedSchemas (cn_comp c) @ [(rt, i)]\<rparr>)\<rparr>))))"

section \<open>Connecting\<close>

record 'g ConnectInput =
  co_Agent :: "'g option"
  co_Targets :: "TargetInfo list"
  co_Schemas :: "ExtensionResourceSchema list"

definition connectSchema ::
  "'a SchemaActivator \<Rightarrow> go_time \<Rightarrow> ExtensionResourceSchema \<Rightarrow> ('g, 'a) connecting \<Rightarrow> unit result \<times> ('g, 'a) connecting" where
  "connectSchema act now schema c =
     (case registerSchema now schema c of
        (Inl e, c1) \<Rightarrow> (Inl (Wrapped (''register schema for '' @ quote (es_ResourceType schema) @ '': '') e ''''), c1)
      | (Inr _, c1) \<Rightarrow>
          if es_Management schema \<noteq> None \<or> es_Inventory schema
          then (case activateSchema act schema c1 of
                  (Inl e, c2) \<Rightarrow> (Inl (Wrapped (''activate schema for '' @ quote (es_ResourceType schema) @ '': '') e ''''), c2)
                | (Inr _, c2) \<Rightarrow> (Inr (), c2))
          else (Inr (), c1))"

fun connectEach ::
  "'a SchemaActivator \<Rightarrow> go_time \<Rightarrow> ExtensionResourceSchema list \<Rightarrow> ('g, 'a) connecting \<Rightarrow> unit result \<times> ('g, 'a) connecting" where
  "connectEach act now [] c = (Inr (), c)"
| "connectEach act now (schema # schemas) c =
     (case connectSchema act now schema c of
        (Inl e, c1) \<Rightarrow> (Inl e, c1)
      | (Inr _, c1) \<Rightarrow> connectEach act now schemas c1)"

definition staleSchemas :: "ResourceType list \<Rightarrow> ExtensionResourceSchema list \<Rightarrow> 'g addonRecord \<Rightarrow> ResourceType list" where
  "staleSchemas ord schemas rec =
     filter (\<lambda>rt. rt \<notin> es_ResourceType ` set schemas) (iterated ord (rc_registeredSchemas rec))"

definition connectSchemas ::
  "'a SchemaActivator \<Rightarrow> go_time \<Rightarrow> ResourceType list \<Rightarrow> ExtensionResourceSchema list \<Rightarrow> ('g, 'a) connecting \<Rightarrow>
     unit result \<times> ('g, 'a) connecting" where
  "connectSchemas act now ord schemas c =
     connectEach act now schemas (fold (teardownSchema act) (staleSchemas ord schemas (cn_rec c)) c)"

fun registerAgent :: "'g \<Rightarrow> Capability \<Rightarrow> ('g, 'a) connecting \<Rightarrow> ('g, 'a) connecting" where
  "registerAgent agent (DeliveryCapability tt) c =
     c\<lparr>cn_router := routerRegister tt agent (cn_router c), cn_rec := (cn_rec c)\<lparr>rc_agent := Some agent\<rparr>,
       cn_comp := (cn_comp c)\<lparr>cc_agentRegistrations := cc_agentRegistrations (cn_comp c) @ [tt]\<rparr>\<rparr>"
| "registerAgent agent cap c = c"

definition connectDeliveryAgent :: "'g option \<Rightarrow> ('g, 'a) connecting \<Rightarrow> ('g, 'a) connecting" where
  "connectDeliveryAgent agent c =
     (case agent of
        None \<Rightarrow> c
      | Some g \<Rightarrow> fold (registerAgent g) (ad_Capabilities (rc_addon (cn_rec c))) c)"

fun connectTargets :: "go_time \<Rightarrow> TargetInfo list \<Rightarrow> ('g, 'a) connecting \<Rightarrow> unit result \<times> ('g, 'a) connecting" where
  "connectTargets now [] c = (Inr (), c)"
| "connectTargets now (t # ts) c =
     (case onWorld (RegisterOrVerify now t) c of
        (Inl e, c1) \<Rightarrow> (Inl (Wrapped (''register target '' @ quote (ti_id t) @ '': '') e ''''), c1)
      | (Inr fresh, c1) \<Rightarrow>
          connectTargets now ts
            (if fresh then c1\<lparr>cn_comp := (cn_comp c1)\<lparr>cc_createdTargets := cc_createdTargets (cn_comp c1) @ [ti_id t]\<rparr>\<rparr> else c1))"

text \<open>The undoing of a failed call: targets, agent, activations, registrations, types.\<close>

definition rollback :: "'a SchemaActivator \<Rightarrow> ('g, 'a) connecting \<Rightarrow> ('g, 'a) connecting" where
  "rollback act c =
     (let comp = cn_comp c;
          c1 = fold (\<lambda>i. bestEffort (Deregister i)) (rev (cc_createdTargets comp)) c;
          c2 = c1\<lparr>cn_router := fold routerDeregister (cc_agentRegistrations comp) (cn_router c1),
                  cn_rec := (if cc_agentRegistrations comp = [] then cn_rec c1 else (cn_rec c1)\<lparr>rc_agent := None\<rparr>),
                  cn_active := fold (\<lambda>(rt, i). ac_Deactivate act i) (rev (cc_activatedSchemas comp)) (cn_active c1)\<rparr>;
          c3 = setSchemas (fold fmdrop (cc_addedRegistrations comp)) c2
      in fold (\<lambda>rt. bestEffort (typeServiceDelete rt)) (rev (cc_createdTypeDefs comp)) c3)"

definition connectAll ::
  "'a SchemaActivator \<Rightarrow> go_time \<Rightarrow> ResourceType list \<Rightarrow> 'g ConnectInput \<Rightarrow> ('g, 'a) connecting \<Rightarrow> unit result \<times> ('g, 'a) connecting" where
  "connectAll act now ord inp c =
     (case connectSchemas act now ord (co_Schemas inp) c of
        (Inl e, c1) \<Rightarrow> (Inl e, c1)
      | (Inr _, c1) \<Rightarrow> connectTargets now (co_Targets inp) (connectDeliveryAgent (co_Agent inp) c1))"

fun preflight :: "Addon \<Rightarrow> ExtensionResourceSchema list \<Rightarrow> error option" where
  "preflight addon [] = None"
| "preflight addon (schema # schemas) =
     (case validateResourceTypeOwnership (ad_ID addon) (es_ResourceType schema) of
        Some e \<Rightarrow> Some e
      | None \<Rightarrow>
          (case validateSchemaCapabilities addon schema of
             Some e \<Rightarrow> Some e
           | None \<Rightarrow> preflight addon schemas))"

fun stateNumber :: "AddonState \<Rightarrow> int" where
  "stateNumber AddonStateDefined = 0"
| "stateNumber AddonStateEnabled = 1"
| "stateNumber AddonStateConnected = 2"

definition opened :: "'g addonRecord \<Rightarrow> ('g, 'a) AddonManager \<Rightarrow> ('g, 'a) connecting" where
  "opened rec m = \<lparr>cn_rec = rec, cn_router = mn_router m, cn_active = mn_active m, cn_world = mn_world m, cn_comp = noCompensation\<rparr>"

definition closed :: "AddonID \<Rightarrow> ('g, 'a) connecting \<Rightarrow> ('g, 'a) AddonManager \<Rightarrow> ('g, 'a) AddonManager" where
  "closed i c m =
     m\<lparr>mn_addons := fmupd i (cn_rec c) (mn_addons m), mn_router := cn_router c, mn_active := cn_active c, mn_world := cn_world c\<rparr>"

definition setState :: "AddonState \<Rightarrow> go_time option \<Rightarrow> 'g addonRecord \<Rightarrow> 'g addonRecord" where
  "setState st since rec = rec\<lparr>rc_addon := (rc_addon rec)\<lparr>ad_State := st, ad_ConnectedAt := since\<rparr>\<rparr>"

definition noAddon :: "AddonID \<Rightarrow> string \<Rightarrow> error" where
  "noAddon i why = Wrapped '''' (Sentinel ErrNotFound) ('': addon '' @ quote i @ '' not found'' @ why)"

definition Connect ::
  "'a SchemaActivator \<Rightarrow> go_time \<Rightarrow> ResourceType list \<Rightarrow> AddonID \<Rightarrow> 'g ConnectInput \<Rightarrow> ('g, 'a) AddonManager \<Rightarrow>
     unit result \<times> ('g, 'a) AddonManager" where
  "Connect act now ord i inp m =
     (case fmlookup (mn_addons m) i of
        None \<Rightarrow> (Inl (noAddon i '' (not enabled)''), m)
      | Some rec \<Rightarrow>
          if ad_State (rc_addon rec) \<noteq> AddonStateEnabled
          then (Inl (invalidArgument (''addon '' @ quote i @ '' is in state '' @ itoa (stateNumber (ad_State (rc_addon rec))) @
                  '', expected enabled'')), m)
          else (case preflight (rc_addon rec) (co_Schemas inp) of
                  Some e \<Rightarrow> (Inl e, m)
                | None \<Rightarrow>
                    (case connectAll act now ord inp (opened rec m) of
                       (Inl e, c) \<Rightarrow> (Inl e, closed i (rollback act c) m)
                     | (Inr _, c) \<Rightarrow>
                         (Inr (), closed i (c\<lparr>cn_rec := setState AddonStateConnected (Some now) (cn_rec c)\<rparr>) m))))"

section \<open>Disconnecting and disabling\<close>

fun deregisterAgent :: "Capability \<Rightarrow> 'g router \<Rightarrow> 'g router" where
  "deregisterAgent (DeliveryCapability tt) r = routerDeregister tt r"
| "deregisterAgent cap r = r"

definition dropAgent :: "('g, 'a) connecting \<Rightarrow> ('g, 'a) connecting" where
  "dropAgent c =
     (if rc_agent (cn_rec c) = None then c
      else c\<lparr>cn_router := fold deregisterAgent (ad_Capabilities (rc_addon (cn_rec c))) (cn_router c),
             cn_rec := (cn_rec c)\<lparr>rc_agent := None\<rparr>\<rparr>)"

definition Disconnect :: "AddonID \<Rightarrow> ('g, 'a) AddonManager \<Rightarrow> unit result \<times> ('g, 'a) AddonManager" where
  "Disconnect i m =
     (case fmlookup (mn_addons m) i of
        None \<Rightarrow> (Inl (noAddon i ''''), m)
      | Some rec \<Rightarrow>
          (let c = dropAgent (opened rec m)
           in (Inr (), closed i (c\<lparr>cn_rec := setState AddonStateEnabled None (cn_rec c)\<rparr>) m)))"

definition Disable :: "'a SchemaActivator \<Rightarrow> ResourceType list \<Rightarrow> AddonID \<Rightarrow> ('g, 'a) AddonManager \<Rightarrow> unit result \<times> ('g, 'a) AddonManager" where
  "Disable act ord i m =
     (case fmlookup (mn_addons m) i of
        None \<Rightarrow> (Inl (noAddon i ''''), m)
      | Some rec \<Rightarrow>
          (let c = fold (teardownSchema act) (iterated ord (rc_registeredSchemas rec)) (dropAgent (opened rec m))
           in (Inr (), closed i (c\<lparr>cn_rec := setState AddonStateDefined None (cn_rec c)\<rparr>) m)))"

definition GetAddon :: "AddonID \<Rightarrow> ('g, 'a) AddonManager \<Rightarrow> Addon result" where
  "GetAddon i m = (case fmlookup (mn_addons m) i of None \<Rightarrow> Inl (noAddon i '''') | Some rec \<Rightarrow> Inr (rc_addon rec))"

section \<open>What each part of a connection touches\<close>

definition kept :: "('g, 'a) connecting \<Rightarrow> ('g, 'a) connecting \<Rightarrow> bool" where
  "kept c c' \<longleftrightarrow>
     rc_addon (cn_rec c') = rc_addon (cn_rec c) \<and> rc_agent (cn_rec c') = rc_agent (cn_rec c) \<and> cn_router c' = cn_router c \<and>
     cc_agentRegistrations (cn_comp c') = cc_agentRegistrations (cn_comp c)"

lemma kept_refl [simp]: "kept c c"
  by (simp add: kept_def)

lemma kept_trans [trans]: "kept a b \<Longrightarrow> kept b c \<Longrightarrow> kept a c"
  by (simp add: kept_def)

lemma onWorld_fields [simp]:
  "cn_rec (snd (onWorld m c)) = cn_rec c" "cn_router (snd (onWorld m c)) = cn_router c" "cn_active (snd (onWorld m c)) = cn_active c"
  "cn_comp (snd (onWorld m c)) = cn_comp c" "cn_world (snd (onWorld m c)) = snd (m (cn_world c))"
  by (simp_all add: onWorld_def split: prod.split)

lemma onWorld_eq: "onWorld m c = (r, c') \<longleftrightarrow> (\<exists>w. m (cn_world c) = (r, w) \<and> c' = c\<lparr>cn_world := w\<rparr>)"
  by (auto simp: onWorld_def split: prod.splits)

lemma bestEffort_fields [simp]:
  "cn_rec (bestEffort m c) = cn_rec c" "cn_router (bestEffort m c) = cn_router c" "cn_active (bestEffort m c) = cn_active c"
  "cn_comp (bestEffort m c) = cn_comp c" "cn_world (bestEffort m c) = snd (m (cn_world c))"
  by (simp_all add: bestEffort_def)

lemma setSchemas_fields [simp]:
  "schemasOf (setSchemas f c) = f (schemasOf c)" "cn_router (setSchemas f c) = cn_router c" "cn_active (setSchemas f c) = cn_active c"
  "cn_world (setSchemas f c) = cn_world c" "cn_comp (setSchemas f c) = cn_comp c"
  "rc_addon (cn_rec (setSchemas f c)) = rc_addon (cn_rec c)" "rc_agent (cn_rec (setSchemas f c)) = rc_agent (cn_rec c)"
  by (simp_all add: setSchemas_def schemasOf_def)

lemma set_iterated [simp]: "set (iterated ord m) = fset (fmdom m)"
  by (auto simp: iterated_def fset_of_list.rep_eq [symmetric])

lemma schemasOf_simps [simp]:
  "schemasOf (bestEffort m c) = schemasOf c" "schemasOf (c\<lparr>cn_active := a\<rparr>) = schemasOf c" "schemasOf (c\<lparr>cn_world := w\<rparr>) = schemasOf c"
  "schemasOf (c\<lparr>cn_comp := p\<rparr>) = schemasOf c" "schemasOf (c\<lparr>cn_router := r\<rparr>) = schemasOf c"
  by (simp_all add: schemasOf_def)

lemma fmdrop_missing: "fmlookup m x = None \<Longrightarrow> fmdrop x m = m"
  by (rule fmap_ext) auto

lemma teardown_fields:
  "kept c (teardownSchema act rt c)" "schemasOf (teardownSchema act rt c) = fmdrop rt (schemasOf c)"
  "cn_comp (teardownSchema act rt c) = cn_comp c"
  by (auto simp: teardownSchema_def kept_def Let_def fmdrop_missing split: option.split)

lemma dom_drops [simp]: "fset (fmdom (fold fmdrop xs m)) = fset (fmdom m) - set xs"
  by (induction xs arbitrary: m) auto

lemma teardowns:
  "kept c (fold (teardownSchema act) rts c)" "schemasOf (fold (teardownSchema act) rts c) = fold fmdrop rts (schemasOf c)"
  "cn_comp (fold (teardownSchema act) rts c) = cn_comp c"
proof (induction rts arbitrary: c)
  case (Cons rt rts)
  { case 1 show ?case using kept_trans [OF teardown_fields(1) Cons.IH(1)] by simp }
  { case 2 show ?case by (simp add: Cons.IH teardown_fields) }
  { case 3 show ?case by (simp add: Cons.IH teardown_fields) }
qed simp_all

text \<open>The registrations that were there and those that the call has added.\<close>

definition grown :: "ResourceType set \<Rightarrow> ('g, 'a) connecting \<Rightarrow> ('g, 'a) connecting \<Rightarrow> bool" where
  "grown new c c' \<longleftrightarrow>
     kept c c' \<and> (\<exists>added. cc_addedRegistrations (cn_comp c') = cc_addedRegistrations (cn_comp c) @ added \<and>
       set added \<subseteq> new \<and> set added \<inter> fset (fmdom (schemasOf c)) = {} \<and>
       fset (fmdom (schemasOf c')) = fset (fmdom (schemasOf c)) \<union> set added)"

lemma grown_refl: "grown {} c c"
  by (auto simp: grown_def)

lemma grown_trans: "grown A a b \<Longrightarrow> grown B b c \<Longrightarrow> grown (A \<union> B) a c"
  unfolding grown_def by (elim conjE exE, intro conjI, erule (1) kept_trans) (rule exI, auto)

lemma grown_register:
  assumes "registerSchema now schema c = (r, c')"
  shows "grown {es_ResourceType schema} c c'" "r = Inr () \<Longrightarrow> es_ResourceType schema |\<in>| fmdom (schemasOf c')"
proof -
  have add: "grown {rt} c (addRegistration rt (c\<lparr>cn_world := w, cn_comp := (cn_comp c)\<lparr>cc_createdTypeDefs := ts\<rparr>\<rparr>))"
    "rt |\<in>| fmdom (schemasOf (addRegistration rt (c\<lparr>cn_world := w, cn_comp := (cn_comp c)\<lparr>cc_createdTypeDefs := ts\<rparr>\<rparr>)))" for rt w ts
    by (auto simp: addRegistration_def grown_def kept_def schemasOf_def setSchemas_def fmdomI)
  have same: "c\<lparr>cn_world := w\<rparr> = c\<lparr>cn_world := w, cn_comp := (cn_comp c)\<lparr>cc_createdTypeDefs := cc_createdTypeDefs (cn_comp c)\<rparr>\<rparr>" for w
    by simp
  have none: "grown {rt} c (c\<lparr>cn_world := w\<rparr>)" for w rt by (auto simp: grown_def kept_def schemasOf_def)
  show "grown {es_ResourceType schema} c c'" "r = Inr () \<Longrightarrow> es_ResourceType schema |\<in>| fmdom (schemasOf c')"
    using assms add none same
    by (auto simp: registerSchema_def Let_def onWorld_eq split: prod.splits sum.splits if_splits) (metis same add)+
qed

lemma grown_activate:
  assumes "activateSchema act schema c = (r, c')" "es_ResourceType schema |\<in>| fmdom (schemasOf c)"
  shows "grown {} c c'"
  using assms by (auto simp: activateSchema_def grown_def kept_def Let_def split: prod.splits sum.splits)

lemma grown_connectSchema:
  assumes "connectSchema act now schema c = (r, c')"
  shows "grown {es_ResourceType schema} c c'"
proof -
  obtain r1 c1 where reg: "registerSchema now schema c = (r1, c1)" by (cases "registerSchema now schema c")
  note first = grown_register(1) [OF reg]
  have second: "grown {} c1 c2" if "r1 = Inr ()" "activateSchema act schema c1 = (r2, c2)" for r2 c2
    using grown_activate [OF that(2)] grown_register(2) [OF reg that(1)] .
  from assms reg show ?thesis
    using first grown_trans [OF first second]
    by (auto simp: connectSchema_def split: sum.splits if_splits prod.splits)
qed

lemma grown_connectEach:
  "connectEach act now schemas c = (r, c') \<Longrightarrow> grown (es_ResourceType ` set schemas) c c'"
proof (induction schemas arbitrary: c)
  case (Cons schema schemas)
  obtain r1 c1 where one: "connectSchema act now schema c = (r1, c1)" by (cases "connectSchema act now schema c")
  show ?case
  proof (cases r1)
    case (Inl e)
    with Cons.prems one have "c' = c1" by simp
    then show ?thesis using grown_connectSchema [OF one] unfolding grown_def by auto
  next
    case (Inr u)
    with Cons.prems one have "connectEach act now schemas c1 = (r, c')" by simp
    from grown_trans [OF grown_connectSchema [OF one] Cons.IH [OF this]] show ?thesis by simp
  qed
qed (simp add: grown_refl)

text \<open>The agent: the target types of an addon, and the registrations of its agent under them.\<close>

fun deliveryTypes :: "Capability list \<Rightarrow> TargetType list" where
  "deliveryTypes [] = []"
| "deliveryTypes (DeliveryCapability tt # caps) = tt # deliveryTypes caps"
| "deliveryTypes (_ # caps) = deliveryTypes caps"

lemma set_deliveryTypes: "tt \<in> set (deliveryTypes caps) \<longleftrightarrow> DeliveryCapability tt \<in> set caps"
  by (induction caps rule: deliveryTypes.induct) auto

lemma fold_registerAgent:
  "fold (registerAgent g) caps c =
     c\<lparr>cn_router := fold (\<lambda>tt. routerRegister tt g) (deliveryTypes caps) (cn_router c),
       cn_rec := (cn_rec c)\<lparr>rc_agent := if deliveryTypes caps = [] then rc_agent (cn_rec c) else Some g\<rparr>,
       cn_comp := (cn_comp c)\<lparr>cc_agentRegistrations := cc_agentRegistrations (cn_comp c) @ deliveryTypes caps\<rparr>\<rparr>"
  by (induction caps arbitrary: c rule: deliveryTypes.induct) auto

lemma fold_deregisterAgent: "fold deregisterAgent caps r = fold routerDeregister (deliveryTypes caps) r"
  by (induction caps arbitrary: r rule: deliveryTypes.induct) auto

lemma router_registered:
  "fmlookup (fold (\<lambda>tt. routerRegister tt g) tts r) tt = (if tt \<in> set tts then Some g else fmlookup r tt)"
  by (induction tts arbitrary: r) (auto simp: routerRegister_def)

lemma router_deregistered:
  "fmlookup (fold routerDeregister tts r) tt = (if tt \<in> set tts then None else fmlookup r tt)"
  by (induction tts arbitrary: r) (auto simp: routerDeregister_def)

lemma connectTargets_fields:
  "connectTargets now ts c = (r, c') \<Longrightarrow>
     cn_rec c' = cn_rec c \<and> cn_router c' = cn_router c \<and> cn_active c' = cn_active c \<and>
     (\<exists>ids. cn_comp c' = (cn_comp c)\<lparr>cc_createdTargets := cc_createdTargets (cn_comp c) @ ids\<rparr>)"
proof (induction ts arbitrary: c)
  case Nil
  then show ?case by (auto intro: exI [where x = "[]"])
next
  case (Cons t ts)
  obtain r1 w where one: "RegisterOrVerify now t (cn_world c) = (r1, w)" by (cases "RegisterOrVerify now t (cn_world c)")
  then have on: "onWorld (RegisterOrVerify now t) c = (r1, c\<lparr>cn_world := w\<rparr>)" by (simp add: onWorld_def)
  show ?case
  proof (cases r1)
    case (Inl e)
    with Cons.prems on show ?thesis by (auto intro: exI [where x = "[]"])
  next
    case (Inr fresh)
    with Cons.prems on Cons.IH show ?thesis by (cases fresh) (fastforce simp: onWorld_def)+
  qed
qed

text \<open>What the forward part of a connection has done, whether it succeeded or not.\<close>

definition advanced :: "'g ConnectInput \<Rightarrow> ('g, 'a) connecting \<Rightarrow> ('g, 'a) connecting \<Rightarrow> bool" where
  "advanced inp c c' \<longleftrightarrow>
     rc_addon (cn_rec c') = rc_addon (cn_rec c) \<and>
     (\<exists>added. cc_addedRegistrations (cn_comp c') = added \<and> set added \<subseteq> es_ResourceType ` set (co_Schemas inp) \<and>
        set added \<inter> fset (fmdom (schemasOf c)) = {} \<and>
        fset (fmdom (schemasOf c')) = fset (fmdom (schemasOf c)) \<inter> es_ResourceType ` set (co_Schemas inp) \<union> set added) \<and>
     (cc_agentRegistrations (cn_comp c') = [] \<and> rc_agent (cn_rec c') = rc_agent (cn_rec c) \<and> cn_router c' = cn_router c \<or>
      (\<exists>g. let tts = deliveryTypes (ad_Capabilities (rc_addon (cn_rec c))) in
         co_Agent inp = Some g \<and> tts \<noteq> [] \<and> cc_agentRegistrations (cn_comp c') = tts \<and> rc_agent (cn_rec c') = Some g \<and>
         cn_router c' = fold (\<lambda>tt. routerRegister tt g) tts (cn_router c)))"

lemma advanced_schemas:
  assumes "connectSchemas act now ord (co_Schemas inp) c = (r, c')" "cn_comp c = noCompensation"
  shows "advanced inp c c'" "kept c c'" "cc_agentRegistrations (cn_comp c') = []"
proof -
  let ?new = "es_ResourceType ` set (co_Schemas inp)"
  let ?c1 = "fold (teardownSchema act) (staleSchemas ord (co_Schemas inp) (cn_rec c)) c"
  from assms(1) have g: "grown ?new ?c1 c'" unfolding connectSchemas_def by (rule grown_connectEach)
  have dom: "fset (fmdom (schemasOf ?c1)) = fset (fmdom (schemasOf c)) \<inter> ?new"
    by (auto simp: teardowns(2) staleSchemas_def schemasOf_def [symmetric])
  show k: "kept c c'" using kept_trans [OF teardowns(1)] g by (auto simp: grown_def)
  then show r: "cc_agentRegistrations (cn_comp c') = []" by (simp add: kept_def assms(2) noCompensation_def)
  from g obtain added where added: "cc_addedRegistrations (cn_comp c') = added" "set added \<subseteq> ?new"
      "set added \<inter> (fset (fmdom (schemasOf c)) \<inter> ?new) = {}"
      "fset (fmdom (schemasOf c')) = fset (fmdom (schemasOf c)) \<inter> ?new \<union> set added"
    unfolding grown_def dom teardowns(3) assms(2) by (auto simp: noCompensation_def)
  then have "set added \<inter> fset (fmdom (schemasOf c)) = {}" by blast
  with added k r show "advanced inp c c'" by (auto simp: advanced_def kept_def)
qed

lemma advanced_connectAll:
  assumes "connectAll act now ord inp c = (r, c')" "cn_comp c = noCompensation"
  shows "advanced inp c c'"
proof -
  obtain r1 c1 where schemas: "connectSchemas act now ord (co_Schemas inp) c = (r1, c1)"
    by (cases "connectSchemas act now ord (co_Schemas inp) c")
  note one = advanced_schemas [OF schemas assms(2)]
  show ?thesis
  proof (cases r1)
    case (Inl e)
    with assms(1) schemas one(1) show ?thesis by (simp add: connectAll_def)
  next
    case (Inr u)
    with assms(1) schemas have targets: "connectTargets now (co_Targets inp) (connectDeliveryAgent (co_Agent inp) c1) = (r, c')"
      by (simp add: connectAll_def)
    from connectTargets_fields [OF targets] have same: "cn_rec c' = cn_rec (connectDeliveryAgent (co_Agent inp) c1)"
        "cn_router c' = cn_router (connectDeliveryAgent (co_Agent inp) c1)"
        "cc_agentRegistrations (cn_comp c') = cc_agentRegistrations (cn_comp (connectDeliveryAgent (co_Agent inp) c1))"
        "cc_addedRegistrations (cn_comp c') = cc_addedRegistrations (cn_comp (connectDeliveryAgent (co_Agent inp) c1))"
      by auto
    show ?thesis
      using one same by (cases "co_Agent inp")
        (auto simp: advanced_def kept_def connectDeliveryAgent_def fold_registerAgent schemasOf_def Let_def)
  qed
qed

lemma bestEfforts_fields [simp]:
  "cn_rec (fold (\<lambda>x. bestEffort (f x)) xs c) = cn_rec c" "cn_router (fold (\<lambda>x. bestEffort (f x)) xs c) = cn_router c"
  "cn_active (fold (\<lambda>x. bestEffort (f x)) xs c) = cn_active c"
  by (induction xs arbitrary: c) simp_all

lemma rollback_fields:
  assumes "advanced inp c c'" "rc_agent (cn_rec c) = None"
  shows "rc_addon (cn_rec (rollback act c')) = rc_addon (cn_rec c)" "rc_agent (cn_rec (rollback act c')) = None"
    "fset (fmdom (schemasOf (rollback act c'))) = fset (fmdom (schemasOf c)) \<inter> es_ResourceType ` set (co_Schemas inp)"
    "cn_router (rollback act c') = cn_router c \<or>
     cn_router (rollback act c') = fold routerDeregister (deliveryTypes (ad_Capabilities (rc_addon (cn_rec c)))) (cn_router c)"
proof -
  show "rc_addon (cn_rec (rollback act c')) = rc_addon (cn_rec c)" "rc_agent (cn_rec (rollback act c')) = None"
    using assms by (auto simp: rollback_def advanced_def Let_def setSchemas_def)
  show "fset (fmdom (schemasOf (rollback act c'))) = fset (fmdom (schemasOf c)) \<inter> es_ResourceType ` set (co_Schemas inp)"
    using assms by (auto simp: rollback_def advanced_def Let_def setSchemas_def schemasOf_def)
  have undone: "fold routerDeregister tts (fold (\<lambda>tt. routerRegister tt g) tts r) = fold routerDeregister tts r" for tts r and g :: 'a
    by (rule fmap_ext) (simp add: router_registered router_deregistered)
  show "cn_router (rollback act c') = cn_router c \<or>
     cn_router (rollback act c') = fold routerDeregister (deliveryTypes (ad_Capabilities (rc_addon (cn_rec c)))) (cn_router c)"
    using assms by (auto simp: rollback_def advanced_def Let_def undone)
qed

section \<open>The invariant of the manager\<close>

definition owned :: "AddonID \<Rightarrow> Capability \<Rightarrow> bool" where
  "owned i cap = (case capabilityResourceType cap of None \<Rightarrow> True | Some rt \<Rightarrow> rtServiceName rt = i)"

definition recordOK :: "AddonID \<Rightarrow> 'g addonRecord \<Rightarrow> bool" where
  "recordOK i rec \<longleftrightarrow>
     ad_ID (rc_addon rec) = i \<and>
     list_all (owned i) (ad_Capabilities (rc_addon rec)) \<and>
     (\<forall>rt \<in> fset (fmdom (rc_registeredSchemas rec)). rtServiceName rt = i) \<and>
     (rc_agent rec \<noteq> None \<longrightarrow> ad_State (rc_addon rec) = AddonStateConnected) \<and>
     (ad_ConnectedAt (rc_addon rec) \<noteq> None \<longleftrightarrow> ad_State (rc_addon rec) = AddonStateConnected) \<and>
     (ad_State (rc_addon rec) = AddonStateDefined \<longrightarrow> fmdom (rc_registeredSchemas rec) = {||})"

definition serves :: "TargetType \<Rightarrow> 'g \<Rightarrow> 'g addonRecord \<Rightarrow> bool" where
  "serves tt g rec \<longleftrightarrow> rc_agent rec = Some g \<and> DeliveryCapability tt \<in> set (ad_Capabilities (rc_addon rec))"

definition managerOK :: "('g, 'a) AddonManager \<Rightarrow> bool" where
  "managerOK m \<longleftrightarrow>
     (\<forall>i rec. fmlookup (mn_addons m) i = Some rec \<longrightarrow> recordOK i rec) \<and>
     (\<forall>tt g. agentFor tt (mn_router m) = Inr g \<longrightarrow>
        (\<exists>i rec. fmlookup (mn_addons m) i = Some rec \<and> serves tt g rec))"

inductive managed :: "'a SchemaActivator \<Rightarrow> ('g, 'a) AddonManager \<Rightarrow> bool" for act where
  start: "managed act (NewAddonManager a w)"
| enable: "managed act m \<Longrightarrow> managed act (snd (Enable now desc m))"
| connect: "managed act m \<Longrightarrow> managed act (snd (Connect act now ord i inp m))"
| disconnect: "managed act m \<Longrightarrow> managed act (snd (Disconnect i m))"
| disable: "managed act m \<Longrightarrow> managed act (snd (Disable act ord i m))"
| elsewhere: "managed act m \<Longrightarrow> managed act (m\<lparr>mn_world := w\<rparr>)"

lemma agentFor_Inr [simp]: "agentFor tt r = Inr g \<longleftrightarrow> fmlookup r tt = Some g"
  by (simp add: agentFor_def split: option.split)

lemma managerOK_records: "managerOK m \<Longrightarrow> fmlookup (mn_addons m) i = Some rec \<Longrightarrow> recordOK i rec"
  by (simp add: managerOK_def)

text \<open>A record is replaced and the router changes only where the record may serve or lets go.\<close>

lemma managerOK_replace:
  assumes ok: "managerOK m" and rec: "recordOK i rec"
    and router: "\<And>tt g. fmlookup r tt = Some g \<Longrightarrow> serves tt g rec \<or>
      fmlookup (mn_router m) tt = Some g \<and> (\<forall>old. fmlookup (mn_addons m) i = Some old \<longrightarrow> \<not> serves tt g old)"
    and m': "mn_addons m' = fmupd i rec (mn_addons m)" "mn_router m' = r"
  shows "managerOK m'"
  unfolding managerOK_def
proof (intro conjI allI impI)
  show "recordOK j old" if "fmlookup (mn_addons m') j = Some old" for j old
    using that ok rec by (auto simp: m' managerOK_def split: if_splits)
  show "\<exists>j old. fmlookup (mn_addons m') j = Some old \<and> serves tt g old" if "agentFor tt (mn_router m') = Inr g" for tt g
  proof (cases "serves tt g rec")
    case True
    then have "fmlookup (mn_addons m') i = Some rec \<and> serves tt g rec" by (simp add: m')
    then show ?thesis by blast
  next
    case False
    with that router have old: "fmlookup (mn_router m) tt = Some g" "\<forall>old. fmlookup (mn_addons m) i = Some old \<longrightarrow> \<not> serves tt g old"
      by (auto simp: m')
    from old(1) ok obtain j other where "fmlookup (mn_addons m) j = Some other" "serves tt g other"
      unfolding managerOK_def agentFor_Inr by blast
    moreover from this old(2) have "j \<noteq> i" by auto
    ultimately have "fmlookup (mn_addons m') j = Some other \<and> serves tt g other" by (simp add: m')
    then show ?thesis by blast
  qed
qed

lemma foreign_none: "foreignCapability i caps = None \<longleftrightarrow> list_all (owned i) caps"
  by (induction caps) (auto simp: owned_def validateResourceTypeOwnership_def split: option.splits if_splits)

lemma preflight_none: "preflight addon schemas = None \<Longrightarrow> s \<in> set schemas \<Longrightarrow> rtServiceName (es_ResourceType s) = ad_ID addon"
  by (induction schemas) (auto simp: validateResourceTypeOwnership_def split: option.splits if_splits)

lemma Enable_ok:
  assumes "managerOK m"
  shows "managerOK (snd (Enable now desc m))"
proof -
  let ?i = "ds_ID desc"
  have put: "managerOK (putRecord ?i rec m)"
    if "recordOK ?i rec" "\<And>old. fmlookup (mn_addons m) ?i = Some old \<Longrightarrow> rc_agent old = None" for rec
    by (rule managerOK_replace [OF assms that(1), where r = "mn_router m"]) (use that(2) in \<open>auto simp: putRecord_def serves_def\<close>)
  show ?thesis
  proof (cases "foreignCapability ?i (ds_Capabilities desc)")
    case None
    then have caps: "list_all (owned ?i) (ds_Capabilities desc)" by (simp add: foreign_none)
    show ?thesis
    proof (cases "fmlookup (mn_addons m) ?i")
      case (Some rec)
      note ok = managerOK_records [OF assms Some, unfolded recordOK_def]
      show ?thesis
      proof (cases "ad_State (rc_addon rec) = AddonStateDefined")
        case True
        with None Some ok caps show ?thesis by (auto simp: Enable_def recordOK_def intro!: put)
      qed (use None Some assms in \<open>simp add: Enable_def\<close>)
    qed (use None caps in \<open>auto simp: Enable_def recordOK_def intro!: put\<close>)
  qed (use assms in \<open>simp add: Enable_def\<close>)
qed

lemma opened_fields [simp]:
  "cn_rec (opened rec m) = rec" "cn_router (opened rec m) = mn_router m" "cn_world (opened rec m) = mn_world m"
  "cn_comp (opened rec m) = noCompensation" "cn_active (opened rec m) = mn_active m" "schemasOf (opened rec m) = rc_registeredSchemas rec"
  by (simp_all add: opened_def schemasOf_def)

lemma closed_fields [simp]:
  "mn_addons (closed i c m) = fmupd i (cn_rec c) (mn_addons m)" "mn_router (closed i c m) = cn_router c"
  "mn_world (closed i c m) = cn_world c" "mn_active (closed i c m) = cn_active c"
  by (simp_all add: closed_def)

lemma setState_fields [simp]:
  "rc_addon (setState st since rec) = (rc_addon rec)\<lparr>ad_State := st, ad_ConnectedAt := since\<rparr>"
  "rc_agent (setState st since rec) = rc_agent rec" "rc_registeredSchemas (setState st since rec) = rc_registeredSchemas rec"
  by (simp_all add: setState_def)

lemma dropAgent_fields:
  "rc_addon (cn_rec (dropAgent c)) = rc_addon (cn_rec c)" "rc_agent (cn_rec (dropAgent c)) = None"
  "schemasOf (dropAgent c) = schemasOf c"
  "fmlookup (cn_router (dropAgent c)) tt =
     (if rc_agent (cn_rec c) \<noteq> None \<and> DeliveryCapability tt \<in> set (ad_Capabilities (rc_addon (cn_rec c))) then None
      else fmlookup (cn_router c) tt)"
  by (auto simp: dropAgent_def schemasOf_def fold_deregisterAgent router_deregistered set_deliveryTypes)

text \<open>A record that has let its agent go in the router may be put back in any state but connected.\<close>

lemma managerOK_close:
  assumes ok: "managerOK m" and rec: "fmlookup (mn_addons m) i = Some rec" and kept: "kept (dropAgent (opened rec m)) c"
    and schemas: "fmdom (schemasOf c) |\<subseteq>| fmdom (rc_registeredSchemas rec)"
    and st: "st \<noteq> AddonStateConnected" "st = AddonStateDefined \<Longrightarrow> fmdom (schemasOf c) = {||}"
  shows "managerOK (closed i (c\<lparr>cn_rec := setState st None (cn_rec c)\<rparr>) m)"
proof (rule managerOK_replace [OF ok])
  note old = managerOK_records [OF ok rec]
  show "recordOK i (setState st None (cn_rec c))"
    using kept old schemas st by (auto simp: recordOK_def kept_def dropAgent_fields schemasOf_def)
  show "serves tt g (setState st None (cn_rec c)) \<or> fmlookup (mn_router m) tt = Some g \<and>
      (\<forall>old. fmlookup (mn_addons m) i = Some old \<longrightarrow> \<not> serves tt g old)" if "fmlookup (cn_router c) tt = Some g" for tt g
    using kept that rec by (auto simp: kept_def dropAgent_fields serves_def split: if_splits)
qed simp_all

lemma Disconnect_ok: "managerOK m \<Longrightarrow> managerOK (snd (Disconnect i m))"
  by (auto simp: Disconnect_def Let_def dropAgent_fields intro!: managerOK_close split: option.split)

lemma Disable_ok: "managerOK m \<Longrightarrow> managerOK (snd (Disable act ord i m))"
  by (auto simp: Disable_def Let_def dropAgent_fields teardowns fset_inject [symmetric] less_eq_fset.rep_eq intro!: managerOK_close split: option.split)

text \<open>What a call of \<open>Connect\<close> has come to: refused, undone or done.\<close>

lemma Connect_cases:
  obtains (refused) e where "Connect act now ord i inp m = (Inl e, m)"
  | (failed) rec e c where "fmlookup (mn_addons m) i = Some rec" "ad_State (rc_addon rec) = AddonStateEnabled"
      "preflight (rc_addon rec) (co_Schemas inp) = None" "connectAll act now ord inp (opened rec m) = (Inl e, c)"
      "Connect act now ord i inp m = (Inl e, closed i (rollback act c) m)"
  | (completed) rec c where "fmlookup (mn_addons m) i = Some rec" "ad_State (rc_addon rec) = AddonStateEnabled"
      "preflight (rc_addon rec) (co_Schemas inp) = None" "connectAll act now ord inp (opened rec m) = (Inr (), c)"
      "Connect act now ord i inp m = (Inr (), closed i (c\<lparr>cn_rec := setState AddonStateConnected (Some now) (cn_rec c)\<rparr>) m)"
proof (cases "fmlookup (mn_addons m) i")
  case None
  then show ?thesis using refused by (simp add: Connect_def)
next
  case (Some rec)
  obtain r c where all: "connectAll act now ord inp (opened rec m) = (r, c)" by (cases "connectAll act now ord inp (opened rec m)")
  show ?thesis
  proof (cases "ad_State (rc_addon rec) = AddonStateEnabled \<and> preflight (rc_addon rec) (co_Schemas inp) = None")
    case True
    with Some all show ?thesis using failed completed by (cases r) (auto simp: Connect_def)
  next
    case False
    with Some have "\<exists>e. Connect act now ord i inp m = (Inl e, m)"
      by (cases "preflight (rc_addon rec) (co_Schemas inp)"; cases "ad_State (rc_addon rec) = AddonStateEnabled") (simp_all add: Connect_def)
    then show ?thesis using refused by blast
  qed
qed

lemma Connect_ok:
  assumes "managerOK m"
  shows "managerOK (snd (Connect act now ord i inp m))"
proof (cases rule: Connect_cases [of act now ord i inp m])
  case (refused e)
  with assms show ?thesis by simp
next
  case (failed rec e c)
  note old = managerOK_records [OF assms failed(1)]
  with failed(2) have agent: "rc_agent rec = None" by (auto simp: recordOK_def)
  have adv: "advanced inp (opened rec m) c" by (rule advanced_connectAll [OF failed(4)]) simp
  note undone = rollback_fields [OF adv, simplified, OF agent, of act]
  have "managerOK (closed i (rollback act c) m)"
  proof (rule managerOK_replace [OF assms])
    show "recordOK i (cn_rec (rollback act c))"
      using old failed(2) undone(1-3) by (auto simp: recordOK_def schemasOf_def)
    show "serves tt g (cn_rec (rollback act c)) \<or> fmlookup (mn_router m) tt = Some g \<and>
        (\<forall>old. fmlookup (mn_addons m) i = Some old \<longrightarrow> \<not> serves tt g old)"
      if "fmlookup (cn_router (rollback act c)) tt = Some g" for tt g
      using undone(4) that failed(1) agent by (auto simp: serves_def router_deregistered split: if_splits)
  qed simp_all
  with failed show ?thesis by simp
next
  case (completed rec c)
  let ?rec = "setState AddonStateConnected (Some now) (cn_rec c)"
  note old = managerOK_records [OF assms completed(1)]
  with completed(2) have agent: "rc_agent rec = None" by (auto simp: recordOK_def)
  have adv: "advanced inp (opened rec m) c" by (rule advanced_connectAll [OF completed(4)]) simp
  have "managerOK (closed i (c\<lparr>cn_rec := ?rec\<rparr>) m)"
  proof (rule managerOK_replace [OF assms])
    have "rtServiceName rt = i" if "rt \<in> es_ResourceType ` set (co_Schemas inp)" for rt
      using that preflight_none [OF completed(3)] old by (auto simp: recordOK_def)
    then show "recordOK i ?rec"
      using old adv by (auto simp: recordOK_def advanced_def schemasOf_def)
    show "serves tt g ?rec \<or> fmlookup (mn_router m) tt = Some g \<and> (\<forall>old. fmlookup (mn_addons m) i = Some old \<longrightarrow> \<not> serves tt g old)"
      if "fmlookup (cn_router c) tt = Some g" for tt g
      using adv that completed(1) agent by (auto simp: advanced_def Let_def serves_def router_registered set_deliveryTypes split: if_splits)
  qed simp_all
  with completed show ?thesis by simp
qed

section \<open>Compensation in the store\<close>

text \<open>No infrastructure call fails and no other process commits.\<close>

definition quiet :: "world \<Rightarrow> bool" where
  "quiet w \<longleftrightarrow> w_faults w = (\<lambda>_. None) \<and> w_others w = []"

definition sameTargets :: "store \<Rightarrow> store \<Rightarrow> bool" where
  "sameTargets s s' \<longleftrightarrow> t_targets s' = t_targets s \<and> t_inventory s' = t_inventory s"

definition framed :: "store \<Rightarrow> world \<Rightarrow> bool" where
  "framed s v \<longleftrightarrow> quiet v \<and> sameTargets s (w_db v)"

definition framedTx :: "store \<Rightarrow> world \<Rightarrow> bool" where
  "framedTx s v \<longleftrightarrow> framed s v \<and> sameTargets s (w_tx v)"

abbreviation frames :: "store \<Rightarrow> 'x io \<Rightarrow> bool" where
  "frames s m \<equiv> triple (framed s) m (\<lambda>_. framed s) (\<lambda>_. framed s)"

lemma quiet_db [simp]: "quiet w \<Longrightarrow> dbAtBegin w = w_db w" "quiet w \<Longrightarrow> dbAtBegin (begun w) = w_db w"
  by (simp_all add: quiet_def dbAtBegin_def begun_def)

lemma frame_tx:
  "triple (framed s) (beginTx p) (\<lambda>_. framedTx s) (\<lambda>_. framed s)"
  "triple (framedTx s) (reads r) (\<lambda>_. framedTx s) (\<lambda>_. framed s)"
  "triple (framedTx s) Commit (\<lambda>_. framed s) (\<lambda>_. framed s)"
  "triple (framedTx s) EndReadOnly (\<lambda>_. framed s) (\<lambda>_. framed s)"
  by (rule tripleI; auto simp: beginTx_def reads_def Commit_def EndReadOnly_def infra_def wrap_def ret_def framedTx_def framed_def quiet_def
      dbAtBegin_def split: sum.splits)+

lemma frame_writes:
  "(\<And>u u'. f u = Inr u' \<Longrightarrow> sameTargets u u') \<Longrightarrow> triple (framedTx s) (writes f) (\<lambda>_. framedTx s) (\<lambda>_. framed s)"
  by (rule tripleI) (fastforce simp: writes_def infra_def framedTx_def framed_def quiet_def sameTargets_def split: sum.splits)

lemma types_same:
  "extCreateType def u = Inr u' \<Longrightarrow> sameTargets u u'" "extUpdateType def u = Inr u' \<Longrightarrow> sameTargets u u'"
  "extDeleteType rt u = Inr u' \<Longrightarrow> sameTargets u u'"
  by (auto simp: extCreateType_def extUpdateType_def extDeleteType_def sameTargets_def split: if_splits)

lemma frame_types:
  "frames s (typeServiceCreate now inp)" "frames s (typeServiceUpdate def)" "frames s (typeServiceGet rt)" "frames s (typeServiceDelete rt)"
  unfolding typeServiceCreate_def typeServiceUpdate_def typeServiceGet_def typeServiceDelete_def Begin_def Let_def
  by (auto intro!: triple_andThen [OF frame_tx(1)] triple_andThen [OF frame_writes] triple_andThen [OF triple_wrap [OF frame_tx(3)]]
      triple_andThen [OF frame_tx(2)] triple_andThen [OF frame_tx(4)] frame_tx triple_ret triple_throw dest: types_same
      split: option.split)

lemma frame_reconcile: "frames s (reconcileExistingTypeCapabilities now schema)"
  unfolding reconcileExistingTypeCapabilities_def Let_def
  by (rule triple_andThen [OF triple_wrap [OF frame_types(3)]])
    (auto intro!: triple_ret triple_throw triple_wrap frame_types)

text \<open>The schemas of a connection leave the targets alone.\<close>

lemma framed_onWorld:
  assumes "frames s m" "framed s (cn_world c)" "onWorld m c = (r, c')"
  shows "framed s (cn_world c')"
  using assms by (auto simp: onWorld_def triple_def split: prod.splits sum.splits)

lemma framed_bestEffort: "frames s m \<Longrightarrow> framed s (cn_world c) \<Longrightarrow> framed s (cn_world (bestEffort m c))"
  using framed_onWorld by (metis bestEffort_def prod.collapse)

lemma framed_teardown: "framed s (cn_world c) \<Longrightarrow> framed s (cn_world (teardownSchema act rt c))"
  by (auto simp: teardownSchema_def Let_def simp del: bestEffort_fields intro!: framed_bestEffort frame_types split: option.split)

lemma framed_teardowns: "framed s (cn_world c) \<Longrightarrow> framed s (cn_world (fold (teardownSchema act) rts c))"
  by (induction rts arbitrary: c) (auto intro: framed_teardown)

lemma addRegistration_fields [simp]:
  "cn_world (addRegistration rt c) = cn_world c"
  "cc_createdTargets (cn_comp (addRegistration rt c)) = cc_createdTargets (cn_comp c)"
  by (simp_all add: addRegistration_def)

lemma framed_registerSchema:
  assumes "registerSchema now schema c = (r, c')" "framed s (cn_world c)"
  shows "framed s (cn_world c') \<and> cc_createdTargets (cn_comp c') = cc_createdTargets (cn_comp c)"
proof -
  obtain r1 c1 where one: "onWorld (typeServiceCreate now (typeInput schema)) c = (r1, c1)" by fastforce
  obtain r2 c2 where two: "onWorld (reconcileExistingTypeCapabilities now schema) c1 = (r2, c2)" by fastforce
  have f1: "framed s (cn_world c1)" using framed_onWorld [OF frame_types(1) assms(2) one] .
  have f2: "framed s (cn_world c2)" using framed_onWorld [OF frame_reconcile f1 two] .
  have "cn_comp c1 = cn_comp c" "cn_comp c2 = cn_comp c" using one two by (auto simp: onWorld_eq)
  with f1 f2 one two assms(1) show ?thesis
    by (auto simp: registerSchema_def Let_def split: sum.splits if_splits)
qed

lemma activateSchema_fields:
  "activateSchema act schema c = (r, c') \<Longrightarrow> cn_world c' = cn_world c \<and> cc_createdTargets (cn_comp c') = cc_createdTargets (cn_comp c)"
  by (auto simp: activateSchema_def Let_def split: prod.splits sum.splits)

lemma framed_connectSchema:
  assumes "connectSchema act now schema c = (r, c')" "framed s (cn_world c)"
  shows "framed s (cn_world c') \<and> cc_createdTargets (cn_comp c') = cc_createdTargets (cn_comp c)"
proof -
  obtain r1 c1 where one: "registerSchema now schema c = (r1, c1)" by fastforce
  obtain r2 c2 where two: "activateSchema act schema c1 = (r2, c2)" by fastforce
  from framed_registerSchema [OF one assms(2)] activateSchema_fields [OF two] one two assms(1) show ?thesis
    by (auto simp: connectSchema_def split: sum.splits if_splits)
qed

lemma framed_connectEach:
  "connectEach act now schemas c = (r, c') \<Longrightarrow> framed s (cn_world c) \<Longrightarrow>
     framed s (cn_world c') \<and> cc_createdTargets (cn_comp c') = cc_createdTargets (cn_comp c)"
proof (induction schemas arbitrary: c)
  case (Cons schema schemas)
  obtain r1 c1 where one: "connectSchema act now schema c = (r1, c1)" by fastforce
  from framed_connectSchema [OF one Cons.prems(2)] Cons.prems(1) Cons.IH [of c1] one show ?case
    by (auto split: sum.splits)
qed simp

text \<open>Two stores with the same answers about targets, and the removal of targets again.\<close>

definition alike :: "store \<Rightarrow> store \<Rightarrow> bool" where
  "alike s s' \<longleftrightarrow> (\<forall>j. targetsGet j s' = targetsGet j s) \<and> (\<forall>k. inventoryGet k s' = inventoryGet k s)"

lemma alike_refl [simp]: "alike s s"
  by (simp add: alike_def)

lemma alike_trans: "alike a b \<Longrightarrow> alike b c \<Longrightarrow> alike a c"
  by (simp add: alike_def)

lemma sameTargets_alike: "sameTargets s s' \<Longrightarrow> alike s s'"
  by (simp add: sameTargets_def alike_def targetsGet_def inventoryGet_def targetRow_def inventoryRow_def)

lemma alike_deregistered: "alike s s' \<Longrightarrow> alike (deregistered i s) (deregistered i s')"
  by (simp add: alike_def get_deregistered)

lemma alike_registered: "registered now t s s' \<Longrightarrow> alike s (deregistered (ti_id t) s')"
  by (simp add: alike_def deregister_registered)

lemma Deregister_quiet:
  assumes "quiet w"
  shows "\<exists>v. Deregister i w = (Inr (), v) \<and> quiet v \<and> w_db v = deregistered i (w_db w)"
  using assms drop_missing(1) [of i "w_db w"] drop_missing(2) [of "''target:'' @ i" "dropTarget i (w_db w)"] drop_missing(2) [of "''target:'' @ i" "w_db w"]
  by (simp add: Deregister_def Begin_def beginTx_def unlessNotFound_def caught_def andThen_def wrap_def infra_def writes_def Commit_def
      ret_def quiet_def dbAtBegin_def targetsDelete_def inventoryDelete_def noRow_def deregistered_def split: if_splits)

abbreviation silent :: "'x io \<Rightarrow> bool" where
  "silent m \<equiv> triple quiet m (\<lambda>_. quiet) (\<lambda>_. quiet)"

lemma silent_rules:
  "silent (beginTx p)" "silent (reads f)" "silent (writes g)" "silent Commit" "silent EndReadOnly" "silent (ret x)" "silent (throw e)"
  by (rule tripleI; auto simp: beginTx_def reads_def writes_def Commit_def EndReadOnly_def infra_def wrap_def ret_def throw_def quiet_def
      split: sum.splits)+

lemma silent_andThen: "silent m \<Longrightarrow> (\<And>x. silent (k x)) \<Longrightarrow> silent (andThen m k)"
  by (rule triple_andThen)

lemma silent_caught: "silent m \<Longrightarrow> silent (caught m)"
  by (rule triple_caught) simp

lemma silent_wrap: "silent m \<Longrightarrow> silent (wrap p m)"
  by (rule triple_wrap) simp

lemma silent_RegisterOrVerify: "silent (RegisterOrVerify now t)"
  unfolding RegisterOrVerify_def targetServiceRegister_def registrarRegister_def verifyTarget_def required_def Begin_def Let_def
  by (auto intro!: silent_andThen silent_caught silent_wrap silent_rules split: sum.split option.split)

lemma RegisterOrVerify_quiet:
  assumes "quiet w" "RegisterOrVerify now t w = (r, v)"
  shows "quiet v" "if r = Inr True then registered now t (w_db w) (w_db v) else w_db v = w_db w"
proof -
  show "quiet v" using silent_RegisterOrVerify [of now t] assms by (cases r) (auto dest: tripleD_Inr tripleD_Inl)
  have "answered now t w b v" if "r = Inr b" for b
    using tripleD_Inr [OF RegisterOrVerify_triple at_refl] assms(2) that by blast
  moreover have "w_db v \<in> {w_db w, dbAtBegin w, dbAtBegin (begun w)}" if "r = Inl e" for e
    using tripleD_Inl [OF RegisterOrVerify_triple at_refl] assms(2) that by blast
  ultimately show "if r = Inr True then registered now t (w_db w) (w_db v) else w_db v = w_db w"
    using assms(1) by (cases r) (auto simp: answered_def split: if_splits)
qed

text \<open>The targets a connection has created, removed in reverse order, were all it had added.\<close>

lemma connectTargets_undone:
  "connectTargets now ts c = (r, c') \<Longrightarrow> quiet (cn_world c) \<Longrightarrow>
     quiet (cn_world c') \<and> (\<exists>ids. cc_createdTargets (cn_comp c') = cc_createdTargets (cn_comp c) @ ids \<and>
       alike (w_db (cn_world c)) (fold deregistered (rev ids) (w_db (cn_world c'))))"
proof (induction ts arbitrary: c)
  case Nil
  then show ?case by (auto intro: exI [where x = "[]"])
next
  case (Cons t ts)
  obtain r1 w where one: "RegisterOrVerify now t (cn_world c) = (r1, w)" by fastforce
  then have on: "onWorld (RegisterOrVerify now t) c = (r1, c\<lparr>cn_world := w\<rparr>)" by (simp add: onWorld_def)
  note reg = RegisterOrVerify_quiet [OF Cons.prems(2) one]
  let ?next = "\<lambda>cc. connectTargets now ts cc = (r, c')"
  let ?more = "c\<lparr>cn_world := w, cn_comp := (cn_comp c)\<lparr>cc_createdTargets := cc_createdTargets (cn_comp c) @ [ti_id t]\<rparr>\<rparr>"
  from Cons.prems(1) on consider (failed) e where "r1 = Inl e" "c' = c\<lparr>cn_world := w\<rparr>"
    | (found) "r1 = Inr False" "?next (c\<lparr>cn_world := w\<rparr>)" | (created) "r1 = Inr True" "?next ?more"
    by (cases r1) (auto split: if_splits)
  then show ?case
  proof cases
    case failed
    with reg show ?thesis by (auto intro: exI [where x = "[]"])
  next
    case found
    with reg Cons.IH [OF found(2)] show ?thesis by simp
  next
    case created
    with reg have w: "registered now t (w_db (cn_world c)) (w_db w)" by simp
    from Cons.IH [OF created(2)] reg(1) obtain ids where ids: "quiet (cn_world c')"
        "cc_createdTargets (cn_comp c') = cc_createdTargets (cn_comp c) @ ti_id t # ids"
        "alike (w_db w) (fold deregistered (rev ids) (w_db (cn_world c')))" by auto
    from alike_trans [OF alike_registered [OF w] alike_deregistered [OF ids(3)]]
    have "alike (w_db (cn_world c)) (fold deregistered (rev (ti_id t # ids)) (w_db (cn_world c')))" by simp
    with ids show ?thesis by blast
  qed
qed

lemma bestEfforts_deregister:
  "quiet (cn_world c) \<Longrightarrow>
     quiet (cn_world (fold (\<lambda>i. bestEffort (Deregister i)) ids c)) \<and>
     w_db (cn_world (fold (\<lambda>i. bestEffort (Deregister i)) ids c)) = fold deregistered ids (w_db (cn_world c))"
proof (induction ids arbitrary: c)
  case (Cons i ids)
  from Deregister_quiet [OF Cons.prems, of i] have "quiet (cn_world (bestEffort (Deregister i) c))"
      "w_db (cn_world (bestEffort (Deregister i) c)) = deregistered i (w_db (cn_world c))" by auto
  with Cons.IH show ?case by simp
qed simp

lemma framed_deletes:
  "framed s (cn_world c) \<Longrightarrow> framed s (cn_world (fold (\<lambda>rt. bestEffort (typeServiceDelete rt)) rts c))"
  by (induction rts arbitrary: c) (auto simp del: bestEffort_fields intro: framed_bestEffort frame_types)

lemma rollback_targets:
  assumes "connectAll act now ord inp c = (r, c')" "cn_comp c = noCompensation" "quiet (cn_world c)"
  shows "alike (w_db (cn_world c)) (w_db (cn_world (rollback act c')))"
proof -
  let ?s = "w_db (cn_world c)"
  have c: "framed ?s (cn_world c)" using assms(3) by (simp add: framed_def sameTargets_def)
  obtain r1 c1 where schemas: "connectSchemas act now ord (co_Schemas inp) c = (r1, c1)" by fastforce
  from framed_connectEach [OF schemas [unfolded connectSchemas_def] framed_teardowns [OF c]]
  have c1: "framed ?s (cn_world c1)" "cc_createdTargets (cn_comp c1) = []"
    by (simp_all add: teardowns(3) assms(2) noCompensation_def)
  let ?c2 = "connectDeliveryAgent (co_Agent inp) c1"
  have c2: "cn_world ?c2 = cn_world c1" "cc_createdTargets (cn_comp ?c2) = []"
    using c1(2) by (simp_all add: connectDeliveryAgent_def fold_registerAgent split: option.split)
  have q: "quiet (cn_world c1)" and like: "alike ?s (w_db (cn_world c1))"
    using c1(1) by (auto simp: framed_def intro: sameTargets_alike)
  have "quiet (cn_world c') \<and> alike (w_db (cn_world c1)) (fold deregistered (rev (cc_createdTargets (cn_comp c'))) (w_db (cn_world c')))"
  proof (cases r1)
    case (Inl e)
    with assms(1) schemas have "c' = c1" by (simp add: connectAll_def)
    with q c1(2) show ?thesis by simp
  next
    case (Inr u)
    with assms(1) schemas have "connectTargets now (co_Targets inp) ?c2 = (r, c')" by (simp add: connectAll_def)
    from connectTargets_undone [OF this] q show ?thesis by (auto simp: c2)
  qed
  then have q': "quiet (cn_world c')" and restored: "alike ?s (fold deregistered (rev (cc_createdTargets (cn_comp c'))) (w_db (cn_world c')))"
    using alike_trans [OF like] by blast+
  note gone = bestEfforts_deregister [OF q', of "rev (cc_createdTargets (cn_comp c'))"]
  have "framed (fold deregistered (rev (cc_createdTargets (cn_comp c'))) (w_db (cn_world c'))) (cn_world (rollback act c'))"
    unfolding rollback_def Let_def by (rule framed_deletes) (use gone in \<open>simp add: framed_def sameTargets_def\<close>)
  then show ?thesis using alike_trans [OF restored sameTargets_alike] by (simp add: framed_def)
qed

section \<open>Properties\<close>

lemma managed_ok: "managed act m \<Longrightarrow> managerOK m"
proof (induction rule: managed.induct)
  case (start a w)
  show ?case by (simp add: managerOK_def NewAddonManager_def)
next
  case (elsewhere m w)
  then show ?case by (simp add: managerOK_def)
qed (simp_all add: Enable_ok Connect_ok Disconnect_ok Disable_ok)

definition sampleActivator :: "nat SchemaActivator" where
  "sampleActivator = \<lparr>ac_Activate = (\<lambda>schema n. (Inr (es_ProtoPackage schema), Suc n)), ac_Deactivate = (\<lambda>_ n. n - 1)\<rparr>"

definition sampleDescriptor :: AddonDescriptor where
  "sampleDescriptor = \<lparr>ds_ID = ''kind.io'', ds_Name = ''Kind'', ds_Capabilities = [DeliveryCapability ''kind'']\<rparr>"

definition sampleEnabled :: "(nat, nat) AddonManager" where
  "sampleEnabled = snd (Enable 3 sampleDescriptor (NewAddonManager 0 (calmWorld emptyStore)))"

definition sampleAgent :: "TargetInfo list \<Rightarrow> nat ConnectInput" where
  "sampleAgent ts = \<lparr>co_Agent = Some 7, co_Targets = ts, co_Schemas = []\<rparr>"

definition sampleConnected :: "(nat, nat) AddonManager" where
  "sampleConnected = snd (Connect sampleActivator 5 [] ''kind.io'' (sampleAgent []) sampleEnabled)"

lemma sampleEnabled_eq:
  "sampleEnabled = \<lparr>mn_addons = fmupd ''kind.io'' \<lparr>rc_addon = \<lparr>ad_ID = ''kind.io'', ad_Name = ''Kind'', ad_State = AddonStateEnabled,
       ad_Capabilities = [DeliveryCapability ''kind''], ad_EnabledAt = 3, ad_ConnectedAt = None\<rparr>, rc_agent = None, rc_registeredSchemas = fmempty\<rparr> fmempty,
     mn_router = fmempty, mn_active = 0, mn_world = calmWorld emptyStore\<rparr>"
  by (simp add: sampleEnabled_def Enable_def sampleDescriptor_def NewAddonManager_def putRecord_def)

lemma managed_sampleEnabled: "managed sampleActivator sampleEnabled"
  unfolding sampleEnabled_def by (intro managed.intros)

lemmas sample_run = sampleEnabled_eq sampleAgent_def Connect_def connectAll_def connectSchemas_def staleSchemas_def iterated_def
  connectDeliveryAgent_def opened_def closed_def setState_def routerRegister_def

text \<open>
  C35: in every state the manager can reach, an addon is recorded under its own identifier, it declares and
  has registered only resource types of its own service, it holds a delivery agent only while it is
  connected, it has a time of connection exactly while it is connected, and it has no
  registered schemas once disabled; and the router sends a target type only to the agent of a
  connected addon that declares this type.
\<close>

theorem addon_manager_invariant:
  assumes "managed act m"
  shows "(\<forall>i rec. fmlookup (mn_addons m) i = Some rec \<longrightarrow> recordOK i rec) \<and>
    (\<forall>tt g. agentFor tt (mn_router m) = Inr g \<longrightarrow>
       (\<exists>i rec. fmlookup (mn_addons m) i = Some rec \<and> rc_agent rec = Some g \<and> ad_State (rc_addon rec) = AddonStateConnected \<and>
          DeliveryCapability tt \<in> set (ad_Capabilities (rc_addon rec))))"
proof -
  have ok: "managerOK m" by (rule managed_ok [OF assms])
  then have "\<exists>i rec. fmlookup (mn_addons m) i = Some rec \<and> rc_agent rec = Some g \<and> ad_State (rc_addon rec) = AddonStateConnected \<and>
      DeliveryCapability tt \<in> set (ad_Capabilities (rc_addon rec))" if "agentFor tt (mn_router m) = Inr g" for tt g
  proof -
    from ok that obtain i rec where rec: "fmlookup (mn_addons m) i = Some rec" "serves tt g rec" unfolding managerOK_def by blast
    with managerOK_records [OF ok rec(1)] show ?thesis by (auto simp: serves_def recordOK_def)
  qed
  with ok show ?thesis unfolding managerOK_def by blast
qed

theorem addon_manager_invariant_witness:
  "agentFor ''kind'' (mn_router sampleConnected) = Inr 7 \<and>
   (\<exists>i rec. fmlookup (mn_addons sampleConnected) i = Some rec \<and> rc_agent rec = Some 7 \<and> ad_State (rc_addon rec) = AddonStateConnected \<and>
      DeliveryCapability ''kind'' \<in> set (ad_Capabilities (rc_addon rec)))"
proof -
  have "managed sampleActivator sampleConnected"
    unfolding sampleConnected_def by (intro managed.intros managed_sampleEnabled)
  note inv = addon_manager_invariant [OF this]
  have "agentFor ''kind'' (mn_router sampleConnected) = Inr 7"
    by (simp add: sampleConnected_def sample_run)
  with inv show ?thesis by blast
qed

text \<open>
  C36: a connection that fails is compensated. No addon's data change, the other addons' records are
  untouched, the addon has no agent it did not have before and no registration of a schema it did not
  have before, the router at most lost entries for target types the addon declares, and
  if no infrastructure call fails and no other process commits meanwhile, the targets and the
  inventory are read as before the call.
\<close>

theorem failed_connect_compensated:
  assumes "managed act m" "Connect act now ord i inp m = (Inl e, m')"
  shows "(\<forall>j. GetAddon j m' = GetAddon j m) \<and>
    (\<forall>j. j \<noteq> i \<longrightarrow> fmlookup (mn_addons m') j = fmlookup (mn_addons m) j) \<and>
    (\<forall>rec rec'. fmlookup (mn_addons m) i = Some rec \<and> fmlookup (mn_addons m') i = Some rec' \<longrightarrow>
       rc_agent rec' = rc_agent rec \<and> fmdom (rc_registeredSchemas rec') |\<subseteq>| fmdom (rc_registeredSchemas rec) \<and>
       (\<forall>tt. fmlookup (mn_router m') tt = fmlookup (mn_router m) tt \<or>
          fmlookup (mn_router m') tt = None \<and> DeliveryCapability tt \<in> set (ad_Capabilities (rc_addon rec)))) \<and>
    (quiet (mn_world m) \<longrightarrow>
       (\<forall>j. targetsGet j (w_db (mn_world m')) = targetsGet j (w_db (mn_world m))) \<and>
       (\<forall>k. inventoryGet k (w_db (mn_world m')) = inventoryGet k (w_db (mn_world m))))"
proof (cases rule: Connect_cases [of act now ord i inp m])
  case (refused e')
  with assms(2) show ?thesis by auto
next
  case (failed rec e' c)
  with assms(2) have m': "m' = closed i (rollback act c) m" by simp
  from managerOK_records [OF managed_ok [OF assms(1)] failed(1)] failed(2) have agent: "rc_agent rec = None"
    by (auto simp: recordOK_def)
  have "advanced inp (opened rec m) c" by (rule advanced_connectAll [OF failed(4)]) simp
  note undone = rollback_fields [OF this, simplified, OF agent, of act]
  have targets: "alike (w_db (mn_world m)) (w_db (mn_world m'))" if "quiet (mn_world m)"
    using rollback_targets [OF failed(4)] that by (simp add: m')
  show ?thesis
    using failed(1) undone agent targets
    by (auto simp: m' GetAddon_def schemasOf_def router_deregistered set_deliveryTypes less_eq_fset.rep_eq alike_def split: if_splits)
qed (use assms(2) in simp)

theorem failed_connect_compensated_witness:
  "\<exists>e m'. Connect sampleActivator 5 [] ''kind.io'' (sampleAgent [NewTargetInfo '''' ''kind'' ''t'' '''' fmempty fmempty []]) sampleEnabled = (Inl e, m') \<and>
     GetAddon ''kind.io'' m' = GetAddon ''kind.io'' sampleEnabled \<and> targetsGet ''t'' (w_db (mn_world m')) = notFound"
proof -
  let ?inp = "sampleAgent [NewTargetInfo '''' ''kind'' ''t'' '''' fmempty fmempty []]"
  have "\<exists>e m'. Connect sampleActivator 5 [] ''kind.io'' ?inp sampleEnabled = (Inl e, m')"
    by (simp add: sample_run onWorld_def RegisterOrVerify_def targetServiceRegister_def registrarRegister_def caught_def andThen_def throw_def
        invalidArgument_def Begin_def beginTx_def wrap_def infra_def calmWorld_def NewTargetInfo_def)
  then obtain e m' where run: "Connect sampleActivator 5 [] ''kind.io'' ?inp sampleEnabled = (Inl e, m')" by blast
  have "quiet (mn_world sampleEnabled)" "targetsGet ''t'' (w_db (mn_world sampleEnabled)) = notFound"
    by (simp_all add: sampleEnabled_eq quiet_def calmWorld_def emptyStore_def targetsGet_def targetRow_def)
  with failed_connect_compensated [OF managed_sampleEnabled run] run show ?thesis by metis
qed

text \<open>Every provided schema of a successful connection is registered.\<close>

lemma connectEach_registers:
  "connectEach act now schemas c = (Inr u, c') \<Longrightarrow> es_ResourceType ` set schemas \<subseteq> fset (fmdom (schemasOf c'))"
proof (induction schemas arbitrary: c)
  case (Cons schema schemas)
  obtain r1 c1 where one: "connectSchema act now schema c = (r1, c1)" by fastforce
  with Cons.prems have r1: "r1 = Inr ()" and rest: "connectEach act now schemas c1 = (Inr u, c')" by (auto split: sum.splits)
  obtain r2 c2 where reg: "registerSchema now schema c = (r2, c2)" by fastforce
  have "es_ResourceType schema |\<in>| fmdom (schemasOf c1)"
  proof -
    from one r1 reg have r2: "r2 = Inr ()" by (auto simp: connectSchema_def split: sum.splits)
    note there = grown_register(2) [OF reg r2]
    have "grown {} c2 c1"
      using one r1 reg r2 grown_activate [OF _ there] by (auto simp: connectSchema_def grown_refl split: if_splits prod.splits sum.splits)
    with there show ?thesis by (auto simp: grown_def)
  qed
  moreover have "fset (fmdom (schemasOf c1)) \<subseteq> fset (fmdom (schemasOf c'))"
    using grown_connectEach [OF rest] by (auto simp: grown_def)
  ultimately show ?case using Cons.IH [OF rest] by auto
qed simp

lemma connectAll_completed:
  assumes "connectAll act now ord inp c = (Inr u, c')" "cn_comp c = noCompensation"
  shows "fset (fmdom (schemasOf c')) = es_ResourceType ` set (co_Schemas inp)"
    and "fmlookup (cn_router c') tt =
      (case co_Agent inp of
         Some g \<Rightarrow> if DeliveryCapability tt \<in> set (ad_Capabilities (rc_addon (cn_rec c))) then Some g else fmlookup (cn_router c) tt
       | None \<Rightarrow> fmlookup (cn_router c) tt)"
proof -
  obtain r1 c1 where schemas: "connectSchemas act now ord (co_Schemas inp) c = (r1, c1)" by fastforce
  with assms(1) have r1: "r1 = Inr ()"
    and targets: "connectTargets now (co_Targets inp) (connectDeliveryAgent (co_Agent inp) c1) = (Inr u, c')"
    by (auto simp: connectAll_def split: sum.splits)
  note same = connectTargets_fields [OF targets]
  have "schemasOf c' = schemasOf c1"
    using same by (auto simp: schemasOf_def connectDeliveryAgent_def fold_registerAgent split: option.splits)
  with connectEach_registers [OF schemas [unfolded connectSchemas_def r1]] advanced_connectAll [OF assms]
  show "fset (fmdom (schemasOf c')) = es_ResourceType ` set (co_Schemas inp)"
    by (auto simp: advanced_def)
  from advanced_schemas(2) [OF schemas assms(2)] have "cn_router c1 = cn_router c" "rc_addon (cn_rec c1) = rc_addon (cn_rec c)"
    by (simp_all add: kept_def)
  with same show "fmlookup (cn_router c') tt =
      (case co_Agent inp of
         Some g \<Rightarrow> if DeliveryCapability tt \<in> set (ad_Capabilities (rc_addon (cn_rec c))) then Some g else fmlookup (cn_router c) tt
       | None \<Rightarrow> fmlookup (cn_router c) tt)"
    by (auto simp: connectDeliveryAgent_def fold_registerAgent router_registered set_deliveryTypes split: option.split)
qed

text \<open>
  C37: a connection that succeeds establishes what it was asked for. The addon was enabled and is connected
  from now on, its registered schemas are exactly those provided (stale ones are gone), and if an
  agent was given it serves exactly the target types the addon declares, the routes of all others
  being as before; the other addons' records are untouched.
\<close>

theorem connect_establishes:
  assumes "managed act m" "Connect act now ord i inp m = (Inr (), m')"
  shows "\<exists>rec rec'. fmlookup (mn_addons m) i = Some rec \<and> mn_addons m' = fmupd i rec' (mn_addons m) \<and>
    ad_State (rc_addon rec) = AddonStateEnabled \<and>
    rc_addon rec' = (rc_addon rec)\<lparr>ad_State := AddonStateConnected, ad_ConnectedAt := Some now\<rparr> \<and>
    fset (fmdom (rc_registeredSchemas rec')) = es_ResourceType ` set (co_Schemas inp) \<and>
    (\<forall>tt. agentFor tt (mn_router m') =
       (case co_Agent inp of
          Some g \<Rightarrow> if DeliveryCapability tt \<in> set (ad_Capabilities (rc_addon rec)) then Inr g else agentFor tt (mn_router m)
        | None \<Rightarrow> agentFor tt (mn_router m)))"
proof (cases rule: Connect_cases [of act now ord i inp m])
  case (completed rec c)
  let ?rec = "setState AddonStateConnected (Some now) (cn_rec c)"
  have m': "m' = closed i (c\<lparr>cn_rec := ?rec\<rparr>) m" using completed(5) assms(2) by simp
  have adv: "advanced inp (opened rec m) c" by (rule advanced_connectAll [OF completed(4)]) simp
  have addon: "rc_addon (cn_rec c) = rc_addon rec" using adv by (simp add: advanced_def)
  have dom: "fset (fmdom (rc_registeredSchemas (cn_rec c))) = es_ResourceType ` set (co_Schemas inp)"
    using connectAll_completed(1) [OF completed(4)] by (simp add: schemasOf_def)
  have router: "agentFor tt (cn_router c) =
       (case co_Agent inp of
          Some g \<Rightarrow> if DeliveryCapability tt \<in> set (ad_Capabilities (rc_addon rec)) then Inr g else agentFor tt (mn_router m)
        | None \<Rightarrow> agentFor tt (mn_router m))" for tt
    using connectAll_completed(2) [OF completed(4), of tt] by (auto simp: agentFor_def split: option.splits)
  show ?thesis
    by (rule exI [of _ rec], rule exI [of _ ?rec]) (use completed addon dom router in \<open>simp add: m'\<close>)
qed (use assms(2) in simp_all)

theorem connect_establishes_witness:
  "\<exists>m'. Connect sampleActivator 5 [] ''kind.io'' (sampleAgent []) sampleEnabled = (Inr (), m') \<and>
     agentFor ''kind'' (mn_router m') = Inr 7"
proof -
  have "\<exists>m'. Connect sampleActivator 5 [] ''kind.io'' (sampleAgent []) sampleEnabled = (Inr (), m')"
    by (simp add: sample_run)
  then obtain m' where run: "Connect sampleActivator 5 [] ''kind.io'' (sampleAgent []) sampleEnabled = (Inr (), m')" by blast
  from connect_establishes [OF managed_sampleEnabled run] have "agentFor ''kind'' (mn_router m') = Inr 7"
    by (auto simp: sampleEnabled_eq sampleAgent_def simp del: agentFor_Inr)
  with run show ?thesis by blast
qed

text \<open>
  Disconnecting does not look at the state: an addon that was disabled is enabled by it again, with the
  capabilities it had and without \<open>Enable\<close>.
\<close>

lemma disconnect_enables:
  assumes "fmlookup (mn_addons m) i = Some rec"
  shows "\<exists>m' rec'. Disconnect i m = (Inr (), m') \<and> fmlookup (mn_addons m') i = Some rec' \<and>
    rc_addon rec' = (rc_addon rec)\<lparr>ad_State := AddonStateEnabled, ad_ConnectedAt := None\<rparr>"
  using assms by (simp add: Disconnect_def Let_def dropAgent_fields)

end
