(* ===== verification/FS_Enrollment.thy ===== *)
theory FS_Enrollment
  imports FS_Workflows
begin

text \<open>
  Authentication methods and signer enrollments: the repositories
  (\<^verbatim>\<open>sqlite/auth_method_repo.go\<close>, \<^verbatim>\<open>signer_enrollment_repo.go\<close>), the workflow that
  provisions an identity provider (\<^verbatim>\<open>domain/provision_idp.go\<close>) and the services in front of
  them (\<^verbatim>\<open>application/auth_method_service.go\<close>, \<^verbatim>\<open>signing_key_service.go\<close>). The
  discovery client and the token verifier are parameters, which answer by the number of the call;
  the columns of a meth hold the decoded configuration.
\<close>

section \<open>The repository of authentication methods\<close>

text \<open>A statement outside of a transaction: it runs on what is committed and is committed at once.\<close>

definition statement :: "(store \<Rightarrow> 'a \<times> store) \<Rightarrow> 'a io" where
  "statement f = infra (\<lambda>w. case f (dbAtBegin w) of (x, s) \<Rightarrow> (Inr x, w\<lparr>w_db := s, w_others := tl (w_others w)\<rparr>))"

definition fromResult :: "'a result \<Rightarrow> 'a io" where
  "fromResult r = (case r of Inl e \<Rightarrow> throw e | Inr x \<Rightarrow> ret x)"

definition AuthMethodTypeOIDC :: string where
  "AuthMethodTypeOIDC = ''oidc''"

definition zeroConfig :: OIDCConfig where
  "zeroConfig = \<lparr>oi_IssuerURL = '''', oi_Audience = '''', oi_JWKSURI = '''', oi_AuthorizationEndpoint = '''', oi_TokenEndpoint = '''',
     oi_KeyEnrollmentAudience = '''', oi_PublicKeyClaimExpression = '''', oi_RegistrySubjectMapping = None\<rparr>"

text \<open>A missing configuration is written as \<^verbatim>\<open>null\<close> and read as the zero value.\<close>

definition storedMethod :: "AuthMethod \<Rightarrow> AuthMethod" where
  "storedMethod m = m\<lparr>am_oidcConfig := Some (case am_oidcConfig m of None \<Rightarrow> zeroConfig | Some c \<Rightarrow> c)\<rparr>"

definition putMethod :: "AuthMethod \<Rightarrow> store \<Rightarrow> store" where
  "putMethod m s = s\<lparr>t_authMethods := upsertRow am_id (\<lambda>_ r. r) (storedMethod m) (t_authMethods s)\<rparr>"

definition unknownMethodType :: "string \<Rightarrow> error" where
  "unknownMethodType ty = Plain (''unknown auth method type: '' @ ty)"

definition methodsSave :: "AuthMethod \<Rightarrow> unit io" where
  "methodsSave m =
     (if am_authType m \<noteq> AuthMethodTypeOIDC then throw (unknownMethodType (am_authType m))
      else wrap ''save auth method: '' (statement (\<lambda>s. ((), putMethod m s))))"

fun scanMethods :: "AuthMethod list \<Rightarrow> AuthMethod list result" where
  "scanMethods [] = Inr []"
| "scanMethods (m # ms) =
     (if am_authType m \<noteq> AuthMethodTypeOIDC then Inl (unknownMethodType (am_authType m))
      else case scanMethods ms of Inl e \<Rightarrow> Inl e | Inr rest \<Rightarrow> Inr (m # rest))"

definition methodsGet :: "string \<Rightarrow> AuthMethod io" where
  "methodsGet i =
     andThen (wrap ''scan auth method: '' (statement (\<lambda>s. (getRow am_id i (t_authMethods s), s)))) (\<lambda>r.
     case r of
       None \<Rightarrow> fromResult notFound
     | Some m \<Rightarrow> if am_authType m \<noteq> AuthMethodTypeOIDC then throw (unknownMethodType (am_authType m)) else ret m)"

definition methodsList :: "AuthMethod list io" where
  "methodsList =
     andThen (wrap ''list auth methods: '' (statement (\<lambda>s. (t_authMethods s, s)))) (\<lambda>rows. fromResult (scanMethods rows))"

section \<open>Provisioning an identity provider\<close>

record OIDCMetadata =
  md_Issuer :: IssuerURL
  md_AuthorizationEndpoint :: string
  md_TokenEndpoint :: string
  md_JWKSURI :: string

record TrustBundleEntry =
  tb_IssuerURL :: IssuerURL
  tb_JWKSURI :: string
  tb_EnrollmentAudience :: Audience
  tb_PublicKeyClaimExpression :: string
  tb_RegistrySubjectMapping :: "RegistrySubjectMapping option"

type_synonym discovery = "nat \<Rightarrow> IssuerURL \<Rightarrow> OIDCMetadata result"

definition FetchMetadata :: "discovery \<Rightarrow> IssuerURL \<Rightarrow> OIDCMetadata io" where
  "FetchMetadata disc url w = (disc (w_step w) url, w\<lparr>w_step := Suc (w_step w)\<rparr>)"

definition NewOIDCAuthMethod :: "string \<Rightarrow> OIDCConfig option \<Rightarrow> AuthMethod" where
  "NewOIDCAuthMethod i config = \<lparr>am_id = i, am_authType = AuthMethodTypeOIDC, am_oidcConfig = config\<rparr>"

definition Validate :: "AuthMethod \<Rightarrow> error option" where
  "Validate m =
     (if am_authType m = AuthMethodTypeOIDC
      then (if am_oidcConfig m = None then Some (Sentinel ErrInvalidArgument) else None)
      else Some (Sentinel ErrInvalidArgument))"

definition resolved :: "OIDCMetadata \<Rightarrow> OIDCConfig \<Rightarrow> OIDCConfig" where
  "resolved meta c = c\<lparr>oi_JWKSURI := md_JWKSURI meta, oi_AuthorizationEndpoint := md_AuthorizationEndpoint meta,
     oi_TokenEndpoint := md_TokenEndpoint meta\<rparr>"

record ProvisionIdPInput =
  pi_AuthMethodID :: string
  pi_AuthMethod :: AuthMethod

definition ResolveAndPersist :: "discovery \<Rightarrow> ProvisionIdPInput \<Rightarrow> AuthMethod io" where
  "ResolveAndPersist disc inp =
     (let meth = NewOIDCAuthMethod (pi_AuthMethodID inp) (am_oidcConfig (pi_AuthMethod inp))
      in case Validate meth of
           Some e \<Rightarrow> throw (invalidArgument (errorText e))
         | None \<Rightarrow>
             (case am_oidcConfig meth of
                None \<Rightarrow> throw (invalidArgument ''issuer_url is required'')
              | Some config \<Rightarrow>
                  if oi_IssuerURL config = '''' then throw (invalidArgument ''issuer_url is required'')
                  else andThen (wrap ''fetch OIDC discovery: '' (FetchMetadata disc (oi_IssuerURL config))) (\<lambda>meta.
                       let meth' = meth\<lparr>am_oidcConfig := Some (resolved meta config)\<rparr>
                       in andThen (wrap ''save auth method: '' (methodsSave meth')) (\<lambda>_. ret meth'))))"

definition trustBundleEntry :: "OIDCConfig \<Rightarrow> TrustBundleEntry" where
  "trustBundleEntry c =
     \<lparr>tb_IssuerURL = oi_IssuerURL c, tb_JWKSURI = oi_JWKSURI c, tb_EnrollmentAudience = oi_KeyEnrollmentAudience c,
      tb_PublicKeyClaimExpression = oi_PublicKeyClaimExpression c, tb_RegistrySubjectMapping = oi_RegistrySubjectMapping c\<rparr>"

definition marshalTrustBundleEntry :: "TrustBundleEntry \<Rightarrow> json" where
  "marshalTrustBundleEntry t =
     JObject ([(''issuer_url'', JString (tb_IssuerURL t)), (''jwks_uri'', JString (tb_JWKSURI t)),
        (''enrollment_audience'', JString (tb_EnrollmentAudience t))] @
       (if tb_PublicKeyClaimExpression t = '''' then []
        else [(''public_key_claim_expression'', JString (tb_PublicKeyClaimExpression t))]) @
       (case tb_RegistrySubjectMapping t of
          None \<Rightarrow> []
        | Some m \<Rightarrow> [(''registry_subject_mapping'',
            JObject [(''RegistryID'', JString (rm_RegistryID m)), (''Expression'', JString (rm_Expression m))])]))"

definition TrustBundleManifestType :: ManifestType where
  "TrustBundleManifestType = ''idp-trust-bundle''"

definition trustBundleInput :: "PlacementStrategySpec \<Rightarrow> string \<Rightarrow> OIDCConfig \<Rightarrow> CreateDeploymentInput" where
  "trustBundleInput placement i c =
     \<lparr>ci_Name = ''deployments/idp-trust-'' @ i,
      ci_ManifestStrategy =
        \<lparr>ms_Type = ManifestStrategyInline,
         ms_Manifests = [\<lparr>mf_type = TrustBundleManifestType, mf_id = '''',
            mf_raw = encodeJSON (marshalTrustBundleEntry (trustBundleEntry c))\<rparr>],
         ms_IntentRef = noIntentRef\<rparr>,
      ci_PlacementStrategy = placement, ci_RolloutStrategy = None, ci_Auth = zeroAuth, ci_Provenance = None,
      ci_UserSignature = [], ci_ValidUntil = 0\<rparr>"

text \<open>The deployment is started and not waited for.\<close>

definition DeployTrustBundle :: "PlacementStrategySpec \<Rightarrow> AuthMethod \<Rightarrow> unit io" where
  "DeployTrustBundle placement meth =
     (case am_oidcConfig meth of
        None \<Rightarrow> ret ()
      | Some config \<Rightarrow>
          if am_authType meth \<noteq> AuthMethodTypeOIDC then ret ()
          else if ps_Type placement = '''' then ret ()
          else startWorkflow (CreateStarted (ci_Name (trustBundleInput placement (am_id meth) config))))"

definition provisionIdPRun :: "discovery \<Rightarrow> PlacementStrategySpec \<Rightarrow> ProvisionIdPInput \<Rightarrow> AuthMethod io" where
  "provisionIdPRun disc placement inp =
     andThen (wrap ''resolve and persist auth method: '' (RunActivity (ResolveAndPersist disc inp))) (\<lambda>meth.
     andThen (wrap ''deploy trust bundle: '' (RunActivity (DeployTrustBundle placement meth))) (\<lambda>_.
     ret meth))"

section \<open>The service of authentication methods\<close>

definition methodServiceCreate :: "string \<Rightarrow> AuthMethod \<Rightarrow> AuthMethod io" where
  "methodServiceCreate i m =
     throw (Plain ''public AuthMethod create is disabled; initial AuthMethod install is serve OIDC config only'')"

text \<open>Starting the workflow may fail; the engine is otherwise as for the other workflows.\<close>

definition InstallFirst :: "discovery \<Rightarrow> PlacementStrategySpec \<Rightarrow> string \<Rightarrow> AuthMethod \<Rightarrow> AuthMethod io" where
  "InstallFirst disc placement i m =
     (if i = '''' then throw (invalidArgument ''auth method ID is required'')
      else andThen (wrap ''list auth methods: '' methodsList) (\<lambda>existing.
           if existing \<noteq> [] then throw (Plain ''AuthMethod store is not empty'')
           else andThen (wrap ''start provision-idp workflow: '' (startWorkflow (ProvisionStarted i))) (\<lambda>_.
                wrap ''provision-idp workflow: ''
                  (provisionIdPRun disc placement \<lparr>pi_AuthMethodID = i, pi_AuthMethod = m\<rparr>))))"

definition methodServiceGet :: "string \<Rightarrow> AuthMethod io" where
  "methodServiceGet i = methodsGet i"

definition methodServiceList :: "AuthMethod list io" where
  "methodServiceList = methodsList"

section \<open>The repository of signer enrollments\<close>

text \<open>Times are written in whole seconds.\<close>

definition storedEnrollment :: "SignerEnrollment \<Rightarrow> SignerEnrollment" where
  "storedEnrollment e = e\<lparr>en_createdAt := storedTime (en_createdAt e), en_expiresAt := storedTime (en_expiresAt e)\<rparr>"

definition enrollmentsCreate :: "SignerEnrollment \<Rightarrow> store \<Rightarrow> store result" where
  "enrollmentsCreate e s =
     (if getRow en_id (en_id e) (t_enrollments s) \<noteq> None then Inl (rowExists ''signer enrollment'' (en_id e))
      else Inr (s\<lparr>t_enrollments := t_enrollments s @ [storedEnrollment e]\<rparr>))"

definition enrollmentsGet :: "string \<Rightarrow> store \<Rightarrow> SignerEnrollment result" where
  "enrollmentsGet i s = orNotFound (getRow en_id i (t_enrollments s))"

section \<open>The service of signer enrollments\<close>

type_synonym tokenVerifier = "nat \<Rightarrow> OIDCConfig \<Rightarrow> RawToken \<Rightarrow> SubjectClaims result"

record CreateSignerEnrollmentInput =
  si_ID :: string
  si_IdentityToken :: RawToken

definition NewSignerEnrollment ::
  "string \<Rightarrow> FederatedIdentity \<Rightarrow> RawToken \<Rightarrow> RegistrySubject \<Rightarrow> KeyRegistryID \<Rightarrow> go_time \<Rightarrow> go_time \<Rightarrow> SignerEnrollment" where
  "NewSignerEnrollment i identity token subject registryID now expiresAt =
     \<lparr>en_id = i, en_federatedIdentity = identity, en_identityToken = token, en_registrySubject = subject,
      en_registryID = registryID, en_createdAt = now, en_expiresAt = expiresAt\<rparr>"

definition enrollmentConfigOf :: "AuthMethod list \<Rightarrow> OIDCConfig result" where
  "enrollmentConfigOf methods =
     (case find (\<lambda>m. am_authType m = AuthMethodTypeOIDC \<and> am_oidcConfig m \<noteq> None) methods of
        None \<Rightarrow> Inl (invalidArgument ''no OIDC auth method configured'')
      | Some m \<Rightarrow>
          (case am_oidcConfig m of
             None \<Rightarrow> Inl (invalidArgument ''no OIDC auth method configured'')
           | Some c \<Rightarrow>
               if oi_KeyEnrollmentAudience c = ''''
               then Inl (invalidArgument (''auth method '' @ quote (am_id m) @ '' has no key_enrollment_audience configured''))
               else Inr c))"

definition loadEnrollmentConfig :: "OIDCConfig io" where
  "loadEnrollmentConfig = andThen (wrap ''list auth methods: '' methodsList) (\<lambda>methods. fromResult (enrollmentConfigOf methods))"

definition enrollmentVerification :: "OIDCConfig \<Rightarrow> OIDCConfig" where
  "enrollmentVerification c =
     zeroConfig\<lparr>oi_IssuerURL := oi_IssuerURL c, oi_Audience := oi_KeyEnrollmentAudience c, oi_JWKSURI := oi_JWKSURI c\<rparr>"

definition verifyEnrollmentToken :: "tokenVerifier \<Rightarrow> OIDCConfig \<Rightarrow> RawToken \<Rightarrow> SubjectClaims io" where
  "verifyEnrollmentToken verify c token w =
     (verify (w_step w) (enrollmentVerification c) token, w\<lparr>w_step := Suc (w_step w)\<rparr>)"

text \<open>The registry that holds the key of the signer, and the name of the signer in it.\<close>

definition registryOf :: "'k crypto \<Rightarrow> OIDCConfig \<Rightarrow> SubjectClaims \<Rightarrow> RawToken \<Rightarrow> (KeyRegistryID \<times> RegistrySubject) result" where
  "registryOf C c claims token =
     (if oi_PublicKeyClaimExpression c \<noteq> '''' then Inr (''oidc'', fi_Subject (sc_Identity claims))
      else case oi_RegistrySubjectMapping c of
             Some mapping \<Rightarrow>
               (case EvalClaimMapping C (Some mapping) token of
                  Inl e \<Rightarrow> Inl (invalidArgument (''claim mapping evaluation failed: '' @ errorText e))
                | Inr subject \<Rightarrow> Inr (rm_RegistryID mapping, subject))
           | None \<Rightarrow> Inl (invalidArgument
               (''no key registry configured '' @ [CHR 0xE2, CHR 0x80, CHR 0x94] @ '' AuthMethod needs a public-key claim expression or registry subject mapping'')))"

definition enrollmentLifetime :: int where
  "enrollmentLifetime = 365 * 24 * (3600 * 1000000000)"

definition enrollmentServiceCreate ::
  "'k crypto \<Rightarrow> tokenVerifier \<Rightarrow> go_time \<Rightarrow> AuthorizationContext option \<Rightarrow> CreateSignerEnrollmentInput \<Rightarrow> SignerEnrollment io" where
  "enrollmentServiceCreate C verify now ac inp =
     (case Option.bind ac ac_Subject of
        None \<Rightarrow> throw (invalidArgument ''enrolling a signer requires an authenticated caller'')
      | Some caller \<Rightarrow>
          if si_ID inp = '''' then throw (invalidArgument ''signer_enrollment_id is required'')
          else
            andThen loadEnrollmentConfig (\<lambda>config.
            andThen (wrap ''identity token verification failed: '' (verifyEnrollmentToken verify config (si_IdentityToken inp))) (\<lambda>claims.
            if fi_Subject (sc_Identity claims) \<noteq> fi_Subject (sc_Identity caller)
            then throw (invalidArgument (''identity token subject '' @ quote (fi_Subject (sc_Identity claims)) @
                   '' does not match caller '' @ quote (fi_Subject (sc_Identity caller))))
            else
              andThen (fromResult (registryOf C config claims (si_IdentityToken inp))) (\<lambda>(registryID, registrySubject).
              let enrollment = NewSignerEnrollment (si_ID inp) (sc_Identity caller) (si_IdentityToken inp) registrySubject registryID
                    now (now + enrollmentLifetime)
              in andThen Begin (\<lambda>_.
                 andThen (wrap ''persist signer enrollment: '' (writes (enrollmentsCreate enrollment))) (\<lambda>_.
                 andThen (wrap ''commit: '' Commit) (\<lambda>_.
                 ret enrollment)))))))"

section \<open>What enrolling commits\<close>

definition listed :: "world \<Rightarrow> world" where
  "listed w = w\<lparr>w_db := dbAtBegin w, w_others := tl (w_others w)\<rparr>"

lemma dbAtBegin_listed [simp]: "dbAtBegin (listed w) = dbAtBegin (begun w)" "w_db (listed w) = dbAtBegin w"
  by (simp_all add: listed_def begun_def dbAtBegin_def split: list.split)

lemma steps_statement:
  "steps w (statement f)
     (\<lambda>x w'. x = fst (f (dbAtBegin w)) \<and> w' = w\<lparr>w_db := snd (f (dbAtBegin w)), w_others := tl (w_others w)\<rparr>)"
  unfolding statement_def
proof (rule steps_infra)
  fix v assume v: "at w v"
  then have "dbAtBegin v = dbAtBegin w" by (simp add: at_def dbAtBegin_def split: list.split)
  with v show "case case f (dbAtBegin v) of (x, s) \<Rightarrow> (Inr x, v\<lparr>w_db := s, w_others := tl (w_others v)\<rparr>) of
      (Inr x, v') \<Rightarrow> \<exists>w'. (x = fst (f (dbAtBegin w)) \<and> w' = w\<lparr>w_db := snd (f (dbAtBegin w)), w_others := tl (w_others w)\<rparr>) \<and> at w' v'
    | (Inl e, v') \<Rightarrow> at w v'"
    by (auto simp: at_def split: prod.split)
qed

lemma scanMethods_same: "scanMethods rows = Inr ms \<Longrightarrow> ms = rows \<and> list_all (\<lambda>m. am_authType m = AuthMethodTypeOIDC) rows"
  by (induction rows arbitrary: ms) (auto split: if_splits sum.splits)

lemma triple_fromResult:
  "(\<And>x v. r = Inr x \<Longrightarrow> P v \<Longrightarrow> Q x v) \<Longrightarrow> (\<And>e v. r = Inl e \<Longrightarrow> P v \<Longrightarrow> R e v) \<Longrightarrow> triple P (fromResult r) Q R"
  by (cases r) (auto simp: fromResult_def intro: triple_ret triple_throw)

lemma methodsList_triple:
  "triple (at w) methodsList (\<lambda>ms v. ms = t_authMethods (dbAtBegin w) \<and> at (listed w) v) (\<lambda>_ v. at w v \<or> at (listed w) v)"
  unfolding methodsList_def
  by (rule then_steps [OF steps_wrap [OF steps_statement]]) (auto intro!: triple_fromResult simp: listed_def dest: scanMethods_same)

text \<open>The store an enrollment that failed has left: it committed nothing.\<close>

definition untouched :: "world \<Rightarrow> world \<Rightarrow> bool" where
  "untouched w v \<longleftrightarrow> w_db v \<in> {w_db w, dbAtBegin w, dbAtBegin (begun w)}"

lemma untouchedI [intro]: "at w v \<Longrightarrow> untouched w v" "at (listed w) v \<Longrightarrow> untouched w v" "at (begun (listed w)) v \<Longrightarrow> untouched w v"
  "at ((begun (listed w))\<lparr>w_tx := s\<rparr>) v \<Longrightarrow> untouched w v"
  by (auto simp: untouched_def at_def)

lemma config_triple:
  "triple (at w) loadEnrollmentConfig
     (\<lambda>c v. enrollmentConfigOf (t_authMethods (dbAtBegin w)) = Inr c \<and> at (listed w) v) (\<lambda>_. untouched w)"
proof -
  have "triple (at w) methodsList (\<lambda>ms v. ms = t_authMethods (dbAtBegin w) \<and> at (listed w) v) (\<lambda>_. untouched w)"
    by (rule methodsList_triple [THEN triple_weaken]) auto
  then show ?thesis unfolding loadEnrollmentConfig_def
    by (rule triple_andThen [OF triple_wrap]) (auto intro!: triple_fromResult)
qed

lemma token_triple:
  "triple (at u) (verifyEnrollmentToken verify c token)
     (\<lambda>claims v. (\<exists>n. verify n (enrollmentVerification c) token = Inr claims) \<and> at u v) (\<lambda>_. at u)"
  by (rule tripleI) (auto simp: verifyEnrollmentToken_def at_def split: sum.split)

lemma enrolled_triple:
  "triple (at (listed w))
     (andThen Begin (\<lambda>_. andThen (wrap p (writes (enrollmentsCreate e))) (\<lambda>_. andThen (wrap q Commit) (\<lambda>_. ret e))))
     (\<lambda>x v. x = e \<and> enrollmentsCreate e (dbAtBegin (begun w)) = Inr (w_db v)) (\<lambda>_. untouched w)"
  by (intro run_rules) (auto simp: at_def untouched_def)

definition enrolled ::
  "'k crypto \<Rightarrow> tokenVerifier \<Rightarrow> go_time \<Rightarrow> SubjectClaims \<Rightarrow> CreateSignerEnrollmentInput \<Rightarrow> world \<Rightarrow> SignerEnrollment \<Rightarrow> store \<Rightarrow> bool" where
  "enrolled C verify now caller inp w e s' \<longleftrightarrow>
     (\<exists>config claims n.
        enrollmentConfigOf (t_authMethods (dbAtBegin w)) = Inr config \<and>
        verify n (enrollmentVerification config) (si_IdentityToken inp) = Inr claims \<and>
        fi_Subject (sc_Identity claims) = fi_Subject (sc_Identity caller) \<and>
        registryOf C config claims (si_IdentityToken inp) = Inr (en_registryID e, en_registrySubject e)) \<and>
     si_ID inp \<noteq> '''' \<and>
     e = NewSignerEnrollment (si_ID inp) (sc_Identity caller) (si_IdentityToken inp) (en_registrySubject e) (en_registryID e)
           now (now + enrollmentLifetime) \<and>
     enrollmentsCreate e (dbAtBegin (begun w)) = Inr s'"

lemma enroll_triple:
  assumes "Option.bind ac ac_Subject = Some caller"
  shows "triple (at w) (enrollmentServiceCreate C verify now ac inp) (\<lambda>e v. enrolled C verify now caller inp w e (w_db v)) (\<lambda>_. untouched w)"
proof (cases "si_ID inp = ''''")
  case False
  let ?tok = "si_IdentityToken inp"
  let ?ok = "\<lambda>e v. enrolled C verify now caller inp w e (w_db v)"
  have persist: "triple (at (listed w)) (andThen Begin (\<lambda>_. andThen (wrap p (writes (enrollmentsCreate e))) (\<lambda>_. andThen (wrap q Commit) (\<lambda>_. ret e))))
      ?ok (\<lambda>_. untouched w)"
    if "\<And>s'. enrollmentsCreate e (dbAtBegin (begun w)) = Inr s' \<Longrightarrow> enrolled C verify now caller inp w e s'" for e p q
    by (rule enrolled_triple [THEN triple_weaken]) (auto intro: that)
  have checked: "triple (at (listed w))
      (if fi_Subject (sc_Identity claims) \<noteq> fi_Subject (sc_Identity caller) then throw err
       else andThen (fromResult (registryOf C config claims ?tok)) (\<lambda>(registryID, registrySubject).
         let e = NewSignerEnrollment (si_ID inp) (sc_Identity caller) ?tok registrySubject registryID now (now + enrollmentLifetime)
         in andThen Begin (\<lambda>_. andThen (wrap p (writes (enrollmentsCreate e))) (\<lambda>_. andThen (wrap q Commit) (\<lambda>_. ret e)))))
      ?ok (\<lambda>_. untouched w)"
    if "enrollmentConfigOf (t_authMethods (dbAtBegin w)) = Inr config" "verify n (enrollmentVerification config) ?tok = Inr claims"
    for config claims n err p q
  proof (rule triple_if)
    assume same: "\<not> fi_Subject (sc_Identity claims) \<noteq> fi_Subject (sc_Identity caller)"
    show "triple (at (listed w)) (andThen (fromResult (registryOf C config claims ?tok)) (\<lambda>(registryID, registrySubject).
         let e = NewSignerEnrollment (si_ID inp) (sc_Identity caller) ?tok registrySubject registryID now (now + enrollmentLifetime)
         in andThen Begin (\<lambda>_. andThen (wrap p (writes (enrollmentsCreate e))) (\<lambda>_. andThen (wrap q Commit) (\<lambda>_. ret e)))))
      ?ok (\<lambda>_. untouched w)"
    proof (cases "registryOf C config claims ?tok")
      case (Inl e)
      then show ?thesis by (auto simp: fromResult_def triple_def andThen_def throw_def)
    next
      case (Inr rs)
      obtain ri sub where rs: "rs = (ri, sub)" by (cases rs)
      let ?e = "NewSignerEnrollment (si_ID inp) (sc_Identity caller) ?tok sub ri now (now + enrollmentLifetime)"
      have "enrolled C verify now caller inp w ?e s'" if "enrollmentsCreate ?e (dbAtBegin (begun w)) = Inr s'" for s'
        using that same False Inr rs \<open>enrollmentConfigOf _ = _\<close> \<open>verify n _ _ = _\<close>
        unfolding enrolled_def by (auto simp: NewSignerEnrollment_def)
      from persist [OF this] show ?thesis unfolding Inr fromResult_def sum.case rs Let_def by (intro then_ret) simp
    qed
  qed (auto intro: triple_throw)
  have tokened: "triple (at (listed w)) (verifyEnrollmentToken verify config ?tok)
      (\<lambda>claims v. (\<exists>n. verify n (enrollmentVerification config) ?tok = Inr claims) \<and> at (listed w) v) (\<lambda>_. untouched w)" for config
    by (rule token_triple [THEN triple_weaken]) auto
  have guard: "(G \<Longrightarrow> triple P m Q R) \<Longrightarrow> triple (\<lambda>v. G \<and> P v) m Q R" for G P and m :: "SignerEnrollment io" and Q R
    by (auto simp: triple_def)
  show ?thesis
    unfolding enrollmentServiceCreate_def assms option.case if_not_P [OF False]
    by (rule triple_andThen [OF config_triple], rule guard, rule triple_andThen [OF triple_wrap [OF tokened]], rule guard, elim exE, rule checked)
qed (auto simp: enrollmentServiceCreate_def assms intro: triple_throw)

lemma enrolledD:
  assumes "enrolled C verify now caller inp w e s'"
  shows "en_federatedIdentity e = sc_Identity caller" "en_identityToken e = si_IdentityToken inp" "en_id e = si_ID inp"
    "en_createdAt e = now" "en_expiresAt e = now + enrollmentLifetime"
    "enrollmentsGet (si_ID inp) (dbAtBegin (begun w)) = notFound"
    "s' = (dbAtBegin (begun w))\<lparr>t_enrollments := t_enrollments (dbAtBegin (begun w)) @ [storedEnrollment e]\<rparr>"
proof -
  show e_eq: "en_federatedIdentity e = sc_Identity caller" "en_identityToken e = si_IdentityToken inp" "en_id e = si_ID inp"
    "en_createdAt e = now" "en_expiresAt e = now + enrollmentLifetime"
    using assms unfolding enrolled_def by (metis NewSignerEnrollment_def SignerEnrollment.select_convs)+
  from assms have "enrollmentsCreate e (dbAtBegin (begun w)) = Inr s'" by (simp add: enrolled_def)
  then show "enrollmentsGet (si_ID inp) (dbAtBegin (begun w)) = notFound"
    "s' = (dbAtBegin (begun w))\<lparr>t_enrollments := t_enrollments (dbAtBegin (begun w)) @ [storedEnrollment e]\<rparr>"
    by (auto simp: enrollmentsCreate_def enrollmentsGet_def e_eq split: if_splits)
qed

text \<open>
  C38: an enrollment binds the caller. If it succeeds, the caller was authenticated, the identity token was
  verified for the enrollment audience of the configured identity provider and carries the caller's
  subject, the registry and the name in it follow from the configuration and the token, and exactly
  one row, with the caller's identity under an identifier not used before, has been added; if it
  fails, it has committed nothing.
\<close>

theorem enrollment_binds_caller:
  "case enrollmentServiceCreate C verify now ac inp w of
     (Inr e, w') \<Rightarrow>
       (\<exists>a caller config claims n.
          ac = Some a \<and> ac_Subject a = Some caller \<and>
          enrollmentConfigOf (t_authMethods (dbAtBegin w)) = Inr config \<and>
          verify n (enrollmentVerification config) (si_IdentityToken inp) = Inr claims \<and>
          fi_Subject (sc_Identity claims) = fi_Subject (sc_Identity caller) \<and>
          registryOf C config claims (si_IdentityToken inp) = Inr (en_registryID e, en_registrySubject e) \<and>
          en_federatedIdentity e = sc_Identity caller \<and> en_identityToken e = si_IdentityToken inp) \<and>
       en_id e = si_ID inp \<and> si_ID inp \<noteq> '''' \<and> en_createdAt e = now \<and> en_expiresAt e = now + enrollmentLifetime \<and>
       enrollmentsGet (si_ID inp) (dbAtBegin (begun w)) = notFound \<and>
       w_db w' = (dbAtBegin (begun w))\<lparr>t_enrollments := t_enrollments (dbAtBegin (begun w)) @ [storedEnrollment e]\<rparr>
   | (Inl _, w') \<Rightarrow> w_db w' \<in> {w_db w, dbAtBegin w, dbAtBegin (begun w)}"
proof (cases "Option.bind ac ac_Subject")
  case None
  then show ?thesis by (simp add: enrollmentServiceCreate_def throw_def)
next
  case (Some caller)
  then obtain a where a: "ac = Some a" "ac_Subject a = Some caller" by (cases ac) auto
  obtain r w' where res: "enrollmentServiceCreate C verify now ac inp w = (r, w')" by fastforce
  note run = enroll_triple [OF Some, of w C verify now inp]
  show ?thesis
  proof (cases r)
    case (Inr e)
    from tripleD_Inr [OF run at_refl res [unfolded Inr]] have e: "enrolled C verify now caller inp w e (w_db w')" .
    then obtain config claims n where "enrollmentConfigOf (t_authMethods (dbAtBegin w)) = Inr config"
        "verify n (enrollmentVerification config) (si_IdentityToken inp) = Inr claims"
        "fi_Subject (sc_Identity claims) = fi_Subject (sc_Identity caller)"
        "registryOf C config claims (si_IdentityToken inp) = Inr (en_registryID e, en_registrySubject e)" "si_ID inp \<noteq> ''''"
      unfolding enrolled_def by blast
    with a enrolledD [OF e] show ?thesis unfolding res Inr prod.case sum.case by blast
  next
    case (Inl e)
    from tripleD_Inl [OF run at_refl res [unfolded Inl]] show ?thesis by (simp add: res Inl untouched_def)
  qed
qed

section \<open>How long an enrollment is used\<close>

lemma set_insertNewest [simp]: "set (insertNewest e xs) = insert e (set xs)"
  by (induction xs) auto

lemma set_newest [simp]: "set (fold insertNewest xs acc) = set xs \<union> set acc"
  by (induction xs arbitrary: acc) auto

lemma newest_first:
  assumes "\<forall>x \<in> set xs. en_createdAt x < en_createdAt e"
  shows "fold insertNewest (xs @ [e]) [] = e # fold insertNewest xs []"
proof -
  have "insertNewest e ys = e # ys" if "\<forall>x \<in> set ys. en_createdAt x < en_createdAt e" for ys
    using that by (cases ys) auto
  with assms show ?thesis by simp
qed

lemma storedTime_lifetime [simp]: "storedTime (t + enrollmentLifetime) = storedTime t + enrollmentLifetime"
proof -
  have L: "enrollmentLifetime = 1000000000 * 31536000" by (simp add: enrollmentLifetime_def)
  have "(t + 1000000000 * 31536000) div 1000000000 = t div 1000000000 + (31536000 :: int)" by simp
  then show ?thesis unfolding storedTime_def L by simp
qed

text \<open>
  Creation times have whole seconds: of two enrollments within one second the older one stays in front, and
  is the one that is used.
\<close>

lemma same_second_keeps_old:
  assumes "storedTime t1 = storedTime t2" "en_federatedIdentity a = who" "en_federatedIdentity b = who"
    and "en_createdAt a = t1" "en_createdAt b = t2" "t_enrollments s = [storedEnrollment a, storedEnrollment b]"
  shows "enrollmentsListBySubject who s = [storedEnrollment a, storedEnrollment b]"
  using assms by (simp add: enrollmentsListBySubject_def storedEnrollment_def)


definition sampleCaller :: SubjectClaims where
  "sampleCaller = \<lparr>sc_Identity = \<lparr>fi_Subject = ''alice'', fi_Issuer = ''https://idp''\<rparr>, sc_Extra = fmempty\<rparr>"

definition sampleMethod :: AuthMethod where
  "sampleMethod = NewOIDCAuthMethod ''default''
     (Some (zeroConfig\<lparr>oi_IssuerURL := ''https://idp'', oi_KeyEnrollmentAudience := ''enroll'', oi_PublicKeyClaimExpression := ''claims.key''\<rparr>))"

definition sampleCrypto :: "nat crypto" where
  "sampleCrypto = \<lparr>cr_sha256 = id, cr_verifyASN1 = (\<lambda>_ _ _. True), cr_parsePublicKey = (\<lambda>_. Inr []), cr_evalCEL = (\<lambda>_ _. Inr ''''),
     cr_getKeySet = (\<lambda>_. Inr ''''), cr_parseToken = (\<lambda>_ _. Inr []), cr_tokenSubject = (\<lambda>_. Inr None)\<rparr>"

abbreviation sampleEnrolling :: "SignerEnrollment io" where
  "sampleEnrolling \<equiv> enrollmentServiceCreate sampleCrypto (\<lambda>_ _ _. Inr sampleCaller) 1500000000
     (Some \<lparr>ac_Subject = Some sampleCaller, ac_Audience = [], ac_Token = ''''\<rparr>) \<lparr>si_ID = ''laptop'', si_IdentityToken = ''jwt''\<rparr>"


section \<open>The first authentication meth\<close>

lemma steps_RunActivity: "steps w m S \<Longrightarrow> steps w (RunActivity m) S"
  unfolding steps_def using triple_RunActivity [where R = "\<lambda>_ _. True"] by simp

lemma steps_FetchMetadata: "steps w (FetchMetadata disc url) (\<lambda>meta w'. (\<exists>n. disc n url = Inr meta) \<and> w' = w)"
  unfolding steps_def by (rule tripleI) (auto simp: FetchMetadata_def at_def split: sum.split)

text \<open>The method an installation ends with, and the world after it was saved.\<close>

definition provisioned :: "discovery \<Rightarrow> ProvisionIdPInput \<Rightarrow> AuthMethod \<Rightarrow> bool" where
  "provisioned disc inp meth \<longleftrightarrow>
     (\<exists>config meta n. am_oidcConfig (pi_AuthMethod inp) = Some config \<and> oi_IssuerURL config \<noteq> '''' \<and>
        disc n (oi_IssuerURL config) = Inr meta \<and>
        meth = NewOIDCAuthMethod (pi_AuthMethodID inp) (Some (resolved meta config)))"

definition saved :: "AuthMethod \<Rightarrow> world \<Rightarrow> world" where
  "saved m w = w\<lparr>w_db := putMethod m (dbAtBegin w), w_others := tl (w_others w)\<rparr>"

lemma steps_ResolveAndPersist:
  "steps w (ResolveAndPersist disc inp) (\<lambda>meth w'. provisioned disc inp meth \<and> w' = saved meth w)"
proof (cases "am_oidcConfig (pi_AuthMethod inp)")
  case None
  then show ?thesis by (simp add: ResolveAndPersist_def Let_def Validate_def NewOIDCAuthMethod_def steps_throw)
next
  case (Some config)
  let ?meth = "\<lambda>meta. NewOIDCAuthMethod (pi_AuthMethodID inp) (Some (resolved meta config))"
  have save: "steps w (methodsSave (?meth meta)) (\<lambda>_ w'. w' = saved (?meth meta) w)" for meta
    using steps_wrap [OF steps_statement [of w "\<lambda>s. ((), putMethod (?meth meta) s)"]]
    by (simp add: methodsSave_def NewOIDCAuthMethod_def saved_def)
  show ?thesis
  proof (cases "oi_IssuerURL config = ''''")
    case True
    with Some show ?thesis by (simp add: ResolveAndPersist_def Let_def Validate_def NewOIDCAuthMethod_def steps_throw)
  next
    case False
    have "steps w (andThen (wrap p (FetchMetadata disc (oi_IssuerURL config))) (\<lambda>meta.
          andThen (wrap q (methodsSave (?meth meta))) (\<lambda>_. ret (?meth meta))))
        (\<lambda>meth w'. provisioned disc inp meth \<and> w' = saved meth w)" for p q
      unfolding steps_def
      by (rule then_steps [OF steps_wrap [OF steps_FetchMetadata]], elim conjE exE, hypsubst, rule then_steps [OF steps_wrap [OF save]])
        (use False Some in \<open>auto simp: provisioned_def intro!: triple_ret\<close>)
    with Some False show ?thesis by (simp add: ResolveAndPersist_def Let_def Validate_def NewOIDCAuthMethod_def)
  qed
qed

lemma steps_DeployTrustBundle:
  assumes "provisioned disc inp meth"
  shows "steps w (DeployTrustBundle placement meth)
     (\<lambda>_ w'. w' = w\<lparr>w_started := w_started w @
        (if ps_Type placement = '''' then [] else [CreateStarted (''deployments/idp-trust-'' @ pi_AuthMethodID inp)])\<rparr>)"
  using assms steps_startWorkflow [of w "CreateStarted (''deployments/idp-trust-'' @ pi_AuthMethodID inp)"]
  by (auto simp: DeployTrustBundle_def provisioned_def NewOIDCAuthMethod_def AuthMethodTypeOIDC_def trustBundleInput_def steps_def
      intro: triple_ret)

lemma InstallFirst_triple:
  fixes w :: world and disc :: discovery and m :: AuthMethod and i :: string
  assumes "w_others w = []" "i \<noteq> ''''"
  defines "inp \<equiv> \<lparr>pi_AuthMethodID = i, pi_AuthMethod = m\<rparr>"
  defines "stored \<equiv> (\<lambda>meth v. provisioned disc inp meth \<and> t_authMethods (w_db w) = [] \<and> w_db v = putMethod meth (w_db w))"
  shows "triple (at w) (InstallFirst disc placement i m)
    (\<lambda>meth v. stored meth v \<and> w_started v = w_started w @ ProvisionStarted i #
       (if ps_Type placement = '''' then [] else [CreateStarted (''deployments/idp-trust-'' @ i)]))
    (\<lambda>_ v. (w_db v = w_db w \<or> (\<exists>meth. stored meth v)) \<and> (t_authMethods (w_db w) \<noteq> [] \<longrightarrow> w_started v = w_started w))"
    (is "triple _ _ ?ok ?bad")
proof -
  have db: "dbAtBegin w = w_db w" using assms(1) by (simp add: dbAtBegin_def)
  let ?w1 = "listed w"
  let ?w2 = "?w1\<lparr>w_started := w_started w @ [ProvisionStarted i]\<rparr>"
  have w2: "dbAtBegin ?w2 = w_db w" "w_db ?w2 = w_db w" "w_started ?w2 = w_started w @ [ProvisionStarted i]" "w_started ?w1 = w_started w" "w_db ?w1 = w_db w"
    using assms(1) by (simp_all add: listed_def dbAtBegin_def)
  have run: "triple (at ?w2) (provisionIdPRun disc placement inp) ?ok ?bad" if empty: "t_authMethods (w_db w) = []"
    unfolding provisionIdPRun_def
    by (rule then_steps [OF steps_wrap [OF steps_RunActivity [OF steps_ResolveAndPersist]]], elim conjE, hypsubst,
        rule then_steps [OF steps_wrap [OF steps_RunActivity [OF steps_DeployTrustBundle]]], assumption)
      (use empty in \<open>auto simp: stored_def saved_def w2 at_def inp_def intro!: triple_ret\<close>)
  have list: "triple (at w) (wrap p methodsList) (\<lambda>ms v. ms = t_authMethods (w_db w) \<and> at ?w1 v) ?bad" for p
    by (rule triple_wrap, rule methodsList_triple [THEN triple_weaken]) (auto simp: db at_def w2)
  show ?thesis
    unfolding InstallFirst_def if_not_P [OF assms(2)]
  proof (rule triple_andThen [OF list])
    fix ms
    show "triple (\<lambda>v. ms = t_authMethods (w_db w) \<and> at ?w1 v)
      (if ms \<noteq> [] then throw (Plain ''AuthMethod store is not empty'')
       else andThen (wrap ''start provision-idp workflow: '' (startWorkflow (ProvisionStarted i)))
         (\<lambda>_. wrap ''provision-idp workflow: '' (provisionIdPRun disc placement \<lparr>pi_AuthMethodID = i, pi_AuthMethod = m\<rparr>))) ?ok ?bad"
    proof (cases "ms = t_authMethods (w_db w) \<and> ms = []")
      case True
      then have empty: "t_authMethods (w_db w) = []" by metis
      have started: "triple (at ?w1) (andThen (wrap p (startWorkflow (ProvisionStarted i))) (\<lambda>_. wrap q (provisionIdPRun disc placement inp))) ?ok ?bad" for p q
        by (rule then_steps [OF steps_wrap [OF steps_startWorkflow]], unfold w2, hypsubst, rule triple_wrap [OF run [OF empty]])
          (use empty in \<open>auto simp: at_def w2 db\<close>)
      from True have nil: "\<not> ms \<noteq> []" by blast
      show ?thesis unfolding if_not_P [OF nil] inp_def [symmetric] by (rule triple_weaken [OF started]) auto
    next
      case False
      then show ?thesis by (auto simp: triple_def throw_def at_def w2 db)
    qed
  qed
qed

lemma putMethod_first:
  assumes "t_authMethods s = []" "provisioned disc inp meth"
  shows "putMethod meth s = s\<lparr>t_authMethods := [meth]\<rparr>"
  using assms by (auto simp: putMethod_def storedMethod_def provisioned_def NewOIDCAuthMethod_def upsertRow_def)

text \<open>
  C40: the first authentication method is installed into an empty table only. If no other process writes
  meanwhile, an installation that succeeds leaves exactly the given method, under the given identifier and
  with the endpoints the discovery returned, and has started one deployment of the trust bundle if
  a placement is configured, however often activities were retried; one that fails has changed
  nothing but, at most, stored the method; and if the table was not empty, it changes and starts nothing.
\<close>

theorem install_first_exact:
  assumes "w_others w = []"
  shows "case InstallFirst disc placement i m w of
     (Inr meth, w') \<Rightarrow>
       i \<noteq> '''' \<and> t_authMethods (w_db w) = [] \<and>
       (\<exists>config meta n. am_oidcConfig m = Some config \<and> oi_IssuerURL config \<noteq> '''' \<and> disc n (oi_IssuerURL config) = Inr meta \<and>
          meth = \<lparr>am_id = i, am_authType = ''oidc'', am_oidcConfig = Some (resolved meta config)\<rparr>) \<and>
       w_db w' = (w_db w)\<lparr>t_authMethods := [meth]\<rparr> \<and>
       w_started w' = w_started w @ ProvisionStarted i #
         (if ps_Type placement = '''' then [] else [CreateStarted (''deployments/idp-trust-'' @ i)])
   | (Inl _, w') \<Rightarrow>
       (w_db w' = w_db w \<or>
        t_authMethods (w_db w) = [] \<and> (\<exists>meth. am_id meth = i \<and> w_db w' = (w_db w)\<lparr>t_authMethods := [meth]\<rparr>)) \<and>
       (t_authMethods (w_db w) \<noteq> [] \<longrightarrow> w_started w' = w_started w)"
proof (cases "i = ''''")
  case True
  then show ?thesis by (simp add: InstallFirst_def throw_def)
next
  case False
  let ?inp = "\<lparr>pi_AuthMethodID = i, pi_AuthMethod = m\<rparr>"
  obtain r w' where res: "InstallFirst disc placement i m w = (r, w')" by fastforce
  note run = InstallFirst_triple [OF assms False, of disc placement m]
  have id: "am_id meth = i" if "provisioned disc ?inp meth" for meth
    using that by (auto simp: provisioned_def NewOIDCAuthMethod_def)
  show ?thesis
  proof (cases r)
    case (Inr meth)
    note ok = tripleD_Inr [OF run at_refl res [unfolded Inr]]
    then have "w_db w' = (w_db w)\<lparr>t_authMethods := [meth]\<rparr>" using putMethod_first [of "w_db w"] by auto
    moreover from ok obtain config meta n where "am_oidcConfig m = Some config" "oi_IssuerURL config \<noteq> ''''"
        "disc n (oi_IssuerURL config) = Inr meta" "meth = \<lparr>am_id = i, am_authType = ''oidc'', am_oidcConfig = Some (resolved meta config)\<rparr>"
      by (auto simp: provisioned_def NewOIDCAuthMethod_def AuthMethodTypeOIDC_def)
    ultimately show ?thesis using ok False unfolding res Inr prod.case sum.case by blast
  next
    case (Inl e)
    note bad = tripleD_Inl [OF run at_refl res [unfolded Inl]]
    then have "w_db w' = w_db w \<or>
        t_authMethods (w_db w) = [] \<and> (\<exists>meth. am_id meth = i \<and> w_db w' = (w_db w)\<lparr>t_authMethods := [meth]\<rparr>)"
      using putMethod_first [of "w_db w"] id by metis
    with bad show ?thesis unfolding res Inl prod.case sum.case by blast
  qed
qed

theorem install_first_exact_witness:
  "\<exists>meth w'. InstallFirst (\<lambda>_ _. Inr \<lparr>md_Issuer = ''https://idp'', md_AuthorizationEndpoint = ''a'', md_TokenEndpoint = ''t'', md_JWKSURI = ''j''\<rparr>)
       \<lparr>ps_Type = ''all'', ps_Targets = [], ps_TargetSelector = None\<rparr> ''default'' sampleMethod (calmWorld emptyStore) = (Inr meth, w') \<and>
     t_authMethods (w_db w') = [meth] \<and>
     w_started w' = [ProvisionStarted ''default'', CreateStarted ''deployments/idp-trust-default'']"
proof -
  let ?disc = "\<lambda>_ _. Inr \<lparr>md_Issuer = ''https://idp'', md_AuthorizationEndpoint = ''a'', md_TokenEndpoint = ''t'', md_JWKSURI = ''j''\<rparr>"
  let ?place = "\<lparr>ps_Type = ''all'', ps_Targets = [], ps_TargetSelector = None\<rparr>"
  let ?w = "calmWorld emptyStore"
  have "fst (InstallFirst ?disc ?place ''default'' sampleMethod ?w) \<noteq> Inl e" for e
    by (simp add: InstallFirst_def methodsList_def statement_def infra_def andThen_def wrap_def fromResult_def ret_def calmWorld_def
        dbAtBegin_def emptyStore_def startWorkflow_def provisionIdPRun_def RunActivity_def activityMaxAttempts_def ResolveAndPersist_def
        Validate_def sampleMethod_def NewOIDCAuthMethod_def AuthMethodTypeOIDC_def zeroConfig_def FetchMetadata_def methodsSave_def
        DeployTrustBundle_def Let_def eval_nat_numeral)
  then obtain meth w' where run: "InstallFirst ?disc ?place ''default'' sampleMethod ?w = (Inr meth, w')"
    by (metis fst_conv prod.collapse sum.exhaust)
  have "w_others ?w = []" by (simp add: calmWorld_def)
  from install_first_exact [OF this, where disc = ?disc and placement = ?place and i = "''default''" and m = sampleMethod] run show ?thesis
    by (auto simp: calmWorld_def)
qed

end
